theory Spec2Isabelle
  imports Main "HOL-Library.AList"
begin


section \<open>Values, metadata nodes and the object heap\<close>

text \<open>
  A shallow embedding of \<^verbatim>\<open>packages/jest-mock/src/index.js\<close>.

  JavaScript values are the primitives and references to heap objects. Numbers are
  integers here (no claim depends on fractions or NaN). Every object, function, array,
  regular expression and collection lives in the heap and is named by its address, so
  that \<^verbatim>\<open>===\<close> on two values is equality of \<open>val\<close>.
\<close>

datatype val = Undefined | Null | Bool bool | Num int | Str string | Ref nat

datatype error = TypeError | Error string

text \<open>
  An own property is a stored value or an accessor; \<open>Getter v\<close> is an accessor whose
  getter returns \<open>v\<close> (what \<^verbatim>\<open>propDesc.get\<close> tests for).
\<close>

datatype property = Data val | Getter val

text \<open>
  \<^verbatim>\<open>MockFunctionMetadata\<close>. An absent field is \<open>None\<close>, or \<open>Undefined\<close> for the fields
  that hold a value. \<open>md_members\<close> lists the members in the order in which JavaScript
  enumerates the keys of the \<^verbatim>\<open>members\<close> object; the empty list stands for an absent
  \<^verbatim>\<open>members\<close> as well as for an empty one (the generator reads both alike, and the
  extractor never builds an empty one).
\<close>

datatype metadata = Metadata
  (md_ref: "nat option")
  (md_members: "(string \<times> metadata) list")
  (md_mockImpl: val)
  (md_name: val)
  (md_refID: "nat option")
  (md_type: "string option")
  (md_value: val)

text \<open>
  The variables that \<^verbatim>\<open>mockConstructor\<close> and the configuration methods close over
  (the function branch of \<^verbatim>\<open>makeComponent\<close>). \<^verbatim>\<open>f.mock\<close> is
  \<^verbatim>\<open>{calls, instances}\<close>: it shares the two arrays below.
\<close>

record mockRecord =
  isReturnValueLastSet :: bool
  defaultReturnValue :: val
  mockImpl :: val
  specificReturnValues :: "val list"
  specificMockImpls :: "val list"
  calls :: "val list list"
  instances :: "val list"
  prototype :: "(string \<times> metadata) list"
  prototypeSlots :: "string list"

text \<open>
  A heap object: \<open>cls\<close> is the \<open>X\<close> of \<^verbatim>\<open>Object.prototype.toString\<close>'s
  \<^verbatim>\<open>[object X]\<close>, \<open>proto\<close> is \<^verbatim>\<open>Object.getPrototypeOf\<close>, \<open>props\<close> are the own
  properties in enumeration order, and \<open>closure\<close> is the mock record of an
  instrumented callable (\<open>None\<close> for every other object).
\<close>

record obj =
  cls :: string
  proto :: val
  props :: "(string \<times> property) list"
  closure :: "mockRecord option"

type_synonym heap = "obj list"

text \<open>
  A computation returns its result or the error it threw, and the heap it left: a throw
  does not undo the writes made before it.
\<close>

type_synonym 'a res = "(error + 'a) \<times> heap"

text \<open>The intrinsic objects sit at fixed addresses of every heap.\<close>

definition objectPrototype :: val where
  "objectPrototype = Ref 0"

definition functionPrototype :: val where
  "functionPrototype = Ref 1"

definition arrayPrototype :: val where
  "arrayPrototype = Ref 2"

definition regExpPrototype :: val where
  "regExpPrototype = Ref 3"

definition lookupObj :: "heap \<Rightarrow> nat \<Rightarrow> obj option" where
  "lookupObj h a = (if a < length h then Some (h ! a) else None)"

definition alloc :: "heap \<Rightarrow> obj \<Rightarrow> val \<times> heap" where
  "alloc h ob = (Ref (length h), h @ [ob])"

definition truthy :: "val \<Rightarrow> bool" where
  "truthy v = (case v of Undefined \<Rightarrow> False | Null \<Rightarrow> False | Bool b \<Rightarrow> b
     | Num n \<Rightarrow> n \<noteq> 0 | Str s \<Rightarrow> s \<noteq> [] | Ref a \<Rightarrow> True)"

definition propValue :: "property \<Rightarrow> val" where
  "propValue p = (case p of Data v \<Rightarrow> v | Getter v \<Rightarrow> v)"

text \<open>
  Reading \<^verbatim>\<open>object[slot]\<close> walks the chain of prototypes. A chain of a heap of \<open>n\<close>
  objects has at most \<open>n\<close> links (JavaScript refuses a cyclic chain), which bounds the
  walk. The built-in members of the primitives' wrappers are not modelled: a member
  read from a number, string or boolean is \<^verbatim>\<open>undefined\<close>.
\<close>

fun lookupFrom :: "nat \<Rightarrow> heap \<Rightarrow> val \<Rightarrow> string \<Rightarrow> val" where
  "lookupFrom 0 h v slot = Undefined"
| "lookupFrom (Suc n) h v slot =
     (case v of
        Ref a \<Rightarrow>
          (case lookupObj h a of
             None \<Rightarrow> Undefined
           | Some ob \<Rightarrow>
               (case map_of (props ob) slot of
                  Some p \<Rightarrow> propValue p
                | None \<Rightarrow> lookupFrom n h (proto ob) slot))
      | _ \<Rightarrow> Undefined)"

definition lookupProp :: "heap \<Rightarrow> val \<Rightarrow> string \<Rightarrow> val" where
  "lookupProp h v slot = lookupFrom (length h) h v slot"

text \<open>A member read that may hit \<^verbatim>\<open>undefined\<close> or \<^verbatim>\<open>null\<close>, where it throws.\<close>

definition getProp :: "heap \<Rightarrow> val \<Rightarrow> string \<Rightarrow> error + val" where
  "getProp h v slot =
     (case v of
        Undefined \<Rightarrow> Inl TypeError
      | Null \<Rightarrow> Inl TypeError
      | _ \<Rightarrow> Inr (lookupProp h v slot))"

text \<open>
  The property that \<^verbatim>\<open>object[slot]\<close> finds: the first one of that name on the chain
  of prototypes, an own property before an inherited one.
\<close>

fun findProperty :: "nat \<Rightarrow> heap \<Rightarrow> val \<Rightarrow> string \<Rightarrow> property option" where
  "findProperty 0 h v slot = None"
| "findProperty (Suc n) h v slot =
     (case v of
        Ref a \<Rightarrow>
          (case lookupObj h a of
             None \<Rightarrow> None
           | Some ob \<Rightarrow>
               (case map_of (props ob) slot of
                  Some p \<Rightarrow> Some p
                | None \<Rightarrow> findProperty n h (proto ob) slot))
      | _ \<Rightarrow> None)"

definition isGetter :: "property \<Rightarrow> bool" where
  "isGetter p = (case p of Data v \<Rightarrow> False | Getter v \<Rightarrow> True)"

text \<open>\<^verbatim>\<open>v instanceof f\<close> for a function \<open>f\<close>.\<close>

fun inChain :: "nat \<Rightarrow> heap \<Rightarrow> val \<Rightarrow> val \<Rightarrow> bool" where
  "inChain 0 h v p = False"
| "inChain (Suc n) h v p =
     (case v of
        Ref a \<Rightarrow>
          (if v = p then True
           else (case lookupObj h a of
                   None \<Rightarrow> False
                 | Some ob \<Rightarrow> inChain n h (proto ob) p))
      | _ \<Rightarrow> False)"

definition instanceOf :: "heap \<Rightarrow> val \<Rightarrow> val \<Rightarrow> error + bool" where
  "instanceOf h v f =
     (case v of
        Ref a \<Rightarrow>
          (case lookupObj h a of
             None \<Rightarrow> Inr False
           | Some ob \<Rightarrow>
               (case lookupProp h f ''prototype'' of
                  Ref p \<Rightarrow> Inr (inChain (length h) h (proto ob) (Ref p))
                | _ \<Rightarrow> Inl TypeError))
      | _ \<Rightarrow> Inr False)"

definition closureOf :: "heap \<Rightarrow> nat \<Rightarrow> mockRecord option" where
  "closureOf h a = (case lookupObj h a of None \<Rightarrow> None | Some ob \<Rightarrow> closure ob)"

definition setClosure :: "heap \<Rightarrow> nat \<Rightarrow> mockRecord \<Rightarrow> heap" where
  "setClosure h a ms = (if a < length h then h[a := (h ! a)\<lparr>closure := Some ms\<rparr>] else h)"

section \<open>Type classifier\<close>

definition classOf :: "heap \<Rightarrow> val \<Rightarrow> string" where
  "classOf h v =
     (case v of
        Undefined \<Rightarrow> ''Undefined''
      | Null \<Rightarrow> ''Null''
      | Bool b \<Rightarrow> ''Boolean''
      | Num n \<Rightarrow> ''Number''
      | Str s \<Rightarrow> ''String''
      | Ref a \<Rightarrow> (case lookupObj h a of None \<Rightarrow> [] | Some ob \<Rightarrow> cls ob))"

definition isA :: "string \<Rightarrow> heap \<Rightarrow> val \<Rightarrow> bool" where
  "isA typeName h v = (classOf h v = typeName)"

definition getType :: "heap \<Rightarrow> val \<Rightarrow> string option" where
  "getType h r =
     (if isA ''Function'' h r then Some ''function''
      else if isA ''Array'' h r then Some ''array''
      else if isA ''Object'' h r then Some ''object''
      else if isA ''Number'' h r \<or> isA ''String'' h r \<or> isA ''Boolean'' h r then Some ''constant''
      else if isA ''Map'' h r \<or> isA ''WeakMap'' h r \<or> isA ''Set'' h r then Some ''collection''
      else if isA ''RegExp'' h r then Some ''regexp''
      else if r = Undefined then Some ''undefined''
      else if r = Null then Some ''null''
      else None)"

subsection \<open>Member writes\<close>

text \<open>
  \<^verbatim>\<open>object[slot] = x\<close> in strict mode. It throws on \<^verbatim>\<open>undefined\<close>, \<^verbatim>\<open>null\<close> and on a
  primitive. On an object it throws when the member is read-only or when the property
  that the name finds is an accessor (an accessor here has a getter only); otherwise it
  replaces the own stored value in place or appends a new own property. The read-only
  members are those of the intrinsics that the module itself knows of: \<^verbatim>\<open>name\<close>,
  \<^verbatim>\<open>length\<close>, \<^verbatim>\<open>arguments\<close> and \<^verbatim>\<open>caller\<close> of a function, and \<^verbatim>\<open>source\<close>, \<^verbatim>\<open>global\<close>,
  \<^verbatim>\<open>ignoreCase\<close> and \<^verbatim>\<open>multiline\<close> of a regular expression. Properties that a program
  has made read-only itself, and frozen objects, are not modelled.
\<close>

definition readOnlyMember :: "heap \<Rightarrow> val \<Rightarrow> string \<Rightarrow> bool" where
  "readOnlyMember h object prop =
     ((prop \<in> set [''arguments'', ''caller'', ''name'', ''length''] \<and> isA ''Function'' h object)
      \<or> (prop \<in> set [''source'', ''global'', ''ignoreCase'', ''multiline'']
         \<and> isA ''RegExp'' h object))"

definition writable :: "heap \<Rightarrow> val \<Rightarrow> string \<Rightarrow> bool" where
  "writable h object slot =
     (\<not> readOnlyMember h object slot
      \<and> (case findProperty (length h) h object slot of None \<Rightarrow> True | Some p \<Rightarrow> \<not> isGetter p))"

definition setProp :: "heap \<Rightarrow> val \<Rightarrow> string \<Rightarrow> val \<Rightarrow> error + heap" where
  "setProp h v slot x =
     (case v of
        Ref a \<Rightarrow>
          (case lookupObj h a of
             None \<Rightarrow> Inl TypeError
           | Some ob \<Rightarrow>
               if writable h v slot
               then Inr (h[a := ob\<lparr>props := AList.update slot (Data x) (props ob)\<rparr>])
               else Inl TypeError)
      | _ \<Rightarrow> Inl TypeError)"

section \<open>Mock generator\<close>

text \<open>
  \<^verbatim>\<open>getSlots\<close> on a \<^verbatim>\<open>members\<close> object of a metadata node: a plain object of stored
  values, whose own keys are the slots. The list of members of a node holds them in the
  order in which \<^verbatim>\<open>Object.keys\<close> enumerates them.
\<close>

definition getSlotsMembers :: "(string \<times> metadata) list \<Rightarrow> string list" where
  "getSlotsMembers ms = map fst ms"

definition knownTypes :: "string list" where
  "knownTypes = [''object'', ''array'', ''regexp'', ''constant'', ''collection'',
     ''null'', ''undefined'', ''function'']"

text \<open>
  \<^verbatim>\<open>makeComponent\<close>. The function branch builds the callable \<open>f\<close> with its fresh
  \<^verbatim>\<open>prototype\<close> object and its mock record. \<^verbatim>\<open>createMockFunction\<close> wraps
  \<^verbatim>\<open>mockConstructor\<close> in a function of the name of the metadata, which it builds from
  source text; it is taken as transparent here, which it is for the names that
  \<open>plainName\<close> admits below: for another name the text may not parse, and a name that
  starts with \<^verbatim>\<open>bound\<close> and a blank gives a bound function, which has no \<^verbatim>\<open>prototype\<close>
  member. Of the members set on \<open>f\<close> the heap keeps the ones that are data
  (\<^verbatim>\<open>prototype\<close> and the marker \<^verbatim>\<open>_isMockFunction\<close>); the methods are the operations of
  the next section and no members of the heap object.
\<close>

definition makeComponent :: "metadata \<Rightarrow> heap \<Rightarrow> val res" where
  "makeComponent metadata h =
     (if md_type metadata = Some ''object'' then
        (let (m, h') = alloc h \<lparr>cls = ''Object'', proto = objectPrototype, props = [], closure = None\<rparr>
         in (Inr m, h'))
      else if md_type metadata = Some ''array'' then
        (let (m, h') = alloc h \<lparr>cls = ''Array'', proto = arrayPrototype, props = [], closure = None\<rparr>
         in (Inr m, h'))
      else if md_type metadata = Some ''regexp'' then
        (let (m, h') = alloc h \<lparr>cls = ''RegExp'', proto = regExpPrototype, props = [], closure = None\<rparr>
         in (Inr m, h'))
      else if md_type metadata = Some ''constant'' \<or> md_type metadata = Some ''collection''
            \<or> md_type metadata = Some ''null'' \<or> md_type metadata = Some ''undefined'' then
        (Inr (md_value metadata), h)
      else if md_type metadata = Some ''function'' then
        (let prototype =
               (case map_of (md_members metadata) ''prototype'' of
                  None \<Rightarrow> []
                | Some p \<Rightarrow> md_members p);
             f = Ref (length h);
             fproto = Ref (Suc (length h));
             ms = \<lparr>isReturnValueLastSet = False,
                   defaultReturnValue = Undefined,
                   mockImpl = (if truthy (md_mockImpl metadata) then md_mockImpl metadata else Undefined),
                   specificReturnValues = [],
                   specificMockImpls = [],
                   calls = [],
                   instances = [],
                   prototype = prototype,
                   prototypeSlots = getSlotsMembers prototype\<rparr>
         in (Inr f,
             h @ [\<lparr>cls = ''Function'', proto = functionPrototype,
                     props = [(''prototype'', Data fproto), (''_isMockFunction'', Data (Bool True))],
                     closure = Some ms\<rparr>,
                  \<lparr>cls = ''Object'', proto = objectPrototype,
                     props = [(''constructor'', Data f)], closure = None\<rparr>]))
      else
        (let unknownType =
               (case md_type metadata of
                  None \<Rightarrow> ''undefined type''
                | Some t \<Rightarrow> if t = [] then ''undefined type'' else t)
         in (Inl (Error (''Unrecognized type '' @ unknownType)), h)))"

text \<open>
  A deferred assignment \<^verbatim>\<open>() => mock[slot] = refs[slotMetadata.ref]\<close> is the triple
  of what the arrow function captures; \<^verbatim>\<open>refs\<close> is read when it runs.
\<close>

type_synonym callback = "val \<times> string \<times> nat"

type_synonym refTable = "nat \<Rightarrow> val option"

fun generateMock ::
    "metadata \<Rightarrow> callback list \<Rightarrow> refTable \<Rightarrow> heap \<Rightarrow> (val \<times> callback list \<times> refTable) res"
  and generateSlots ::
    "val \<Rightarrow> (string \<times> metadata) list \<Rightarrow> callback list \<Rightarrow> refTable \<Rightarrow> heap
       \<Rightarrow> (callback list \<times> refTable) res"
  where
  "generateMock (Metadata rf members mi nm refID ty vl) callbacks refs h =
     (case makeComponent (Metadata rf members mi nm refID ty vl) h of
        (Inl e, h1) \<Rightarrow> (Inl e, h1)
      | (Inr mock, h1) \<Rightarrow>
          (let refs1 = (case refID of None \<Rightarrow> refs | Some r \<Rightarrow> refs(r \<mapsto> mock)) in
           case generateSlots mock members callbacks refs1 h1 of
             (Inl e, h2) \<Rightarrow> (Inl e, h2)
           | (Inr (callbacks2, refs2), h2) \<Rightarrow>
               (if ty \<noteq> Some ''undefined'' \<and> ty \<noteq> Some ''null'' then
                  (case getProp h2 mock ''prototype'' of
                     Inl e \<Rightarrow> (Inl e, h2)
                   | Inr p \<Rightarrow>
                       (if truthy p then
                          (case setProp h2 p ''constructor'' mock of
                             Inl e \<Rightarrow> (Inl e, h2)
                           | Inr h3 \<Rightarrow> (Inr (mock, callbacks2, refs2), h3))
                        else (Inr (mock, callbacks2, refs2), h2)))
                else (Inr (mock, callbacks2, refs2), h2))))"
| "generateSlots mock [] callbacks refs h = (Inr (callbacks, refs), h)"
| "generateSlots mock ((slot, slotMetadata) # rest) callbacks refs h =
     (case md_ref slotMetadata of
        Some r \<Rightarrow> generateSlots mock rest (callbacks @ [(mock, slot, r)]) refs h
      | None \<Rightarrow>
          (case generateMock slotMetadata callbacks refs h of
             (Inl e, h1) \<Rightarrow> (Inl e, h1)
           | (Inr (child, callbacks1, refs1), h1) \<Rightarrow>
               (case setProp h1 mock slot child of
                  Inl e \<Rightarrow> (Inl e, h1)
                | Inr h2 \<Rightarrow> generateSlots mock rest callbacks1 refs1 h2)))"

text \<open>
  \<^verbatim>\<open>callbacks.forEach(setter => setter())\<close>; a missing key of \<^verbatim>\<open>refs\<close> reads as
  \<^verbatim>\<open>undefined\<close>.
\<close>

fun runCallbacks :: "callback list \<Rightarrow> refTable \<Rightarrow> heap \<Rightarrow> unit res" where
  "runCallbacks [] refs h = (Inr (), h)"
| "runCallbacks ((mock, slot, r) # rest) refs h =
     (case setProp h mock slot (case refs r of None \<Rightarrow> Undefined | Some v \<Rightarrow> v) of
        Inl e \<Rightarrow> (Inl e, h)
      | Inr h1 \<Rightarrow> runCallbacks rest refs h1)"

definition generateFromMetadata :: "metadata \<Rightarrow> heap \<Rightarrow> val res" where
  "generateFromMetadata metadata h =
     (case generateMock metadata [] Map.empty h of
        (Inl e, h1) \<Rightarrow> (Inl e, h1)
      | (Inr (mock, callbacks, refs), h1) \<Rightarrow>
          (case runCallbacks callbacks refs h1 of
             (Inl e, h2) \<Rightarrow> (Inl e, h2)
           | (Inr u, h2) \<Rightarrow> (Inr mock, h2)))"

section \<open>Instrumented-callable runtime\<close>

definition updateMock :: "heap \<Rightarrow> nat \<Rightarrow> (mockRecord \<Rightarrow> mockRecord) \<Rightarrow> heap" where
  "updateMock h f g = (case closureOf h f of None \<Rightarrow> h | Some ms \<Rightarrow> setClosure h f (g ms))"

text \<open>
  The configuration methods of the callable at address \<open>f\<close>. Each returns \<open>f\<close> itself;
  the model returns the heap it leaves.
\<close>

definition getMockImplementation :: "heap \<Rightarrow> nat \<Rightarrow> val" where
  "getMockImplementation h f = (case closureOf h f of None \<Rightarrow> Undefined | Some ms \<Rightarrow> mockImpl ms)"

definition mockClear :: "heap \<Rightarrow> nat \<Rightarrow> heap" where
  "mockClear h f = updateMock (updateMock h f (\<lambda>ms. ms\<lparr>calls := []\<rparr>)) f (\<lambda>ms. ms\<lparr>instances := []\<rparr>)"

definition mockReturnValueOnce :: "heap \<Rightarrow> nat \<Rightarrow> val \<Rightarrow> heap" where
  "mockReturnValueOnce h f v =
     updateMock h f (\<lambda>ms. ms\<lparr>isReturnValueLastSet := True,
                              specificReturnValues := specificReturnValues ms @ [v]\<rparr>)"

definition mockReturnValue :: "heap \<Rightarrow> nat \<Rightarrow> val \<Rightarrow> heap" where
  "mockReturnValue h f v =
     updateMock h f (\<lambda>ms. ms\<lparr>isReturnValueLastSet := True, defaultReturnValue := v\<rparr>)"

definition mockImplementationOnce :: "heap \<Rightarrow> nat \<Rightarrow> val \<Rightarrow> heap" where
  "mockImplementationOnce h f fn =
     updateMock h f (\<lambda>ms. ms\<lparr>isReturnValueLastSet := False,
                              specificMockImpls := specificMockImpls ms @ [fn]\<rparr>)"

definition mockImplementation :: "heap \<Rightarrow> nat \<Rightarrow> val \<Rightarrow> heap" where
  "mockImplementation h f fn =
     updateMock h f (\<lambda>ms. ms\<lparr>isReturnValueLastSet := False, mockImpl := fn\<rparr>)"

text \<open>\<^verbatim>\<open>Array.prototype.shift\<close>: the first element, or \<^verbatim>\<open>undefined\<close> of an empty array.\<close>

definition shift :: "val list \<Rightarrow> val \<times> val list" where
  "shift xs = (case xs of [] \<Rightarrow> (Undefined, []) | x # rest \<Rightarrow> (x, rest))"

text \<open>
  The \<^verbatim>\<open>prototypeSlots.forEach\<close> of a constructor-style call: every function-typed
  member of the template gets a fresh mock on the receiver, which remembers what the
  receiver had in that slot as \<^verbatim>\<open>_protoImpl\<close>.
\<close>

fun copySlots :: "heap \<Rightarrow> val \<Rightarrow> (string \<times> metadata) list \<Rightarrow> string list \<Rightarrow> unit res" where
  "copySlots h this prototypeMd [] = (Inr (), h)"
| "copySlots h this prototypeMd (slot # rest) =
     (case map_of prototypeMd slot of
        None \<Rightarrow> (Inl TypeError, h)
      | Some slotMetadata \<Rightarrow>
          (if md_type slotMetadata = Some ''function'' then
             (let protoImpl = lookupProp h this slot in
              case generateFromMetadata slotMetadata h of
                (Inl e, h1) \<Rightarrow> (Inl e, h1)
              | (Inr m, h1) \<Rightarrow>
                  (case setProp h1 this slot m of
                     Inl e \<Rightarrow> (Inl e, h1)
                   | Inr h2 \<Rightarrow>
                       (case setProp h2 (lookupProp h2 this slot) ''_protoImpl'' protoImpl of
                          Inl e \<Rightarrow> (Inl e, h2)
                        | Inr h3 \<Rightarrow> copySlots h3 this prototypeMd rest)))
           else copySlots h this prototypeMd rest))"

text \<open>
  \<^verbatim>\<open>mockConstructor\<close> of the callable at address \<open>f\<close>, with receiver \<open>this\<close> and the
  argument list \<open>args\<close>. \<open>apply\<close> is \<^verbatim>\<open>fn.apply(this, arguments)\<close> for the function
  value it is given: the function may be any callable, also another mock, so that its
  run is a parameter here and is tied to \<open>applyFn\<close> below. It returns \<open>None\<close> when the
  call does not return.
\<close>

definition mockConstructor ::
    "(heap \<Rightarrow> val \<Rightarrow> val \<Rightarrow> val list \<Rightarrow> val res option)
       \<Rightarrow> heap \<Rightarrow> nat \<Rightarrow> val \<Rightarrow> val list \<Rightarrow> val res option" where
  "mockConstructor apply h f this args =
     (let h1 = updateMock h f (\<lambda>ms. ms\<lparr>instances := instances ms @ [this]\<rparr>);
          h2 = updateMock h1 f (\<lambda>ms. ms\<lparr>calls := calls ms @ [args]\<rparr>)
      in case closureOf h2 f of
           None \<Rightarrow> Some (Inl TypeError, h2)
         | Some ms \<Rightarrow>
             (case instanceOf h2 this (Ref f) of
                Inl e \<Rightarrow> Some (Inl e, h2)
              | Inr True \<Rightarrow>
                  (case copySlots h2 this (prototype ms) (prototypeSlots ms) of
                     (Inl e, h3) \<Rightarrow> Some (Inl e, h3)
                   | (Inr u, h3) \<Rightarrow>
                       (if truthy (mockImpl ms) then apply h3 (mockImpl ms) this args
                        else Some (Inr (mockImpl ms), h3)))
              | Inr False \<Rightarrow>
                  (let (returnValue, h3) =
                         (if isReturnValueLastSet ms then
                            (let (v, rest) = shift (specificReturnValues ms)
                             in (if v = Undefined then defaultReturnValue ms else v,
                                 updateMock h2 f (\<lambda>m. m\<lparr>specificReturnValues := rest\<rparr>)))
                          else (Undefined, h2))
                   in if returnValue = Undefined then
                        (let (fn, rest) = shift (specificMockImpls ms);
                             h4 = updateMock h3 f (\<lambda>m. m\<lparr>specificMockImpls := rest\<rparr>);
                             specificMockImpl = (if fn = Undefined then mockImpl ms else fn);
                             protoImpl = lookupProp h4 (Ref f) ''_protoImpl''
                         in if truthy specificMockImpl then apply h4 specificMockImpl this args
                            else if truthy protoImpl then apply h4 protoImpl this args
                            else Some (Inr returnValue, h4))
                      else Some (Inr returnValue, h3))))"

text \<open>
  Calling a function value. A function that is not a mock is code from outside this
  module: \<open>fenv\<close> gives its result from its address, the receiver and the arguments,
  and it is taken to leave the heap as it is. A mock runs \<open>mockConstructor\<close>, which
  may call a function again; the first argument bounds the depth of these calls.
\<close>

fun applyFn ::
    "nat \<Rightarrow> (nat \<Rightarrow> val \<Rightarrow> val list \<Rightarrow> val) \<Rightarrow> heap \<Rightarrow> val \<Rightarrow> val \<Rightarrow> val list \<Rightarrow> val res option" where
  "applyFn 0 fenv h fn this args = None"
| "applyFn (Suc n) fenv h fn this args =
     (case fn of
        Ref a \<Rightarrow>
          (case lookupObj h a of
             None \<Rightarrow> Some (Inl TypeError, h)
           | Some ob \<Rightarrow>
               (if cls ob = ''Function'' then
                  (case closure ob of
                     None \<Rightarrow> Some (Inr (fenv a this args), h)
                   | Some ms \<Rightarrow> mockConstructor (applyFn n fenv) h a this args)
                else Some (Inl TypeError, h)))
      | _ \<Rightarrow> Some (Inl TypeError, h))"

definition isMockFunction :: "heap \<Rightarrow> val \<Rightarrow> error + bool" where
  "isMockFunction h fn =
     (case getProp h fn ''_isMockFunction'' of
        Inl e \<Rightarrow> Inl e
      | Inr v \<Rightarrow> Inr (truthy v))"

section \<open>Member enumerator and metadata extractor\<close>

definition isReadonlyProp :: "heap \<Rightarrow> val \<Rightarrow> string \<Rightarrow> bool" where
  "isReadonlyProp h object prop =
     ((prop \<in> set [''arguments'', ''caller'', ''callee'', ''name'', ''length'']
         \<and> isA ''Function'' h object)
      \<or> (prop \<in> set [''source'', ''global'', ''ignoreCase'', ''multiline'']
         \<and> isA ''RegExp'' h object))"

definition getPrototypeOf :: "heap \<Rightarrow> val \<Rightarrow> val" where
  "getPrototypeOf h v =
     (case v of
        Ref a \<Rightarrow> (case lookupObj h a of None \<Rightarrow> Null | Some ob \<Rightarrow> proto ob)
      | _ \<Rightarrow> Null)"

definition ownProperties :: "heap \<Rightarrow> val \<Rightarrow> (string \<times> property) list" where
  "ownProperties h v =
     (case v of
        Ref a \<Rightarrow> (case lookupObj h a of None \<Rightarrow> [] | Some ob \<Rightarrow> props ob)
      | _ \<Rightarrow> [])"

text \<open>The \<^verbatim>\<open>for\<close> loop over \<^verbatim>\<open>ownNames\<close>; \<^verbatim>\<open>slots[prop] = true\<close> keeps a key once.\<close>

fun addOwnSlots :: "heap \<Rightarrow> val \<Rightarrow> (string \<times> property) list \<Rightarrow> string list \<Rightarrow> string list" where
  "addOwnSlots h object [] slots = slots"
| "addOwnSlots h object ((prop, propDesc) # rest) slots =
     addOwnSlots h object rest
       (if \<not> isReadonlyProp h object prop
           \<and> (\<not> isGetter propDesc \<or> truthy (lookupProp h object ''__esModule''))
        then (if prop \<in> set slots then slots else slots @ [prop])
        else slots)"

text \<open>
  The \<^verbatim>\<open>do ... while\<close> of \<^verbatim>\<open>getSlots\<close>, bounded like the walk of \<open>lookupFrom\<close>.
\<close>

fun getSlotsLoop :: "nat \<Rightarrow> heap \<Rightarrow> val \<Rightarrow> string list \<Rightarrow> string list" where
  "getSlotsLoop 0 h object slots = slots"
| "getSlotsLoop (Suc n) h object slots =
     (if object = functionPrototype then slots
      else
        (let slots1 = addOwnSlots h object (ownProperties h object) slots;
             object1 = getPrototypeOf h object
         in if truthy object1 \<and> getPrototypeOf h object1 \<noteq> Null
            then getSlotsLoop n h object1 slots1
            else slots1))"

text \<open>
  \<^verbatim>\<open>Object.keys(slots)\<close> lists the names that are array indices first, in ascending
  numeric order, and then the other names in the order in which they were added. An array
  index is the decimal numeral, without leading zeros, of a number below \<open>2\<^sup>3\<^sup>2 - 1\<close>.
\<close>

definition digitValue :: "char \<Rightarrow> int option" where
  "digitValue c = map_of (zip ''0123456789'' [0, 1, 2, 3, 4, 5, 6, 7, 8, 9]) c"

fun numeralValue :: "string \<Rightarrow> int \<Rightarrow> int option" where
  "numeralValue [] acc = Some acc"
| "numeralValue (c # cs) acc =
     (case digitValue c of None \<Rightarrow> None | Some d \<Rightarrow> numeralValue cs (10 * acc + d))"

definition arrayIndex :: "string \<Rightarrow> int option" where
  "arrayIndex s =
     (if s = [] \<or> (hd s = CHR ''0'' \<and> s \<noteq> ''0'') then None
      else (case numeralValue s 0 of
              None \<Rightarrow> None
            | Some k \<Rightarrow> if k < 4294967295 then Some k else None))"

definition objectKeys :: "string list \<Rightarrow> string list" where
  "objectKeys names =
     sort_key (\<lambda>s. the (arrayIndex s)) (filter (\<lambda>s. arrayIndex s \<noteq> None) names)
       @ filter (\<lambda>s. arrayIndex s = None) names"

definition getSlots :: "heap \<Rightarrow> val \<Rightarrow> string list" where
  "getSlots h object =
     (if \<not> truthy object then [] else objectKeys (getSlotsLoop (length h) h object []))"

text \<open>
  \<^verbatim>\<open>a != b\<close> is \<open>\<not> looseEq a b\<close>. The right-hand side in \<^verbatim>\<open>getMetadata\<close> is a member
  of \<^verbatim>\<open>Object.prototype\<close>, a function or \<^verbatim>\<open>undefined\<close>; the coercions between
  primitives of different types are not modelled.
\<close>

definition looseEq :: "val \<Rightarrow> val \<Rightarrow> bool" where
  "looseEq a b = (a = b \<or> ((a = Undefined \<or> a = Null) \<and> (b = Undefined \<or> b = Null)))"

text \<open>
  \<^verbatim>\<open>component.hasOwnProperty(slot)\<close>. The member is whatever the component holds or
  inherits under that name. \<^verbatim>\<open>Object.prototype.hasOwnProperty\<close> itself is the intrinsic
  function at address 4, and tests the own properties of its receiver; any other value
  is called like every function value: a value that is no function throws, a function
  from outside answers as \<open>fenv\<close> has it, and a mock runs \<^verbatim>\<open>mockConstructor\<close>, which
  records the call.
\<close>

definition objectHasOwnProperty :: val where
  "objectHasOwnProperty = Ref 4"

definition hasOwnProperty :: "heap \<Rightarrow> val \<Rightarrow> string \<Rightarrow> bool" where
  "hasOwnProperty h v slot = (map_of (ownProperties h v) slot \<noteq> None)"

definition callHasOwnProperty ::
    "nat \<Rightarrow> (nat \<Rightarrow> val \<Rightarrow> val list \<Rightarrow> val) \<Rightarrow> heap \<Rightarrow> val \<Rightarrow> string \<Rightarrow> val res option" where
  "callHasOwnProperty n fenv h component slot =
     (let fn = lookupProp h component ''hasOwnProperty''
      in if fn = objectHasOwnProperty then Some (Inr (Bool (hasOwnProperty h component slot)), h)
         else applyFn (Suc n) fenv h fn component [Str slot])"

text \<open>
  The identity table \<^verbatim>\<open>refs\<close> of the extractor is a \<^verbatim>\<open>Map\<close> from components to
  their ids: its entries in insertion order. \<^verbatim>\<open>refs.size\<close> is the number of entries.
\<close>

type_synonym idTable = "(val \<times> nat) list"

text \<open>
  The condition under which the \<^verbatim>\<open>forEach\<close> of \<^verbatim>\<open>getMetadata\<close> visits a slot:
  \<^verbatim>\<open>(!component.hasOwnProperty && component[slot] !== undefined) ||\<close>
  \<^verbatim>\<open>(component.hasOwnProperty && component.hasOwnProperty(slot)) ||\<close>
  \<^verbatim>\<open>(type === 'object' && component[slot] != Object.prototype[slot])\<close>.
  The call in it may throw, and may change the heap when the member is a mock.
\<close>

definition differsFromObjectPrototype :: "heap \<Rightarrow> val \<Rightarrow> string \<Rightarrow> string \<Rightarrow> bool" where
  "differsFromObjectPrototype h component ty slot =
     (ty = ''object'' \<and> \<not> looseEq (lookupProp h component slot) (lookupProp h objectPrototype slot))"

definition slotIncluded ::
    "nat \<Rightarrow> (nat \<Rightarrow> val \<Rightarrow> val list \<Rightarrow> val) \<Rightarrow> heap \<Rightarrow> val \<Rightarrow> string \<Rightarrow> string \<Rightarrow> bool res option" where
  "slotIncluded n fenv h component ty slot =
     (if \<not> truthy (lookupProp h component ''hasOwnProperty'') then
        Some (Inr (lookupProp h component slot \<noteq> Undefined
                   \<or> differsFromObjectPrototype h component ty slot), h)
      else
        (case callHasOwnProperty n fenv h component slot of
           None \<Rightarrow> None
         | Some (Inl e, h1) \<Rightarrow> Some (Inl e, h1)
         | Some (Inr v, h1) \<Rightarrow>
             Some (Inr (truthy v \<or> differsFromObjectPrototype h1 component ty slot), h1)))"

text \<open>The nodes that \<^verbatim>\<open>getMetadata\<close> builds: \<^verbatim>\<open>{ref}\<close>, a leaf and a full node.\<close>

definition backReference :: "nat \<Rightarrow> metadata" where
  "backReference r = Metadata (Some r) [] Undefined Undefined None None Undefined"

definition leafNode :: "string \<Rightarrow> val \<Rightarrow> metadata" where
  "leafNode ty component = Metadata None [] Undefined Undefined None (Some ty) component"

definition fullNode :: "string \<Rightarrow> val \<Rightarrow> val \<Rightarrow> nat \<Rightarrow> (string \<times> metadata) list \<Rightarrow> metadata" where
  "fullNode ty mi nm refID members = Metadata None members mi nm (Some refID) (Some ty) Undefined"

definition isLeafType :: "string \<Rightarrow> bool" where
  "isLeafType ty = (ty = ''constant'' \<or> ty = ''collection'' \<or> ty = ''undefined'' \<or> ty = ''null'')"

text \<open>
  \<^verbatim>\<open>metadata.mockImpl = component.getMockImplementation()\<close> for a function that
  carries the marker. \<^verbatim>\<open>makeComponent\<close> gives every mock the method as an own member;
  the heap objects of the model leave the methods of a mock out (they are the operations
  of the runtime section), so a member of that name that an object does hold was
  assigned by code from outside. \<open>mockImplementationMember\<close> walks the chain of
  prototypes to the first object that holds such a member (\<open>Inr\<close> its value) or is a
  mock (\<open>Inl\<close> its address, for the method itself). The method returns \<^verbatim>\<open>mockImpl\<close>; any
  other value is called like every function value: a value that is no function throws,
  as does a missing member, a function from outside answers as \<open>fenv\<close> has it, and a
  mock runs \<^verbatim>\<open>mockConstructor\<close>, which records the call.
\<close>

fun mockImplementationMember :: "nat \<Rightarrow> heap \<Rightarrow> val \<Rightarrow> (nat + val) option" where
  "mockImplementationMember 0 h v = None"
| "mockImplementationMember (Suc n) h v =
     (case v of
        Ref a \<Rightarrow>
          (case lookupObj h a of
             None \<Rightarrow> None
           | Some ob \<Rightarrow>
               (case map_of (props ob) ''getMockImplementation'' of
                  Some p \<Rightarrow> Some (Inr (propValue p))
                | None \<Rightarrow>
                    if closure ob \<noteq> None then Some (Inl a)
                    else mockImplementationMember n h (proto ob) ))
      | _ \<Rightarrow> None)"

definition callGetMockImplementation ::
    "nat \<Rightarrow> (nat \<Rightarrow> val \<Rightarrow> val list \<Rightarrow> val) \<Rightarrow> heap \<Rightarrow> val \<Rightarrow> val res option" where
  "callGetMockImplementation n fenv h component =
     (case mockImplementationMember (length h) h component of
        None \<Rightarrow> Some (Inl TypeError, h)
      | Some (Inl a) \<Rightarrow> Some (Inr (getMockImplementation h a), h)
      | Some (Inr fn) \<Rightarrow> applyFn (Suc n) fenv h fn component [])"

definition capturedImpl ::
    "nat \<Rightarrow> (nat \<Rightarrow> val \<Rightarrow> val list \<Rightarrow> val) \<Rightarrow> heap \<Rightarrow> val \<Rightarrow> string \<Rightarrow> val res option" where
  "capturedImpl n fenv h component ty =
     (if ty = ''function'' \<and> truthy (lookupProp h component ''_isMockFunction'') then
        callGetMockImplementation n fenv h component
      else Some (Inr Undefined, h))"

text \<open>
  \<^verbatim>\<open>if (prototype && prototype.members) members.prototype = prototype\<close>: a
  \<^verbatim>\<open>members\<close> that was set is never empty.
\<close>

definition addPrototype :: "(string \<times> metadata) list \<Rightarrow> metadata option \<Rightarrow> (string \<times> metadata) list" where
  "addPrototype members pm =
     (case pm of
        None \<Rightarrow> members
      | Some p \<Rightarrow> if md_members p \<noteq> [] then AList.update ''prototype'' p members else members)"

definition slotSkipped :: "heap \<Rightarrow> val \<Rightarrow> string \<Rightarrow> string \<Rightarrow> bool" where
  "slotSkipped h component ty slot =
     (ty = ''function'' \<and> truthy (lookupProp h component ''_isMockFunction'') \<and> take 4 slot = ''mock'')"

text \<open>
  \<^verbatim>\<open>getMetadata\<close>, and the \<^verbatim>\<open>forEach\<close> over the slots of a component. The extractor
  calls itself on the members of the component, which may lead back to the component;
  the first argument bounds the depth of these calls, and \<open>None\<close> says that it did not
  suffice. The result carries the identity table and the heap that the run leaves: the
  table is shared by all the calls, and the heap changes when a \<^verbatim>\<open>hasOwnProperty\<close> or
  a \<^verbatim>\<open>getMockImplementation\<close> that is a mock is called.
\<close>

fun getMetadata ::
    "nat \<Rightarrow> (nat \<Rightarrow> val \<Rightarrow> val list \<Rightarrow> val) \<Rightarrow> heap \<Rightarrow> val \<Rightarrow> idTable
       \<Rightarrow> ((error + metadata option) \<times> idTable \<times> heap) option"
  and getMetadataSlots ::
    "nat \<Rightarrow> (nat \<Rightarrow> val \<Rightarrow> val list \<Rightarrow> val) \<Rightarrow> heap \<Rightarrow> val \<Rightarrow> string \<Rightarrow> string list
       \<Rightarrow> (string \<times> metadata) list \<Rightarrow> idTable
       \<Rightarrow> ((error + (string \<times> metadata) list) \<times> idTable \<times> heap) option"
  where
  "getMetadata 0 fenv h component refs = None"
| "getMetadata (Suc n) fenv h component refs =
     (case map_of refs component of
        Some r \<Rightarrow> Some (Inr (Some (backReference r)), refs, h)
      | None \<Rightarrow>
          (case getType h component of
             None \<Rightarrow> Some (Inr None, refs, h)
           | Some ty \<Rightarrow>
               (if isLeafType ty then Some (Inr (Some (leafNode ty component)), refs, h)
                else
                  (case capturedImpl n fenv h component ty of
                     None \<Rightarrow> None
                   | Some (Inl e, hc) \<Rightarrow> Some (Inl e, refs, hc)
                   | Some (Inr mi, hc) \<Rightarrow>
                       (let nm = (if ty = ''function'' then lookupProp h component ''name'' else Undefined);
                            refID = length refs;
                            refs1 = AList.update component refID refs
                        in if ty = ''array'' then Some (Inr (Some (fullNode ty mi nm refID [])), refs1, hc)
                           else
                             (case getMetadataSlots n fenv hc component ty (getSlots hc component) [] refs1 of
                                None \<Rightarrow> None
                              | Some (Inl e, refs2, h2) \<Rightarrow> Some (Inl e, refs2, h2)
                              | Some (Inr members, refs2, h2) \<Rightarrow>
                                  (if ty = ''function'' \<and> truthy (lookupProp h2 component ''prototype'') then
                                     (case getMetadata n fenv h2 (lookupProp h2 component ''prototype'') refs2 of
                                        None \<Rightarrow> None
                                      | Some (Inl e, refs3, h3) \<Rightarrow> Some (Inl e, refs3, h3)
                                      | Some (Inr pm, refs3, h3) \<Rightarrow>
                                          Some (Inr (Some (fullNode ty mi nm refID (addPrototype members pm))),
                                                refs3, h3))
                                   else Some (Inr (Some (fullNode ty mi nm refID members)), refs2, h2))))))))"
| "getMetadataSlots n fenv h component ty [] members refs = Some (Inr members, refs, h)"
| "getMetadataSlots n fenv h component ty (slot # rest) members refs =
     (if slotSkipped h component ty slot then getMetadataSlots n fenv h component ty rest members refs
      else
        (case slotIncluded n fenv h component ty slot of
           None \<Rightarrow> None
         | Some (Inl e, h1) \<Rightarrow> Some (Inl e, refs, h1)
         | Some (Inr included, h1) \<Rightarrow>
             (if included then
                (case getMetadata n fenv h1 (lookupProp h1 component slot) refs of
                   None \<Rightarrow> None
                 | Some (Inl e, refs1, h2) \<Rightarrow> Some (Inl e, refs1, h2)
                 | Some (Inr slotMetadata, refs1, h2) \<Rightarrow>
                     getMetadataSlots n fenv h2 component ty rest
                       (case slotMetadata of
                          None \<Rightarrow> members
                        | Some m \<Rightarrow> AList.update slot m members)
                       refs1)
              else getMetadataSlots n fenv h1 component ty rest members refs)))"

section \<open>Notions used to state the properties\<close>

text \<open>
  \<^verbatim>\<open>getMockFunction\<close> of the module's exports, the intrinsic objects that the examples
  start from (with two of the functions of \<^verbatim>\<open>Object.prototype\<close>), the heap holding
  one bare mock at address 6, and a behaviour for the functions that are no mocks.
\<close>

definition getMockFunction :: "heap \<Rightarrow> val res" where
  "getMockFunction h =
     makeComponent (Metadata None [] Undefined Undefined None (Some ''function'') Undefined) h"

definition intrinsics :: heap where
  "intrinsics =
     [\<lparr>cls = ''Object'', proto = Null,
        props = [(''hasOwnProperty'', Data (Ref 4)), (''toString'', Data (Ref 5))], closure = None\<rparr>,
      \<lparr>cls = ''Function'', proto = Ref 0, props = [], closure = None\<rparr>,
      \<lparr>cls = ''Array'', proto = Ref 0, props = [], closure = None\<rparr>,
      \<lparr>cls = ''Object'', proto = Ref 0, props = [], closure = None\<rparr>,
      \<lparr>cls = ''Function'', proto = Ref 1, props = [], closure = None\<rparr>,
      \<lparr>cls = ''Function'', proto = Ref 1, props = [], closure = None\<rparr>]"

definition mockHeap :: heap where
  "mockHeap = snd (getMockFunction intrinsics)"

definition answer :: "nat \<Rightarrow> val \<Rightarrow> val list \<Rightarrow> val" where
  "answer a this args = Str ''impl''"

text \<open>Two heaps have the same shape when they differ in the mock records only.\<close>

definition sameShape :: "heap \<Rightarrow> heap \<Rightarrow> bool" where
  "sameShape h h' =
     (length h = length h' \<and>
      (\<forall>a < length h. cls (h' ! a) = cls (h ! a) \<and> proto (h' ! a) = proto (h ! a)
          \<and> props (h' ! a) = props (h ! a)))"

text \<open>
  The two \<^verbatim>\<open>push\<close> calls that open \<^verbatim>\<open>mockConstructor\<close>, and what its plain path
  resolves from a mock record: \<open>returnValueFamily\<close> is \<^verbatim>\<open>returnValue\<close> after the
  \<^verbatim>\<open>if (isReturnValueLastSet)\<close> block has run, \<open>implementationFamily\<close> is
  \<^verbatim>\<open>specificMockImpl\<close> after its \<^verbatim>\<open>shift\<close> and fallback, and \<open>useImplementation\<close>
  is the rest of the function from there, for \<^verbatim>\<open>returnValue\<close> undefined.
\<close>

definition recordCall :: "heap \<Rightarrow> nat \<Rightarrow> val \<Rightarrow> val list \<Rightarrow> heap" where
  "recordCall h f this args =
     updateMock (updateMock h f (\<lambda>ms. ms\<lparr>instances := instances ms @ [this]\<rparr>)) f
       (\<lambda>ms. ms\<lparr>calls := calls ms @ [args]\<rparr>)"

definition returnValueFamily :: "mockRecord \<Rightarrow> val" where
  "returnValueFamily ms =
     (case specificReturnValues ms of
        [] \<Rightarrow> defaultReturnValue ms
      | v # rest \<Rightarrow> if v = Undefined then defaultReturnValue ms else v)"

definition implementationFamily :: "mockRecord \<Rightarrow> val" where
  "implementationFamily ms =
     (case specificMockImpls ms of
        [] \<Rightarrow> mockImpl ms
      | fn # rest \<Rightarrow> if fn = Undefined then mockImpl ms else fn)"

definition useImplementation ::
    "(heap \<Rightarrow> val \<Rightarrow> val \<Rightarrow> val list \<Rightarrow> val res option)
       \<Rightarrow> heap \<Rightarrow> nat \<Rightarrow> mockRecord \<Rightarrow> val \<Rightarrow> val list \<Rightarrow> val res option" where
  "useImplementation ap h f ms this args =
     (let h' = updateMock h f (\<lambda>m. m\<lparr>specificMockImpls := tl (specificMockImpls ms)\<rparr>)
      in if truthy (implementationFamily ms) then ap h' (implementationFamily ms) this args
         else if truthy (lookupProp h (Ref f) ''_protoImpl'')
              then ap h' (lookupProp h (Ref f) ''_protoImpl'') this args
         else Some (Inr Undefined, h'))"

text \<open>
  What generation and the writes of members may change: a heap grows into another when
  every object of the first is still there with its class, its prototype and its mock
  record (its members may have changed).
\<close>

definition grows :: "heap \<Rightarrow> heap \<Rightarrow> bool" where
  "grows h h' =
     (length h \<le> length h' \<and>
      (\<forall>a < length h. cls (h' ! a) = cls (h ! a) \<and> proto (h' ! a) = proto (h ! a)
          \<and> closure (h' ! a) = closure (h ! a)))"

text \<open>\<^verbatim>\<open>f.mock\<close>, the pair \<^verbatim>\<open>{calls, instances}\<close> of the callable at \<open>f\<close>.\<close>

definition mockLedger :: "heap \<Rightarrow> nat \<Rightarrow> (val list list \<times> val list) option" where
  "mockLedger h f = map_option (\<lambda>ms. (calls ms, instances ms)) (closureOf h f)"

text \<open>
  A sequence of calls of the callable at \<open>f\<close>, each with its receiver and arguments; a
  call that throws is a call like the others, and the sequence goes on after it.
\<close>

fun invokeAll ::
    "(heap \<Rightarrow> val \<Rightarrow> val \<Rightarrow> val list \<Rightarrow> val res option)
       \<Rightarrow> heap \<Rightarrow> nat \<Rightarrow> (val \<times> val list) list \<Rightarrow> heap option" where
  "invokeAll ap h f [] = Some h"
| "invokeAll ap h f ((this, args) # rest) =
     (case mockConstructor ap h f this args of
        None \<Rightarrow> None
      | Some (r, h') \<Rightarrow> invokeAll ap h' f rest)"

text \<open>
  Calling a function from outside the module when no function is a mock: the result is
  what \<open>fenv\<close> gives, and the heap is left as it is.
\<close>

definition callOutside ::
    "(nat \<Rightarrow> val \<Rightarrow> val list \<Rightarrow> val) \<Rightarrow> heap \<Rightarrow> val \<Rightarrow> val \<Rightarrow> val list \<Rightarrow> val res option" where
  "callOutside fenv h fn this args =
     (case fn of
        Ref a \<Rightarrow> Some (Inr (fenv a this args), h)
      | _ \<Rightarrow> Some (Inl TypeError, h))"

text \<open>
  Two heaps are the same but for the ledgers when emptying \<^verbatim>\<open>calls\<close> and
  \<^verbatim>\<open>instances\<close> in every mock record makes them equal, and two calls have the same
  outcome when both fail to return, or both return the same result or error and leave
  heaps that are the same but for the ledgers.
\<close>

definition eraseLedger :: "mockRecord \<Rightarrow> mockRecord" where
  "eraseLedger ms = ms\<lparr>calls := [], instances := []\<rparr>"

definition eraseObj :: "obj \<Rightarrow> obj" where
  "eraseObj ob = ob\<lparr>closure := map_option eraseLedger (closure ob)\<rparr>"

definition sameButLedgers :: "heap \<Rightarrow> heap \<Rightarrow> bool" where
  "sameButLedgers h1 h2 = (map eraseObj h1 = map eraseObj h2)"

definition sameOutcome :: "val res option \<Rightarrow> val res option \<Rightarrow> bool" where
  "sameOutcome x y =
     (case (x, y) of
        (None, None) \<Rightarrow> True
      | (Some (r1, h1), Some (r2, h2)) \<Rightarrow> r1 = r2 \<and> sameButLedgers h1 h2
      | _ \<Rightarrow> False)"


fun regIDs :: "metadata \<Rightarrow> nat list" where
  "regIDs (Metadata rf members mi nm refID ty vl) =
     (case refID of None \<Rightarrow> [] | Some r \<Rightarrow> [r])
       @ concat (map (regIDs \<circ> snd) (filter (\<lambda>sm. md_ref (snd sm) = None) members))"






text \<open>
  The extractor leaves the heap as it is unless some \<^verbatim>\<open>hasOwnProperty\<close> or
  \<^verbatim>\<open>getMockImplementation\<close> that it calls is a mock. \<open>plainTests\<close> says that no object of
  the heap holds or inherits a mock as a member of one of these names. On such a heap
  the calls are \<open>ownTest\<close> and \<open>implTest\<close>, the condition of the \<^verbatim>\<open>forEach\<close> is \<open>slotTest\<close>,
  and \<^verbatim>\<open>getMetadata\<close> and its loop are \<open>extractNode\<close> and \<open>extractSlots\<close>, which return the
  node and the table only.
\<close>

definition plainTests :: "heap \<Rightarrow> bool" where
  "plainTests h =
     list_all (\<lambda>a. (case lookupProp h (Ref a) ''hasOwnProperty'' of
                       Ref b \<Rightarrow> Ref b = objectHasOwnProperty \<or> closureOf h b = None
                     | _ \<Rightarrow> True)
                  \<and> (case mockImplementationMember (length h) h (Ref a) of
                       Some (Inr (Ref b)) \<Rightarrow> closureOf h b = None
                     | _ \<Rightarrow> True))
       [0..<length h]"

definition implTest :: "(nat \<Rightarrow> val \<Rightarrow> val list \<Rightarrow> val) \<Rightarrow> heap \<Rightarrow> val \<Rightarrow> string \<Rightarrow> error + val" where
  "implTest fenv h component ty =
     (if ty = ''function'' \<and> truthy (lookupProp h component ''_isMockFunction'') then
        (case mockImplementationMember (length h) h component of
           None \<Rightarrow> Inl TypeError
         | Some (Inl a) \<Rightarrow> Inr (getMockImplementation h a)
         | Some (Inr fn) \<Rightarrow>
             (case fn of
                Ref a \<Rightarrow>
                  (case lookupObj h a of
                     None \<Rightarrow> Inl TypeError
                   | Some ob \<Rightarrow>
                       if cls ob = ''Function'' then Inr (fenv a component [])
                       else Inl TypeError)
              | _ \<Rightarrow> Inl TypeError))
      else Inr Undefined)"

definition ownTest :: "(nat \<Rightarrow> val \<Rightarrow> val list \<Rightarrow> val) \<Rightarrow> heap \<Rightarrow> val \<Rightarrow> string \<Rightarrow> error + val" where
  "ownTest fenv h component slot =
     (let fn = lookupProp h component ''hasOwnProperty''
      in if fn = objectHasOwnProperty then Inr (Bool (hasOwnProperty h component slot))
         else (case fn of
                 Ref a \<Rightarrow>
                   (case lookupObj h a of
                      None \<Rightarrow> Inl TypeError
                    | Some ob \<Rightarrow>
                        if cls ob = ''Function'' then Inr (fenv a component [Str slot])
                        else Inl TypeError)
               | _ \<Rightarrow> Inl TypeError))"

definition slotTest ::
    "(nat \<Rightarrow> val \<Rightarrow> val list \<Rightarrow> val) \<Rightarrow> heap \<Rightarrow> val \<Rightarrow> string \<Rightarrow> string \<Rightarrow> error + bool" where
  "slotTest fenv h component ty slot =
     (if \<not> truthy (lookupProp h component ''hasOwnProperty'') then
        Inr (lookupProp h component slot \<noteq> Undefined \<or> differsFromObjectPrototype h component ty slot)
      else
        (case ownTest fenv h component slot of
           Inl e \<Rightarrow> Inl e
         | Inr v \<Rightarrow> Inr (truthy v \<or> differsFromObjectPrototype h component ty slot)))"

fun extractNode ::
    "nat \<Rightarrow> (nat \<Rightarrow> val \<Rightarrow> val list \<Rightarrow> val) \<Rightarrow> heap \<Rightarrow> val \<Rightarrow> idTable
       \<Rightarrow> ((error + metadata option) \<times> idTable) option"
  and extractSlots ::
    "nat \<Rightarrow> (nat \<Rightarrow> val \<Rightarrow> val list \<Rightarrow> val) \<Rightarrow> heap \<Rightarrow> val \<Rightarrow> string \<Rightarrow> string list
       \<Rightarrow> (string \<times> metadata) list \<Rightarrow> idTable
       \<Rightarrow> ((error + (string \<times> metadata) list) \<times> idTable) option"
  where
  "extractNode 0 fenv h component refs = None"
| "extractNode (Suc n) fenv h component refs =
     (case map_of refs component of
        Some r \<Rightarrow> Some (Inr (Some (backReference r)), refs)
      | None \<Rightarrow>
          (case getType h component of
             None \<Rightarrow> Some (Inr None, refs)
           | Some ty \<Rightarrow>
               (if isLeafType ty then Some (Inr (Some (leafNode ty component)), refs)
                else
                  (case implTest fenv h component ty of
                     Inl e \<Rightarrow> Some (Inl e, refs)
                   | Inr mi \<Rightarrow>
                       (let nm = (if ty = ''function'' then lookupProp h component ''name'' else Undefined);
                            refID = length refs;
                            refs1 = AList.update component refID refs
                        in if ty = ''array'' then Some (Inr (Some (fullNode ty mi nm refID [])), refs1)
                           else
                             (case extractSlots n fenv h component ty (getSlots h component) [] refs1 of
                                None \<Rightarrow> None
                              | Some (Inl e, refs2) \<Rightarrow> Some (Inl e, refs2)
                              | Some (Inr members, refs2) \<Rightarrow>
                                  (if ty = ''function'' \<and> truthy (lookupProp h component ''prototype'') then
                                     (case extractNode n fenv h (lookupProp h component ''prototype'') refs2 of
                                        None \<Rightarrow> None
                                      | Some (Inl e, refs3) \<Rightarrow> Some (Inl e, refs3)
                                      | Some (Inr pm, refs3) \<Rightarrow>
                                          Some (Inr (Some (fullNode ty mi nm refID (addPrototype members pm))),
                                                refs3))
                                   else Some (Inr (Some (fullNode ty mi nm refID members)), refs2))))))))"
| "extractSlots n fenv h component ty [] members refs = Some (Inr members, refs)"
| "extractSlots n fenv h component ty (slot # rest) members refs =
     (if slotSkipped h component ty slot then extractSlots n fenv h component ty rest members refs
      else
        (case slotTest fenv h component ty slot of
           Inl e \<Rightarrow> Some (Inl e, refs)
         | Inr included \<Rightarrow>
             (if included then
                (case extractNode n fenv h (lookupProp h component slot) refs of
                   None \<Rightarrow> None
                 | Some (Inl e, refs1) \<Rightarrow> Some (Inl e, refs1)
                 | Some (Inr slotMetadata, refs1) \<Rightarrow>
                     extractSlots n fenv h component ty rest
                       (case slotMetadata of
                          None \<Rightarrow> members
                        | Some m \<Rightarrow> AList.update slot m members)
                       refs1)
              else extractSlots n fenv h component ty rest members refs)))"

text \<open>
  A value is registered in the identity table when its type is one of \<^verbatim>\<open>function\<close>,
  \<^verbatim>\<open>array\<close>, \<^verbatim>\<open>object\<close> and \<^verbatim>\<open>regexp\<close>: for the other types \<^verbatim>\<open>getMetadata\<close> returns
  before \<^verbatim>\<open>refs.set\<close>. A table built by \<^verbatim>\<open>refs.set(component, refs.size)\<close> alone has
  distinct keys, numbered from 0 in the order of their registration.
\<close>

definition registrable :: "heap \<Rightarrow> val \<Rightarrow> bool" where
  "registrable h v = (case getType h v of None \<Rightarrow> False | Some ty \<Rightarrow> \<not> isLeafType ty)"

definition wfTable :: "heap \<Rightarrow> idTable \<Rightarrow> bool" where
  "wfTable h refs =
     (distinct (map fst refs) \<and> map snd refs = [0..<length refs]
      \<and> (\<forall>e \<in> set refs. registrable h (fst e)))"

text \<open>
  A metadata node describes the value \<open>c\<close> under the table \<open>refs\<close>: a back-reference
  carries the id of \<open>c\<close>; a node with a \<^verbatim>\<open>refID\<close> carries the id of \<open>c\<close> and each of its
  members describes the value of that member of \<open>c\<close>; a node with neither holds \<open>c\<close> itself
  as its \<^verbatim>\<open>value\<close>, under the type of \<open>c\<close>, which is one of \<^verbatim>\<open>constant\<close>, \<^verbatim>\<open>collection\<close>,
  \<^verbatim>\<open>undefined\<close> and \<^verbatim>\<open>null\<close>.
\<close>

fun describes :: "heap \<Rightarrow> idTable \<Rightarrow> val \<Rightarrow> metadata \<Rightarrow> bool" where
  "describes h refs c (Metadata rf members mi nm refID ty vl) =
     (case rf of
        Some r \<Rightarrow> map_of refs c = Some r
      | None \<Rightarrow>
          (case refID of
             Some r \<Rightarrow>
               map_of refs c = Some r
               \<and> (\<forall>sm \<in> set members. describes h refs (lookupProp h c (fst sm)) (snd sm))
           | None \<Rightarrow>
               vl = c \<and> (case ty of None \<Rightarrow> False | Some t \<Rightarrow> isLeafType t \<and> getType h c = Some t)))"

text \<open>
  The \<^verbatim>\<open>prototype\<close> of a function is usually one of its slots, and is then extracted by
  the \<^verbatim>\<open>forEach\<close> over the slots. Otherwise only the second block
  \<^verbatim>\<open>if (type === 'function' && component.prototype)\<close> extracts it, and that block keeps
  the node only \<^verbatim>\<open>if (prototype && prototype.members)\<close>.
\<close>

definition prototypeEnumerated :: "(nat \<Rightarrow> val \<Rightarrow> val list \<Rightarrow> val) \<Rightarrow> heap \<Rightarrow> val \<Rightarrow> bool" where
  "prototypeEnumerated fenv h c =
     (truthy (lookupProp h c ''prototype'') \<longrightarrow>
        ''prototype'' \<in> set (getSlots h c) \<and> \<not> slotSkipped h c ''function'' ''prototype''
        \<and> slotTest fenv h c ''function'' ''prototype'' = Inr True)"

definition prototypesEnumerated :: "(nat \<Rightarrow> val \<Rightarrow> val list \<Rightarrow> val) \<Rightarrow> heap \<Rightarrow> idTable \<Rightarrow> bool" where
  "prototypesEnumerated fenv h refs =
     (\<forall>e \<in> set refs. getType h (fst e) = Some ''function'' \<longrightarrow> prototypeEnumerated fenv h (fst e))"

text \<open>
  The \<^verbatim>\<open>refID\<close>s of the nodes below a list of members, in the order of the members; a
  value that needs no further visit (it is registered, or it never will be); and what
  one run of \<^verbatim>\<open>getMetadata\<close>, and of the \<^verbatim>\<open>forEach\<close> over the slots, establishes from a
  table \<open>refs\<close> to the table \<open>refs'\<close> it leaves.
\<close>

definition memberIDs :: "(string \<times> metadata) list \<Rightarrow> nat list" where
  "memberIDs members = concat (map (regIDs \<circ> snd) (filter (\<lambda>sm. md_ref (snd sm) = None) members))"

definition seen :: "heap \<Rightarrow> idTable \<Rightarrow> val \<Rightarrow> bool" where
  "seen h refs v = (map_of refs v \<noteq> None \<or> \<not> registrable h v)"

definition extractPost ::
    "(nat \<Rightarrow> val \<Rightarrow> val list \<Rightarrow> val) \<Rightarrow> heap \<Rightarrow> val \<Rightarrow> idTable \<Rightarrow> metadata option \<Rightarrow> idTable \<Rightarrow> bool" where
  "extractPost fenv h c refs r refs' =
     ((\<exists>new. refs' = refs @ new) \<and> wfTable h refs'
      \<and> (case r of
            None \<Rightarrow> refs' = refs \<and> getType h c = None
          | Some md \<Rightarrow>
              describes h refs' c md
              \<and> (md_ref md \<noteq> None \<longrightarrow> regIDs md = [])
              \<and> (prototypesEnumerated fenv h (drop (length refs) refs') \<longrightarrow>
                   regIDs md = [length refs..<length refs'])))"

definition slotsPost ::
    "(nat \<Rightarrow> val \<Rightarrow> val list \<Rightarrow> val) \<Rightarrow> heap \<Rightarrow> val \<Rightarrow> string \<Rightarrow> string list
       \<Rightarrow> (string \<times> metadata) list \<Rightarrow> idTable \<Rightarrow> (string \<times> metadata) list \<Rightarrow> idTable \<Rightarrow> bool" where
  "slotsPost fenv h c ty slots members refs members' refs' =
     ((\<exists>new. refs' = refs @ new) \<and> wfTable h refs'
      \<and> (\<forall>sm \<in> set members'. describes h refs' (lookupProp h c (fst sm)) (snd sm))
      \<and> (prototypesEnumerated fenv h (drop (length refs) refs') \<longrightarrow>
            memberIDs members' = memberIDs members @ [length refs..<length refs'])
      \<and> (\<forall>s \<in> set slots. \<not> slotSkipped h c ty s \<longrightarrow> slotTest fenv h c ty s = Inr True \<longrightarrow>
            seen h refs' (lookupProp h c s)))"

text \<open>
  The number of objects of the heap that are not yet registered: every run of
  \<^verbatim>\<open>getMetadata\<close> that goes on to the members of its component registers one more.
\<close>

definition unvisited :: "heap \<Rightarrow> idTable \<Rightarrow> nat" where
  "unvisited h refs = card {a. a < length h \<and> Ref a \<notin> fst ` set refs}"

text \<open>
  A component over the intrinsic objects: an object \<^verbatim>\<open>o\<close> with \<^verbatim>\<open>o.self = o\<close>, one
  \<^verbatim>\<open>Map\<close> as both \<^verbatim>\<open>o.m\<close> and \<^verbatim>\<open>o.n\<close>, a \<^verbatim>\<open>Date\<close> as \<^verbatim>\<open>o.d\<close>, the number \<^verbatim>\<open>o.k = 3\<close>, and
  one function \<^verbatim>\<open>f\<close> as both \<^verbatim>\<open>o.f\<close> and \<^verbatim>\<open>o.g\<close>, with \<^verbatim>\<open>f.prototype.constructor = f\<close>;
  then the metadata and the identity table that \<^verbatim>\<open>getMetadata(o)\<close> yields.
\<close>

definition componentHeap :: heap where
  "componentHeap = intrinsics @
     [\<lparr>cls = ''Object'', proto = Ref 0,
        props = [(''self'', Data (Ref 6)), (''m'', Data (Ref 7)), (''n'', Data (Ref 7)),
                 (''d'', Data (Ref 8)), (''k'', Data (Num 3)), (''f'', Data (Ref 9)),
                 (''g'', Data (Ref 9))],
        closure = None\<rparr>,
      \<lparr>cls = ''Map'', proto = Ref 0, props = [], closure = None\<rparr>,
      \<lparr>cls = ''Date'', proto = Ref 0, props = [], closure = None\<rparr>,
      \<lparr>cls = ''Function'', proto = Ref 1,
        props = [(''length'', Data (Num 0)), (''name'', Data (Str ''f'')), (''prototype'', Data (Ref 10))],
        closure = None\<rparr>,
      \<lparr>cls = ''Object'', proto = Ref 0, props = [(''constructor'', Data (Ref 9))], closure = None\<rparr>]"

definition componentMetadata :: metadata where
  "componentMetadata =
     fullNode ''object'' Undefined Undefined 0
       [(''self'', backReference 0),
        (''m'', leafNode ''collection'' (Ref 7)),
        (''n'', leafNode ''collection'' (Ref 7)),
        (''k'', leafNode ''constant'' (Num 3)),
        (''f'', fullNode ''function'' Undefined (Str ''f'') 1
                  [(''prototype'', fullNode ''object'' Undefined Undefined 2
                                     [(''constructor'', backReference 1)])]),
        (''g'', backReference 1)]"

definition componentTable :: idTable where
  "componentTable = [(Ref 6, 0), (Ref 9, 1), (Ref 10, 2)]"


text \<open>
  The mock record that the function branch of \<^verbatim>\<open>makeComponent\<close> starts a callable
  with, and the two objects it allocates at the address \<open>a\<close>: the callable and its
  default \<^verbatim>\<open>prototype\<close>.
\<close>

definition newMock :: "metadata \<Rightarrow> mockRecord" where
  "newMock metadata =
     (let prototype = (case map_of (md_members metadata) ''prototype'' of None \<Rightarrow> [] | Some p \<Rightarrow> md_members p)
      in \<lparr>isReturnValueLastSet = False,
          defaultReturnValue = Undefined,
          mockImpl = (if truthy (md_mockImpl metadata) then md_mockImpl metadata else Undefined),
          specificReturnValues = [],
          specificMockImpls = [],
          calls = [],
          instances = [],
          prototype = prototype,
          prototypeSlots = getSlotsMembers prototype\<rparr>)"

definition mockObjects :: "nat \<Rightarrow> mockRecord \<Rightarrow> heap" where
  "mockObjects a ms =
     [\<lparr>cls = ''Function'', proto = functionPrototype,
        props = [(''prototype'', Data (Ref (Suc a))), (''_isMockFunction'', Data (Bool True))],
        closure = Some ms\<rparr>,
      \<lparr>cls = ''Object'', proto = objectPrototype,
        props = [(''constructor'', Data (Ref a))], closure = None\<rparr>]"

text \<open>
  What a constructor-style call is stated for. \<^verbatim>\<open>createMockFunction\<close> is taken as
  transparent, which it is for a name that is falsy, or is a string that does not start
  with \<^verbatim>\<open>bound\<close> and a blank and consists of letters, digits, \<^verbatim>\<open>_\<close>, \<^verbatim>\<open>$\<close>, blanks and
  \<^verbatim>\<open>-\<close> with no digit in front: the function it builds then parses, and is no bound
  function. A template is plain when every function node that generation builds from it
  has such a name, and every node of a leaf type whose \<^verbatim>\<open>value\<close> is an object has no
  members, as in the metadata that \<^verbatim>\<open>getMetadata\<close> builds (members under a
  back-reference are never generated). The chain of prototypes of a value ends within
  \<open>n\<close> links.
\<close>

definition nameChars :: string where
  "nameChars = ''abcdefghijklmnopqrstuvwxyzABCDEFGHIJKLMNOPQRSTUVWXYZ0123456789_$ -''"

definition plainName :: "val \<Rightarrow> bool" where
  "plainName nm =
     (case nm of
        Str s \<Rightarrow>
          s = [] \<or> (take 6 s \<noteq> ''bound '' \<and> list_all (\<lambda>c. c \<in> set nameChars) s
                     \<and> hd s \<notin> set ''0123456789'')
      | Ref a \<Rightarrow> False
      | _ \<Rightarrow> \<not> truthy nm)"

fun plainTemplate :: "metadata \<Rightarrow> bool" where
  "plainTemplate (Metadata rf members mi nm refID ty vl) =
     ((case ty of
         None \<Rightarrow> True
       | Some t \<Rightarrow>
           (t = ''function'' \<longrightarrow> plainName nm)
           \<and> (isLeafType t \<longrightarrow> (case vl of Ref a \<Rightarrow> members = [] | _ \<Rightarrow> True)))
      \<and> (\<forall>sm \<in> set members. md_ref (snd sm) = None \<longrightarrow> plainTemplate (snd sm)))"

fun chainEnds :: "nat \<Rightarrow> heap \<Rightarrow> val \<Rightarrow> bool" where
  "chainEnds 0 h v = (case v of Ref a \<Rightarrow> False | _ \<Rightarrow> True)"
| "chainEnds (Suc n) h v =
     (case v of
        Ref a \<Rightarrow> (case lookupObj h a of None \<Rightarrow> False | Some ob \<Rightarrow> chainEnds n h (proto ob))
      | _ \<Rightarrow> True)"

text \<open>
  One generation that starts with \<open>b\<close> objects writes members to the objects it
  allocates, and \<^verbatim>\<open>constructor\<close> to the \<^verbatim>\<open>prototype\<close> of a mock, which may be any object:
  a value is no object below \<open>b\<close>; a heap keeps the first \<open>b\<close> objects of another when
  each of them has the same class, prototype, mock record and own properties, but for
  \<^verbatim>\<open>constructor\<close>.
\<close>

definition atOrAbove :: "nat \<Rightarrow> val \<Rightarrow> bool" where
  "atOrAbove b v = (case v of Ref a \<Rightarrow> b \<le> a | _ \<Rightarrow> True)"

definition keeps :: "nat \<Rightarrow> heap \<Rightarrow> heap \<Rightarrow> bool" where
  "keeps b h h' =
     (b \<le> length h \<and> length h \<le> length h' \<and>
      (\<forall>a < b. cls (h' ! a) = cls (h ! a) \<and> proto (h' ! a) = proto (h ! a)
          \<and> closure (h' ! a) = closure (h ! a)
          \<and> (\<forall>s. s \<noteq> ''constructor'' \<longrightarrow> map_of (props (h' ! a)) s = map_of (props (h ! a)) s)))"

text \<open>
  Two heaps agree on a slot when every object of the first has, in the second, the same
  prototype and the same own property of that name. \<open>installed\<close> is what the
  \<^verbatim>\<open>prototypeSlots.forEach\<close> of a constructor-style call leaves for the receiver at
  \<open>t\<close>: the objects of the heap keep their prototypes, mock records and own properties,
  but for \<^verbatim>\<open>constructor\<close> and for the function-typed slots of the template on the
  receiver; and each of these slots holds a callable of its own, allocated by the loop,
  with the mock record of a new mock and with what the receiver had in the slot as its
  \<^verbatim>\<open>_protoImpl\<close>.
\<close>

definition agreeOn :: "string \<Rightarrow> heap \<Rightarrow> heap \<Rightarrow> bool" where
  "agreeOn s h h' =
     (length h \<le> length h' \<and>
      (\<forall>a < length h. proto (h' ! a) = proto (h ! a)
          \<and> map_of (props (h' ! a)) s = map_of (props (h ! a)) s))"

definition isFunctionSlot :: "(string \<times> metadata) list \<Rightarrow> string \<Rightarrow> bool" where
  "isFunctionSlot P s = (case map_of P s of None \<Rightarrow> False | Some md \<Rightarrow> md_type md = Some ''function'')"

definition installed :: "heap \<Rightarrow> nat \<Rightarrow> (string \<times> metadata) list \<Rightarrow> string list \<Rightarrow> heap \<Rightarrow> bool" where
  "installed h t P slots h' =
     (length h \<le> length h'
      \<and> (\<forall>a < length h. proto (h' ! a) = proto (h ! a) \<and> closure (h' ! a) = closure (h ! a)
            \<and> (\<forall>s. s \<noteq> ''constructor'' \<longrightarrow> \<not> (a = t \<and> s \<in> set slots \<and> isFunctionSlot P s) \<longrightarrow>
                  map_of (props (h' ! a)) s = map_of (props (h ! a)) s))
      \<and> (\<forall>s \<in> set slots. \<forall>md. s \<noteq> ''constructor'' \<longrightarrow> map_of P s = Some md \<longrightarrow>
            md_type md = Some ''function'' \<longrightarrow>
            (\<exists>m. map_of (props (h' ! t)) s = Some (Data (Ref m)) \<and> length h \<le> m \<and> m < length h'
                 \<and> closure (h' ! m) = Some (newMock md)
                 \<and> map_of (props (h' ! m)) ''_protoImpl'' = Some (Data (lookupProp h (Ref t) s))))
      \<and> (\<forall>s1 \<in> set slots. \<forall>s2 \<in> set slots. isFunctionSlot P s1 \<longrightarrow> isFunctionSlot P s2 \<longrightarrow>
            s1 \<noteq> ''constructor'' \<longrightarrow> s2 \<noteq> ''constructor'' \<longrightarrow> s1 \<noteq> s2 \<longrightarrow>
            map_of (props (h' ! t)) s1 \<noteq> map_of (props (h' ! t)) s2))"

text \<open>
  The metadata of a function \<^verbatim>\<open>A\<close> with \<^verbatim>\<open>A.prototype.greet\<close> a function that holds a
  \<^verbatim>\<open>Map\<close> as its member \<^verbatim>\<open>cache\<close>, and \<^verbatim>\<open>A.prototype.k = 3\<close>; the heap with that \<^verbatim>\<open>Map\<close> at
  address 6, the mock generated from the metadata (the mock at address 7, its
  \<^verbatim>\<open>prototype\<close> at 9, the mock of \<^verbatim>\<open>greet\<close> at 10) and one object at address 13 that
  inherits from that \<^verbatim>\<open>prototype\<close>, as \<^verbatim>\<open>new\<close> creates it; the heap after the member loop
  of a constructor-style call on that object; and the heap after the member loop of a
  second such call on the same object.
\<close>

definition greetMetadata :: metadata where
  "greetMetadata =
     fullNode ''function'' Undefined (Str ''greet'') 2
       [(''cache'', leafNode ''collection'' (Ref 6)),
        (''prototype'', fullNode ''object'' Undefined Undefined 3 [(''constructor'', backReference 2)])]"

definition classMetadata :: metadata where
  "classMetadata =
     fullNode ''function'' Undefined (Str ''A'') 0
       [(''prototype'', fullNode ''object'' Undefined Undefined 1
           [(''constructor'', backReference 0),
            (''greet'', greetMetadata),
            (''k'', leafNode ''constant'' (Num 3))])]"

definition classHeap :: heap where
  "classHeap =
     snd (generateFromMetadata classMetadata
            (intrinsics @ [\<lparr>cls = ''Map'', proto = Ref 0, props = [], closure = None\<rparr>]))
     @ [\<lparr>cls = ''Object'', proto = Ref 9, props = [], closure = None\<rparr>]"

definition constructedHeap :: heap where
  "constructedHeap =
     snd (copySlots (recordCall classHeap 7 (Ref 13) []) (Ref 13)
            (prototype (newMock classMetadata)) (prototypeSlots (newMock classMetadata)))"

definition reconstructedHeap :: heap where
  "reconstructedHeap =
     snd (copySlots (recordCall constructedHeap 7 (Ref 13) []) (Ref 13)
            (prototype (newMock classMetadata)) (prototypeSlots (newMock classMetadata)))"

section \<open>Heap lemmas\<close>



lemma sameShape_refl: "sameShape h h"
  by (simp add: sameShape_def)

lemma sameShape_trans: "sameShape h1 h2 \<Longrightarrow> sameShape h2 h3 \<Longrightarrow> sameShape h1 h3"
  by (simp add: sameShape_def)

lemma sameShape_lookupFrom: "sameShape h h' \<Longrightarrow> lookupFrom n h' v slot = lookupFrom n h v slot"
  by (induction n arbitrary: v) (auto simp: sameShape_def lookupObj_def split: val.splits option.splits)

lemma sameShape_lookupProp: "sameShape h h' \<Longrightarrow> lookupProp h' v slot = lookupProp h v slot"
  using sameShape_lookupFrom[of h h'] by (simp add: lookupProp_def sameShape_def)

lemma sameShape_getProp: "sameShape h h' \<Longrightarrow> getProp h' v slot = getProp h v slot"
  by (simp add: getProp_def sameShape_lookupProp split: val.splits)

lemma sameShape_inChain: "sameShape h h' \<Longrightarrow> inChain n h' v p = inChain n h v p"
  by (induction n arbitrary: v) (auto simp: sameShape_def lookupObj_def split: val.splits option.splits)

lemma sameShape_instanceOf: "sameShape h h' \<Longrightarrow> instanceOf h' v f = instanceOf h v f"
  using sameShape_inChain[of h h'] sameShape_lookupProp[of h h']
  by (auto simp: instanceOf_def sameShape_def lookupObj_def split: val.splits option.splits)

lemma sameShape_findProperty:
  "sameShape h h' \<Longrightarrow> findProperty n h' v slot = findProperty n h v slot"
  by (induction n arbitrary: v) (auto simp: sameShape_def lookupObj_def split: val.splits option.splits)

lemma sameShape_classOf: "sameShape h h' \<Longrightarrow> classOf h' v = classOf h v"
  by (auto simp: classOf_def sameShape_def lookupObj_def split: val.splits)

lemma sameShape_writable: "sameShape h h' \<Longrightarrow> writable h' v slot = writable h v slot"
  using sameShape_findProperty[of h h'] sameShape_classOf[of h h']
  by (simp add: writable_def readOnlyMember_def isA_def sameShape_def)

text \<open>A write that returns has replaced or appended one own property of its target.\<close>

lemma setProp_Inr:
  "setProp h v slot x = Inr h' \<Longrightarrow>
     \<exists>a. v = Ref a \<and> a < length h \<and> writable h v slot
       \<and> h' = h[a := (h ! a)\<lparr>props := AList.update slot (Data x) (props (h ! a))\<rparr>]"
  by (auto simp: setProp_def lookupObj_def split: val.splits if_splits)

lemma sameShape_setClosure: "sameShape h (setClosure h f ms)"
  by (auto simp: sameShape_def setClosure_def nth_list_update)

lemma sameShape_updateMock: "sameShape h (updateMock h f g)"
  by (auto simp: updateMock_def sameShape_refl sameShape_setClosure split: option.splits)

lemma closureOf_updateMock:
  "closureOf (updateMock h f g) a = (if a = f then map_option g (closureOf h f) else closureOf h a)"
  by (auto simp: updateMock_def closureOf_def setClosure_def lookupObj_def split: option.splits)

lemma updateMock_updateMock: "updateMock (updateMock h f g1) f g2 = updateMock h f (g2 \<circ> g1)"
  by (auto simp: updateMock_def closureOf_def setClosure_def lookupObj_def split: option.splits)

lemma updateMock_id: "closureOf h f = Some ms \<Longrightarrow> g ms = ms \<Longrightarrow> updateMock h f g = h"
  by (auto simp: updateMock_def closureOf_def setClosure_def lookupObj_def list_update_same_conv split: option.splits if_splits)







lemma closureOf_recordCall:
  "closureOf (recordCall h f this args) a =
     (if a = f then map_option (\<lambda>ms. ms\<lparr>instances := instances ms @ [this], calls := calls ms @ [args]\<rparr>) (closureOf h f)
      else closureOf h a)"
  by (auto simp: recordCall_def closureOf_updateMock option.map_comp comp_def split: option.splits)

lemma sameShape_recordCall: "sameShape h (recordCall h f this args)"
  unfolding recordCall_def by (meson sameShape_trans sameShape_updateMock)

lemma mockConstructor_plain:
  assumes ms: "closureOf h f = Some ms" and plain: "instanceOf h this (Ref f) = Inr False"
  shows "mockConstructor ap h f this args =
     (if isReturnValueLastSet ms \<and> returnValueFamily ms \<noteq> Undefined then
        Some (Inr (returnValueFamily ms),
              updateMock (recordCall h f this args) f
                (\<lambda>m. m\<lparr>specificReturnValues := tl (specificReturnValues ms)\<rparr>))
      else if isReturnValueLastSet ms then
        useImplementation ap
          (updateMock (recordCall h f this args) f
             (\<lambda>m. m\<lparr>specificReturnValues := tl (specificReturnValues ms)\<rparr>)) f ms this args
      else useImplementation ap (recordCall h f this args) f ms this args)"
proof -
  let ?h2 = "recordCall h f this args"
  let ?ms2 = "ms\<lparr>instances := instances ms @ [this], calls := calls ms @ [args]\<rparr>"
  have c2: "closureOf ?h2 f = Some ?ms2"
    by (simp add: closureOf_recordCall ms)
  have i2: "instanceOf ?h2 this (Ref f) = Inr False"
    using sameShape_instanceOf[OF sameShape_recordCall] plain by simp
  have lp: "\<And>g s. lookupProp (updateMock ?h2 f g) (Ref f) s = lookupProp ?h2 (Ref f) s"
    by (simp add: sameShape_lookupProp[OF sameShape_updateMock])
  have lp2: "\<And>g g' s. lookupProp (updateMock (updateMock ?h2 f g) f g') (Ref f) s = lookupProp ?h2 (Ref f) s"
    by (simp add: updateMock_updateMock lp)
  show ?thesis
    unfolding mockConstructor_def Let_def recordCall_def[symmetric] c2 i2
    by (cases "specificReturnValues ms"; cases "specificMockImpls ms")
       (simp_all add: useImplementation_def returnValueFamily_def implementationFamily_def shift_def
          Let_def lp lp2 sameShape_lookupProp[OF sameShape_updateMock])
qed







section \<open>Override resolution of a plain call\<close>

text \<open>
  Claim C1, as amended. Each return-value setter turns the flag \<^verbatim>\<open>isReturnValueLastSet\<close>
  on and each implementation setter turns it off; \<^verbatim>\<open>mockReturnValueOnce\<close> and
  \<^verbatim>\<open>mockImplementationOnce\<close> append to the one-shot queue of their family,
  \<^verbatim>\<open>mockReturnValue\<close> and \<^verbatim>\<open>mockImplementation\<close> set its persistent value. A plain call
  (the receiver is no instance of the callable) resolves in this order: with the flag on,
  the return-value family decides if it yields a value other than \<^verbatim>\<open>undefined\<close>;
  otherwise, and with the flag off (when the return-value family is not consulted at
  all), the implementation family decides if it yields a truthy value, which is then
  applied; the template implementation \<^verbatim>\<open>_protoImpl\<close> is applied only when neither did;
  and \<^verbatim>\<open>undefined\<close> is returned otherwise. A family takes the head of its one-shot queue
  and removes it; it yields that head unless the queue was empty or the head is
  \<^verbatim>\<open>undefined\<close>, and then it yields its persistent value, whatever is still queued. In
  particular, after \<^verbatim>\<open>mockReturnValue(v0)\<close> and then \<^verbatim>\<open>mockImplementation(g)\<close>, with no
  one-shot implementation queued, a call returns what \<open>g\<close> returns.
\<close>

theorem override_precedence:
  assumes "closureOf h f = Some ms" and "instanceOf h this (Ref f) = Inr False"
  shows "mockConstructor ap h f this args =
      (let h2 = recordCall h f this args;
           hR = (if isReturnValueLastSet ms
                 then updateMock h2 f (\<lambda>m. m\<lparr>specificReturnValues := tl (specificReturnValues ms)\<rparr>)
                 else h2);
           hI = updateMock hR f (\<lambda>m. m\<lparr>specificMockImpls := tl (specificMockImpls ms)\<rparr>);
           template = lookupProp h (Ref f) ''_protoImpl''
       in if isReturnValueLastSet ms \<and> returnValueFamily ms \<noteq> Undefined
          then Some (Inr (returnValueFamily ms), hR)
          else if truthy (implementationFamily ms) then ap hI (implementationFamily ms) this args
          else if truthy template then ap hI template this args
          else Some (Inr Undefined, hI))
    \<and> (\<forall>v rest. specificReturnValues ms = v # rest \<longrightarrow>
          returnValueFamily ms = (if v = Undefined then defaultReturnValue ms else v))
    \<and> (specificReturnValues ms = [] \<longrightarrow> returnValueFamily ms = defaultReturnValue ms)
    \<and> (\<forall>fn rest. specificMockImpls ms = fn # rest \<longrightarrow>
          implementationFamily ms = (if fn = Undefined then mockImpl ms else fn))
    \<and> (specificMockImpls ms = [] \<longrightarrow> implementationFamily ms = mockImpl ms)
    \<and> closureOf (mockReturnValueOnce h f v) f
          = Some (ms\<lparr>isReturnValueLastSet := True, specificReturnValues := specificReturnValues ms @ [v]\<rparr>)
    \<and> closureOf (mockReturnValue h f v) f
          = Some (ms\<lparr>isReturnValueLastSet := True, defaultReturnValue := v\<rparr>)
    \<and> closureOf (mockImplementationOnce h f g) f
          = Some (ms\<lparr>isReturnValueLastSet := False, specificMockImpls := specificMockImpls ms @ [g]\<rparr>)
    \<and> closureOf (mockImplementation h f g) f
          = Some (ms\<lparr>isReturnValueLastSet := False, mockImpl := g\<rparr>)
    \<and> (specificMockImpls ms = [] \<longrightarrow> truthy g \<longrightarrow>
          mockConstructor ap (mockImplementation (mockReturnValue h f v0) f g) f this args =
            ap (recordCall (mockImplementation (mockReturnValue h f v0) f g) f this args) g this args)"
proof -
  have eq: "mockConstructor ap h f this args =
      (let h2 = recordCall h f this args;
           hR = (if isReturnValueLastSet ms
                 then updateMock h2 f (\<lambda>m. m\<lparr>specificReturnValues := tl (specificReturnValues ms)\<rparr>)
                 else h2);
           hI = updateMock hR f (\<lambda>m. m\<lparr>specificMockImpls := tl (specificMockImpls ms)\<rparr>);
           template = lookupProp h (Ref f) ''_protoImpl''
       in if isReturnValueLastSet ms \<and> returnValueFamily ms \<noteq> Undefined
          then Some (Inr (returnValueFamily ms), hR)
          else if truthy (implementationFamily ms) then ap hI (implementationFamily ms) this args
          else if truthy template then ap hI template this args
          else Some (Inr Undefined, hI))"
    unfolding mockConstructor_plain[OF assms]
    by (simp add: useImplementation_def Let_def sameShape_lookupProp[OF sameShape_updateMock]
          sameShape_lookupProp[OF sameShape_recordCall])
  have q1: "\<forall>v rest. specificReturnValues ms = v # rest \<longrightarrow>
          returnValueFamily ms = (if v = Undefined then defaultReturnValue ms else v)"
    by (simp add: returnValueFamily_def)
  have q2: "specificReturnValues ms = [] \<longrightarrow> returnValueFamily ms = defaultReturnValue ms"
    by (simp add: returnValueFamily_def)
  have q3: "\<forall>fn rest. specificMockImpls ms = fn # rest \<longrightarrow>
          implementationFamily ms = (if fn = Undefined then mockImpl ms else fn)"
    by (simp add: implementationFamily_def)
  have q4: "specificMockImpls ms = [] \<longrightarrow> implementationFamily ms = mockImpl ms"
    by (simp add: implementationFamily_def)
  have s1: "closureOf (mockReturnValueOnce h f v) f
          = Some (ms\<lparr>isReturnValueLastSet := True, specificReturnValues := specificReturnValues ms @ [v]\<rparr>)"
    by (simp add: mockReturnValueOnce_def closureOf_updateMock assms(1))
  have s2: "closureOf (mockReturnValue h f v) f
          = Some (ms\<lparr>isReturnValueLastSet := True, defaultReturnValue := v\<rparr>)"
    by (simp add: mockReturnValue_def closureOf_updateMock assms(1))
  have s3: "closureOf (mockImplementationOnce h f g) f
          = Some (ms\<lparr>isReturnValueLastSet := False, specificMockImpls := specificMockImpls ms @ [g]\<rparr>)"
    by (simp add: mockImplementationOnce_def closureOf_updateMock assms(1))
  have s4: "closureOf (mockImplementation h f g) f
          = Some (ms\<lparr>isReturnValueLastSet := False, mockImpl := g\<rparr>)"
    by (simp add: mockImplementation_def closureOf_updateMock assms(1))
  have q5: "specificMockImpls ms = [] \<longrightarrow> truthy g \<longrightarrow>
          mockConstructor ap (mockImplementation (mockReturnValue h f v0) f g) f this args =
            ap (recordCall (mockImplementation (mockReturnValue h f v0) f g) f this args) g this args"
  proof (intro impI)
    assume e: "specificMockImpls ms = []" and g: "truthy g"
    let ?h = "mockImplementation (mockReturnValue h f v0) f g"
    let ?ms = "ms\<lparr>isReturnValueLastSet := False, defaultReturnValue := v0, mockImpl := g\<rparr>"
    have c: "closureOf ?h f = Some ?ms"
      by (simp add: mockImplementation_def mockReturnValue_def closureOf_updateMock assms(1))
    have sh: "sameShape h ?h"
      unfolding mockImplementation_def mockReturnValue_def
      by (meson sameShape_trans sameShape_updateMock)
    have p: "instanceOf ?h this (Ref f) = Inr False"
      using sameShape_instanceOf[OF sh] assms(2) by simp
    have c2: "closureOf (recordCall ?h f this args) f
                = Some (?ms\<lparr>instances := instances ms @ [this], calls := calls ms @ [args]\<rparr>)"
      by (simp add: closureOf_recordCall c)
    have idem: "updateMock (recordCall ?h f this args) f (\<lambda>m. m\<lparr>specificMockImpls := tl (specificMockImpls ?ms)\<rparr>)
                  = recordCall ?h f this args"
      by (rule updateMock_id[OF c2]) (simp add: e)
    have ne: "g \<noteq> Undefined" using g by (auto simp: truthy_def)
    show "mockConstructor ap ?h f this args = ap (recordCall ?h f this args) g this args"
      unfolding mockConstructor_plain[OF c p]
      using g idem by (simp add: useImplementation_def implementationFamily_def e Let_def)
  qed
  show ?thesis using eq q1 q2 q3 q4 s1 s2 s3 s4 q5 by blast
qed

text \<open>The theorem at the bare mock, with the intrinsic function at address 4 as \<open>g\<close>.\<close>

theorem override_precedence_witness:
  "closureOf mockHeap 6 = Some (the (closureOf mockHeap 6))
   \<and> instanceOf mockHeap Undefined (Ref 6) = Inr False
   \<and> specificMockImpls (the (closureOf mockHeap 6)) = []
   \<and> truthy (Ref 4)
   \<and> map_option fst (mockConstructor (applyFn 1 answer)
        (mockImplementation (mockReturnValue mockHeap 6 (Num 1)) 6 (Ref 4)) 6 Undefined [])
      = Some (Inr (Str ''impl''))"
proof -
  have c: "closureOf mockHeap 6 = Some (the (closureOf mockHeap 6))" by code_simp
  have p: "instanceOf mockHeap Undefined (Ref 6) = Inr False" by code_simp
  have e: "specificMockImpls (the (closureOf mockHeap 6)) = []" by code_simp
  have t: "truthy (Ref 4)" by code_simp
  have r: "map_option fst (applyFn 1 answer
             (recordCall (mockImplementation (mockReturnValue mockHeap 6 (Num 1)) 6 (Ref 4)) 6 Undefined [])
             (Ref 4) Undefined []) = Some (Inr (Str ''impl''))" by code_simp
  from override_precedence[where ap = "applyFn 1 answer" and args = "[]" and g = "Ref 4" and v0 = "Num 1",
         OF c p] e t
  have "mockConstructor (applyFn 1 answer)
          (mockImplementation (mockReturnValue mockHeap 6 (Num 1)) 6 (Ref 4)) 6 Undefined [] =
        applyFn 1 answer
          (recordCall (mockImplementation (mockReturnValue mockHeap 6 (Num 1)) 6 (Ref 4)) 6 Undefined [])
          (Ref 4) Undefined []" by blast
  with c p e t r show ?thesis by simp
qed

text \<open>
  Claim C1 as it is stated fails for a queued \<^verbatim>\<open>undefined\<close>: after \<^verbatim>\<open>mockReturnValue(5)\<close>,
  \<^verbatim>\<open>mockReturnValueOnce(undefined)\<close> and \<^verbatim>\<open>mockReturnValueOnce(7)\<close> the call returns the
  persistent 5 while 7 is still in the one-shot queue, which was not drained before the
  persistent value was used.
\<close>

theorem override_precedence_counterexample:
  "specificReturnValues (the (closureOf
       (mockReturnValueOnce (mockReturnValueOnce (mockReturnValue mockHeap 6 (Num 5)) 6 Undefined) 6 (Num 7)) 6))
     = [Undefined, Num 7]
   \<and> map_option fst (mockConstructor (applyFn 1 answer)
        (mockReturnValueOnce (mockReturnValueOnce (mockReturnValue mockHeap 6 (Num 5)) 6 Undefined) 6 (Num 7))
        6 Undefined [])
      = Some (Inr (Num 5))
   \<and> map_option (\<lambda>r. specificReturnValues (the (closureOf (snd r) 6)))
        (mockConstructor (applyFn 1 answer)
          (mockReturnValueOnce (mockReturnValueOnce (mockReturnValue mockHeap 6 (Num 5)) 6 Undefined) 6 (Num 7))
          6 Undefined [])
      = Some [Num 7]"
  by code_simp



text \<open>
  Claim C4, as amended. With the flag on, a plain call shifts the queue of one-shot return
  values; the entry taken is returned when it is not \<^verbatim>\<open>undefined\<close>; when the queue is
  empty or the entry taken is \<^verbatim>\<open>undefined\<close> the persistent return value stands in, and
  is returned when it is not \<^verbatim>\<open>undefined\<close>; otherwise the call goes on to the
  implementation family. In particular, with one entry \<open>A\<close> queued, the first call
  returns \<open>A\<close> and the second returns the persistent value, or \<^verbatim>\<open>undefined\<close> when
  neither a persistent value nor an implementation nor a template is there.
\<close>

theorem return_value_family:
  assumes ms: "closureOf h f = Some ms" and plain: "instanceOf h this (Ref f) = Inr False"
    and flag: "isReturnValueLastSet ms"
  shows
    "(\<forall>v rest. specificReturnValues ms = v # rest \<longrightarrow> v \<noteq> Undefined \<longrightarrow>
        mockConstructor ap h f this args =
          Some (Inr v, updateMock (recordCall h f this args) f (\<lambda>m. m\<lparr>specificReturnValues := rest\<rparr>)))
   \<and> (specificReturnValues ms = [] \<or> hd (specificReturnValues ms) = Undefined \<longrightarrow>
        defaultReturnValue ms \<noteq> Undefined \<longrightarrow>
        mockConstructor ap h f this args =
          Some (Inr (defaultReturnValue ms),
                updateMock (recordCall h f this args) f
                  (\<lambda>m. m\<lparr>specificReturnValues := tl (specificReturnValues ms)\<rparr>)))
   \<and> (specificReturnValues ms = [] \<or> hd (specificReturnValues ms) = Undefined \<longrightarrow>
        defaultReturnValue ms = Undefined \<longrightarrow>
        mockConstructor ap h f this args =
          useImplementation ap
            (updateMock (recordCall h f this args) f
               (\<lambda>m. m\<lparr>specificReturnValues := tl (specificReturnValues ms)\<rparr>)) f ms this args)
   \<and> (\<forall>A. specificReturnValues ms = [A] \<longrightarrow> A \<noteq> Undefined \<longrightarrow>
        instanceOf h this2 (Ref f) = Inr False \<longrightarrow>
        (\<exists>h1. mockConstructor ap h f this args = Some (Inr A, h1)
           \<and> (defaultReturnValue ms \<noteq> Undefined \<longrightarrow>
                map_option fst (mockConstructor ap h1 f this2 args2) = Some (Inr (defaultReturnValue ms)))
           \<and> (defaultReturnValue ms = Undefined \<longrightarrow> specificMockImpls ms = [] \<longrightarrow>
                \<not> truthy (mockImpl ms) \<longrightarrow> \<not> truthy (lookupProp h (Ref f) ''_protoImpl'') \<longrightarrow>
                map_option fst (mockConstructor ap h1 f this2 args2) = Some (Inr Undefined))))"
proof -
  have a: "\<forall>v rest. specificReturnValues ms = v # rest \<longrightarrow> v \<noteq> Undefined \<longrightarrow>
        mockConstructor ap h f this args =
          Some (Inr v, updateMock (recordCall h f this args) f (\<lambda>m. m\<lparr>specificReturnValues := rest\<rparr>))"
    using flag by (simp add: mockConstructor_plain[OF ms plain] returnValueFamily_def)
  have b: "specificReturnValues ms = [] \<or> hd (specificReturnValues ms) = Undefined \<longrightarrow>
        defaultReturnValue ms \<noteq> Undefined \<longrightarrow>
        mockConstructor ap h f this args =
          Some (Inr (defaultReturnValue ms),
                updateMock (recordCall h f this args) f
                  (\<lambda>m. m\<lparr>specificReturnValues := tl (specificReturnValues ms)\<rparr>))"
    using flag by (cases "specificReturnValues ms")
      (simp_all add: mockConstructor_plain[OF ms plain] returnValueFamily_def)
  have c: "specificReturnValues ms = [] \<or> hd (specificReturnValues ms) = Undefined \<longrightarrow>
        defaultReturnValue ms = Undefined \<longrightarrow>
        mockConstructor ap h f this args =
          useImplementation ap
            (updateMock (recordCall h f this args) f
               (\<lambda>m. m\<lparr>specificReturnValues := tl (specificReturnValues ms)\<rparr>)) f ms this args"
    using flag by (cases "specificReturnValues ms")
      (simp_all add: mockConstructor_plain[OF ms plain] returnValueFamily_def)
  have d: "\<forall>A. specificReturnValues ms = [A] \<longrightarrow> A \<noteq> Undefined \<longrightarrow>
        instanceOf h this2 (Ref f) = Inr False \<longrightarrow>
        (\<exists>h1. mockConstructor ap h f this args = Some (Inr A, h1)
           \<and> (defaultReturnValue ms \<noteq> Undefined \<longrightarrow>
                map_option fst (mockConstructor ap h1 f this2 args2) = Some (Inr (defaultReturnValue ms)))
           \<and> (defaultReturnValue ms = Undefined \<longrightarrow> specificMockImpls ms = [] \<longrightarrow>
                \<not> truthy (mockImpl ms) \<longrightarrow> \<not> truthy (lookupProp h (Ref f) ''_protoImpl'') \<longrightarrow>
                map_option fst (mockConstructor ap h1 f this2 args2) = Some (Inr Undefined)))"
  proof (intro allI impI)
    fix A
    assume q: "specificReturnValues ms = [A]" and A: "A \<noteq> Undefined"
      and plain2: "instanceOf h this2 (Ref f) = Inr False"
    let ?h1 = "updateMock (recordCall h f this args) f (\<lambda>m. m\<lparr>specificReturnValues := []\<rparr>)"
    let ?ms1 = "ms\<lparr>instances := instances ms @ [this], calls := calls ms @ [args],
                    specificReturnValues := []\<rparr>"
    have first: "mockConstructor ap h f this args = Some (Inr A, ?h1)"
      using a q A by simp
    have c1: "closureOf ?h1 f = Some ?ms1"
      by (simp add: closureOf_updateMock closureOf_recordCall ms)
    have sh: "sameShape h ?h1"
      by (meson sameShape_trans sameShape_updateMock sameShape_recordCall)
    have p1: "instanceOf ?h1 this2 (Ref f) = Inr False"
      using sameShape_instanceOf[OF sh] plain2 by simp
    have rv: "returnValueFamily ?ms1 = defaultReturnValue ms"
      by (simp add: returnValueFamily_def)
    have second1: "defaultReturnValue ms \<noteq> Undefined \<longrightarrow>
        map_option fst (mockConstructor ap ?h1 f this2 args2) = Some (Inr (defaultReturnValue ms))"
      using flag rv by (simp add: mockConstructor_plain[OF c1 p1])
    have second2: "defaultReturnValue ms = Undefined \<longrightarrow> specificMockImpls ms = [] \<longrightarrow>
                \<not> truthy (mockImpl ms) \<longrightarrow> \<not> truthy (lookupProp h (Ref f) ''_protoImpl'') \<longrightarrow>
                map_option fst (mockConstructor ap ?h1 f this2 args2) = Some (Inr Undefined)"
      using flag rv
      by (simp add: mockConstructor_plain[OF c1 p1] useImplementation_def implementationFamily_def
            sameShape_lookupProp[OF sameShape_updateMock] sameShape_lookupProp[OF sameShape_recordCall]
            sameShape_lookupProp[OF sh])
    show "\<exists>h1. mockConstructor ap h f this args = Some (Inr A, h1)
           \<and> (defaultReturnValue ms \<noteq> Undefined \<longrightarrow>
                map_option fst (mockConstructor ap h1 f this2 args2) = Some (Inr (defaultReturnValue ms)))
           \<and> (defaultReturnValue ms = Undefined \<longrightarrow> specificMockImpls ms = [] \<longrightarrow>
                \<not> truthy (mockImpl ms) \<longrightarrow> \<not> truthy (lookupProp h (Ref f) ''_protoImpl'') \<longrightarrow>
                map_option fst (mockConstructor ap h1 f this2 args2) = Some (Inr Undefined))"
      using first second1 second2 by blast
  qed
  show ?thesis using a b c d by blast
qed

text \<open>The theorem at the bare mock after \<^verbatim>\<open>mockReturnValueOnce(7)\<close>.\<close>

theorem return_value_family_witness:
  "closureOf (mockReturnValueOnce mockHeap 6 (Num 7)) 6
     = Some (the (closureOf (mockReturnValueOnce mockHeap 6 (Num 7)) 6))
   \<and> instanceOf (mockReturnValueOnce mockHeap 6 (Num 7)) Undefined (Ref 6) = Inr False
   \<and> isReturnValueLastSet (the (closureOf (mockReturnValueOnce mockHeap 6 (Num 7)) 6))
   \<and> specificReturnValues (the (closureOf (mockReturnValueOnce mockHeap 6 (Num 7)) 6)) = [Num 7]
   \<and> Num 7 \<noteq> Undefined
   \<and> map_option fst (mockConstructor (applyFn 1 answer) (mockReturnValueOnce mockHeap 6 (Num 7)) 6 Undefined [])
       = Some (Inr (Num 7))"
proof -
  let ?h = "mockReturnValueOnce mockHeap 6 (Num 7)"
  have c: "closureOf ?h 6 = Some (the (closureOf ?h 6))" by code_simp
  have p: "instanceOf ?h Undefined (Ref 6) = Inr False" by code_simp
  have fl: "isReturnValueLastSet (the (closureOf ?h 6))" by code_simp
  have q: "specificReturnValues (the (closureOf ?h 6)) = [Num 7]" by code_simp
  from return_value_family[OF c p fl, of "applyFn 1 answer" "[]"] q
  have "map_option fst (mockConstructor (applyFn 1 answer) ?h 6 Undefined []) = Some (Inr (Num 7))"
    by simp
  with c p fl q show ?thesis by simp
qed

text \<open>
  Claim C4 as it is stated fails for a queued \<^verbatim>\<open>undefined\<close>: after
  \<^verbatim>\<open>mockReturnValueOnce(undefined)\<close> and \<^verbatim>\<open>mockReturnValue(5)\<close> the queue holds an entry,
  and the call returns the persistent 5, where the claim has the entry taken and, no
  implementation being there, \<^verbatim>\<open>undefined\<close> returned.
\<close>

theorem return_value_family_counterexample:
  "specificReturnValues (the (closureOf (mockReturnValue (mockReturnValueOnce mockHeap 6 Undefined) 6 (Num 5)) 6))
     = [Undefined]
   \<and> isReturnValueLastSet (the (closureOf (mockReturnValue (mockReturnValueOnce mockHeap 6 Undefined) 6 (Num 5)) 6))
   \<and> map_option fst (mockConstructor (applyFn 1 answer)
        (mockReturnValue (mockReturnValueOnce mockHeap 6 Undefined) 6 (Num 5)) 6 Undefined [])
      = Some (Inr (Num 5))"
  by code_simp

section \<open>Unknown types\<close>

text \<open>
  Claim C6. A node whose \<^verbatim>\<open>type\<close> is none of the eight known ones makes
  \<^verbatim>\<open>makeComponent\<close> throw \<^verbatim>\<open>Error('Unrecognized type ' + type)\<close>, so that neither
  \<^verbatim>\<open>generateMock\<close> nor \<^verbatim>\<open>generateFromMetadata\<close> returns a mock for it and the heap is
  left as it was. The message names the type string; for the empty string, as for an
  absent type, the code's name for it is \<^verbatim>\<open>undefined type\<close>.
\<close>

theorem unrecognized_type_raises:
  assumes "md_type metadata \<notin> Some ` set knownTypes"
  shows "makeComponent metadata h =
           (Inl (Error (''Unrecognized type '' @
              (case md_type metadata of
                 None \<Rightarrow> ''undefined type''
               | Some t \<Rightarrow> if t = [] then ''undefined type'' else t))), h)
     \<and> generateMock metadata callbacks refs h =
           (Inl (Error (''Unrecognized type '' @
              (case md_type metadata of
                 None \<Rightarrow> ''undefined type''
               | Some t \<Rightarrow> if t = [] then ''undefined type'' else t))), h)
     \<and> generateFromMetadata metadata h =
           (Inl (Error (''Unrecognized type '' @
              (case md_type metadata of
                 None \<Rightarrow> ''undefined type''
               | Some t \<Rightarrow> if t = [] then ''undefined type'' else t))), h)"
proof -
  have m: "makeComponent metadata h =
           (Inl (Error (''Unrecognized type '' @
              (case md_type metadata of
                 None \<Rightarrow> ''undefined type''
               | Some t \<Rightarrow> if t = [] then ''undefined type'' else t))), h)"
    using assms by (auto simp: makeComponent_def knownTypes_def split: option.splits)
  have g: "\<And>callbacks refs. generateMock metadata callbacks refs h =
           (Inl (Error (''Unrecognized type '' @
              (case md_type metadata of
                 None \<Rightarrow> ''undefined type''
               | Some t \<Rightarrow> if t = [] then ''undefined type'' else t))), h)"
    using m by (cases metadata) simp
  show ?thesis using m g by (simp add: generateFromMetadata_def)
qed

text \<open>The theorem at a node of type \<^verbatim>\<open>date\<close>.\<close>

theorem unrecognized_type_raises_witness:
  "md_type (Metadata None [] Undefined Undefined None (Some ''date'') Undefined) \<notin> Some ` set knownTypes
   \<and> generateFromMetadata (Metadata None [] Undefined Undefined None (Some ''date'') Undefined) intrinsics
       = (Inl (Error ''Unrecognized type date''), intrinsics)"
proof -
  have a: "md_type (Metadata None [] Undefined Undefined None (Some ''date'') Undefined)
             \<notin> Some ` set knownTypes"
    by (simp add: knownTypes_def)
  show ?thesis using a unrecognized_type_raises[OF a, of intrinsics] by simp
qed

section \<open>The marker test\<close>

text \<open>
  Claim C10. \<^verbatim>\<open>isMockFunction\<close> reads \<^verbatim>\<open>fn._isMockFunction\<close> whatever \<open>fn\<close> is: on
  \<^verbatim>\<open>undefined\<close> and on \<^verbatim>\<open>null\<close> the read throws a type error, and on every other
  argument the result is the truthiness of that member.
\<close>

theorem isMockFunction_reads_marker:
  "isMockFunction h Undefined = Inl TypeError \<and> isMockFunction h Null = Inl TypeError
   \<and> (fn \<noteq> Undefined \<longrightarrow> fn \<noteq> Null \<longrightarrow>
        isMockFunction h fn = Inr (truthy (lookupProp h fn ''_isMockFunction'')))"
  by (cases fn) (simp_all add: isMockFunction_def getProp_def)

text \<open>The theorem at the bare mock and at a function that is no mock.\<close>

theorem isMockFunction_reads_marker_witness:
  "Ref 6 \<noteq> Undefined \<and> Ref 6 \<noteq> Null \<and> isMockFunction mockHeap (Ref 6) = Inr True
   \<and> isMockFunction mockHeap (Ref 4) = Inr False"
proof -
  have t: "truthy (lookupProp mockHeap (Ref 6) ''_isMockFunction'')" by code_simp
  have u: "\<not> truthy (lookupProp mockHeap (Ref 4) ''_isMockFunction'')" by code_simp
  show ?thesis
    using isMockFunction_reads_marker[of mockHeap "Ref 6"] isMockFunction_reads_marker[of mockHeap "Ref 4"] t u
    by simp
qed


section \<open>What generation leaves alone\<close>

lemma grows_refl: "grows h h"
  by (simp add: grows_def)

lemma grows_trans: "grows h1 h2 \<Longrightarrow> grows h2 h3 \<Longrightarrow> grows h1 h3"
  by (auto simp: grows_def)

lemma grows_closureOf: "grows h h' \<Longrightarrow> closureOf h f = Some ms \<Longrightarrow> closureOf h' f = Some ms"
  by (auto simp: grows_def closureOf_def lookupObj_def split: if_splits)

lemma setProp_grows: "setProp h v slot x = Inr h' \<Longrightarrow> grows h h'"
  by (auto simp: setProp_def grows_def lookupObj_def nth_list_update split: val.splits if_splits)


lemma makeComponent_grows: "makeComponent metadata h = (r, h') \<Longrightarrow> grows h h'"
  by (auto simp: makeComponent_def alloc_def grows_def nth_append Let_def split: if_splits)

lemma generate_induct [case_names Node Nil Cons]:
  assumes node: "\<And>metadata callbacks refs h.
            (\<And>mock h1. makeComponent metadata h = (Inr mock, h1) \<Longrightarrow>
               Q mock (md_members metadata) callbacks
                 (case md_refID metadata of None \<Rightarrow> refs | Some r \<Rightarrow> refs(r \<mapsto> mock)) h1)
            \<Longrightarrow> P metadata callbacks refs h"
    and nil: "\<And>mock callbacks refs h. Q mock [] callbacks refs h"
    and cons: "\<And>mock slot slotMetadata rest callbacks refs h.
            (\<And>r. md_ref slotMetadata = Some r \<Longrightarrow> Q mock rest (callbacks @ [(mock, slot, r)]) refs h)
            \<Longrightarrow> (md_ref slotMetadata = None \<Longrightarrow> P slotMetadata callbacks refs h)
            \<Longrightarrow> (\<And>child callbacks1 refs1 h1 h2.
                   md_ref slotMetadata = None \<Longrightarrow>
                   generateMock slotMetadata callbacks refs h = (Inr (child, callbacks1, refs1), h1) \<Longrightarrow>
                   setProp h1 mock slot child = Inr h2 \<Longrightarrow>
                   Q mock rest callbacks1 refs1 h2)
            \<Longrightarrow> Q mock ((slot, slotMetadata) # rest) callbacks refs h"
  shows "P metadata callbacks refs h" and "Q mock members callbacks refs h"
proof (induction metadata callbacks refs h and mock members callbacks refs h
         rule: generateMock_generateSlots.induct)
  case (1 rf members mi nm refID ty vl callbacks refs h)
  show ?case
  proof (rule node)
    fix mock h1
    assume "makeComponent (Metadata rf members mi nm refID ty vl) h = (Inr mock, h1)"
    from "1.IH"[OF this[symmetric] refl refl] show
      "Q mock (md_members (Metadata rf members mi nm refID ty vl)) callbacks
         (case md_refID (Metadata rf members mi nm refID ty vl) of
            None \<Rightarrow> refs | Some r \<Rightarrow> refs(r \<mapsto> mock)) h1"
      by simp
  qed
next
  case (2 mock callbacks refs h)
  show ?case by (rule nil)
next
  case (3 mock slot slotMetadata rest callbacks refs h)
  show ?case
  proof (rule cons)
    fix r assume "md_ref slotMetadata = Some r"
    from "3.IH"(3)[OF this] show "Q mock rest (callbacks @ [(mock, slot, r)]) refs h" .
  next
    assume "md_ref slotMetadata = None"
    from "3.IH"(1)[OF this] show "P slotMetadata callbacks refs h" .
  next
    fix child callbacks1 refs1 h1 h2
    assume n: "md_ref slotMetadata = None"
      and g: "generateMock slotMetadata callbacks refs h = (Inr (child, callbacks1, refs1), h1)"
      and sp: "setProp h1 mock slot child = Inr h2"
    from "3.IH"(2)[OF n g[symmetric] refl refl refl sp]
    show "Q mock rest callbacks1 refs1 h2" .
  qed
qed

lemma generateMock_unfold:
  "generateMock metadata callbacks refs h =
     (case makeComponent metadata h of
        (Inl e, h1) \<Rightarrow> (Inl e, h1)
      | (Inr mock, h1) \<Rightarrow>
          (case generateSlots mock (md_members metadata) callbacks
                  (case md_refID metadata of None \<Rightarrow> refs | Some r \<Rightarrow> refs(r \<mapsto> mock)) h1 of
             (Inl e, h2) \<Rightarrow> (Inl e, h2)
           | (Inr (callbacks2, refs2), h2) \<Rightarrow>
               (if md_type metadata \<noteq> Some ''undefined'' \<and> md_type metadata \<noteq> Some ''null'' then
                  (case getProp h2 mock ''prototype'' of
                     Inl e \<Rightarrow> (Inl e, h2)
                   | Inr p \<Rightarrow>
                       (if truthy p then
                          (case setProp h2 p ''constructor'' mock of
                             Inl e \<Rightarrow> (Inl e, h2)
                           | Inr h3 \<Rightarrow> (Inr (mock, callbacks2, refs2), h3))
                        else (Inr (mock, callbacks2, refs2), h2)))
                else (Inr (mock, callbacks2, refs2), h2))))"
proof (cases metadata)
  case (Metadata rf members mi nm refID ty vl)
  show ?thesis unfolding Metadata by (simp add: Let_def split: prod.split sum.split)
qed

lemma generate_grows:
  "\<forall>r h'. generateMock metadata callbacks refs h = (r, h') \<longrightarrow> grows h h'"
  "\<forall>r' h'. generateSlots mock members callbacks refs h = (r', h') \<longrightarrow> grows h h'"
proof (induction metadata callbacks refs h and mock members callbacks refs h rule: generate_induct)
  case (Node metadata callbacks refs h)
  show ?case
  proof (intro allI impI)
    fix r h' assume g: "generateMock metadata callbacks refs h = (r, h')"
    obtain r1 h1 where mk: "makeComponent metadata h = (r1, h1)" by (cases "makeComponent metadata h")
    have g1: "grows h h1" using makeComponent_grows[OF mk] .
    show "grows h h'"
    proof (cases r1)
      case (Inl e)
      with g mk g1 show ?thesis by (simp add: generateMock_unfold)
    next
      case (Inr mock)
      let ?refs1 = "(case md_refID metadata of None \<Rightarrow> refs | Some r \<Rightarrow> refs(r \<mapsto> mock))"
      obtain r2 h2 where sl: "generateSlots mock (md_members metadata) callbacks ?refs1 h1 = (r2, h2)"
        by (cases "generateSlots mock (md_members metadata) callbacks ?refs1 h1")
      have g2: "grows h h2" using Node[OF mk[unfolded Inr]] sl g1 grows_trans by blast
      have "h' = h2 \<or> (\<exists>p. setProp h2 p ''constructor'' mock = Inr h')"
        using g mk Inr sl
        by (auto simp: generateMock_unfold split: sum.splits if_splits prod.splits)
      then show ?thesis using g2 setProp_grows grows_trans by blast
    qed
  qed
next
  case (Nil mock callbacks refs h)
  then show ?case by (simp add: grows_refl)
next
  case (Cons mock slot slotMetadata rest callbacks refs h)
  show ?case
  proof (cases "md_ref slotMetadata")
    case (Some r)
    with Cons(1)[OF Some] show ?thesis by simp
  next
    case None
    show ?thesis
    proof (intro allI impI)
      fix r' h' assume g: "generateSlots mock ((slot, slotMetadata) # rest) callbacks refs h = (r', h')"
      obtain r1 h1 where gm: "generateMock slotMetadata callbacks refs h = (r1, h1)"
        by (cases "generateMock slotMetadata callbacks refs h")
      have g1: "grows h h1" using Cons(2)[OF None] gm by blast
      show "grows h h'"
      proof (cases r1)
        case (Inl e)
        with g None gm g1 show ?thesis by simp
      next
        case (Inr res)
        obtain child callbacks1 refs1 where res: "res = (child, callbacks1, refs1)" by (cases res)
        show ?thesis
        proof (cases "setProp h1 mock slot child")
          case (Inl e)
          with g None gm \<open>r1 = Inr res\<close> res g1 show ?thesis by simp
        next
          case (Inr h2)
          have "generateSlots mock rest callbacks1 refs1 h2 = (r', h')"
            using g None gm \<open>r1 = Inr res\<close> res Inr by simp
          with Cons(3)[OF None gm[unfolded \<open>r1 = Inr res\<close> res] Inr] have "grows h2 h'" by blast
          with g1 setProp_grows[OF Inr] show ?thesis by (meson grows_trans)
        qed
      qed
    qed
  qed
qed

lemma generateMock_grows: "generateMock metadata callbacks refs h = (r, h') \<Longrightarrow> grows h h'"
  using generate_grows(1) by blast

lemma runCallbacks_grows: "runCallbacks callbacks refs h = (r, h') \<Longrightarrow> grows h h'"
proof (induction callbacks refs h arbitrary: r h' rule: runCallbacks.induct)
  case (1 refs h)
  then show ?case by (simp add: grows_refl)
next
  case (2 mock slot r0 rest refs h)
  show ?case
  proof (cases "setProp h mock slot (case refs r0 of None \<Rightarrow> Undefined | Some v \<Rightarrow> v)")
    case (Inl e)
    with "2.prems" show ?thesis by (simp add: grows_refl)
  next
    case (Inr h1)
    with "2.prems" have "runCallbacks rest refs h1 = (r, h')" by simp
    from "2.IH"[OF Inr this] setProp_grows[OF Inr] show ?thesis by (meson grows_trans)
  qed
qed

lemma generateFromMetadata_grows: "generateFromMetadata metadata h = (r, h') \<Longrightarrow> grows h h'"
proof -
  assume g: "generateFromMetadata metadata h = (r, h')"
  obtain r1 h1 where gm: "generateMock metadata [] Map.empty h = (r1, h1)"
    by (cases "generateMock metadata [] Map.empty h")
  have g1: "grows h h1" using generateMock_grows[OF gm] .
  show ?thesis
  proof (cases r1)
    case (Inl e)
    with g gm g1 show ?thesis by (simp add: generateFromMetadata_def)
  next
    case (Inr res)
    obtain mock callbacks refs where res: "res = (mock, callbacks, refs)" by (cases res)
    obtain r2 h2 where rc: "runCallbacks callbacks refs h1 = (r2, h2)"
      by (cases "runCallbacks callbacks refs h1")
    have "h' = h2" using g gm Inr res rc by (auto simp: generateFromMetadata_def split: sum.splits)
    with g1 runCallbacks_grows[OF rc] show ?thesis by (meson grows_trans)
  qed
qed

lemma copySlots_grows: "copySlots h this prototypeMd slots = (r, h') \<Longrightarrow> grows h h'"
proof (induction h this prototypeMd slots arbitrary: r h' rule: copySlots.induct)
  case (1 h this prototypeMd)
  then show ?case by (simp add: grows_refl)
next
  case (2 h this prototypeMd slot rest)
  show ?case
  proof (cases "map_of prototypeMd slot")
    case None
    with "2.prems" show ?thesis by (simp add: grows_refl)
  next
    case (Some slotMetadata)
    show ?thesis
    proof (cases "md_type slotMetadata = Some ''function''")
      case False
      with "2.prems" Some "2.IH"(2)[OF Some False] show ?thesis by simp
    next
      case True
      obtain r1 h1 where gf: "generateFromMetadata slotMetadata h = (r1, h1)"
        by (cases "generateFromMetadata slotMetadata h")
      have g1: "grows h h1" using generateFromMetadata_grows[OF gf] .
      show ?thesis
      proof (cases r1)
        case (Inl e)
        with "2.prems" Some True gf g1 show ?thesis by simp
      next
        case (Inr m)
        show ?thesis
        proof (cases "setProp h1 this slot m")
          case (Inl e)
          with "2.prems" Some True gf \<open>r1 = Inr m\<close> g1 show ?thesis by simp
        next
          case h2: (Inr h2)
          have g2: "grows h h2" using g1 setProp_grows[OF h2] by (meson grows_trans)
          show ?thesis
          proof (cases "setProp h2 (lookupProp h2 this slot) ''_protoImpl'' (lookupProp h this slot)")
            case (Inl e)
            with "2.prems" Some True gf \<open>r1 = Inr m\<close> h2 g2 show ?thesis by simp
          next
            case h3: (Inr h3)
            have "copySlots h3 this prototypeMd rest = (r, h')"
              using "2.prems" Some True gf \<open>r1 = Inr m\<close> h2 h3 by simp
            from "2.IH"(1)[OF Some True refl gf[symmetric] \<open>r1 = Inr m\<close> h2 h3 this]
            have "grows h3 h'" .
            with g2 setProp_grows[OF h3] show ?thesis by (meson grows_trans)
          qed
        qed
      qed
    qed
  qed
qed

section \<open>The call ledger\<close>

lemma mockLedger_updateMock:
  "\<forall>ms. calls (g ms) = calls ms \<and> instances (g ms) = instances ms \<Longrightarrow>
     mockLedger (updateMock h f g) a = mockLedger h a"
  by (cases "closureOf h f") (auto simp: mockLedger_def closureOf_updateMock)

lemma mockLedger_grows: "grows h h' \<Longrightarrow> closureOf h f = Some ms \<Longrightarrow> mockLedger h' f = mockLedger h f"
  by (simp add: mockLedger_def grows_closureOf)

lemma mockConstructor_ledger:
  assumes ms: "closureOf h f = Some ms"
    and ap: "\<forall>h1 fn t as r h2. ap h1 fn t as = Some (r, h2) \<longrightarrow> mockLedger h2 f = mockLedger h1 f"
    and run: "mockConstructor ap h f this args = Some (r, h')"
  shows "mockLedger h' f = Some (calls ms @ [args], instances ms @ [this])"
proof -
  let ?h2 = "recordCall h f this args"
  let ?ms2 = "ms\<lparr>instances := instances ms @ [this], calls := calls ms @ [args]\<rparr>"
  have c2: "closureOf ?h2 f = Some ?ms2"
    by (simp add: closureOf_recordCall ms)
  have l2: "mockLedger ?h2 f = Some (calls ms @ [args], instances ms @ [this])"
    by (simp add: mockLedger_def c2)
  show ?thesis
  proof (cases "instanceOf ?h2 this (Ref f)")
    case (Inl e)
    with run c2 l2 show ?thesis
      by (simp add: mockConstructor_def recordCall_def[symmetric])
  next
    case (Inr b)
    show ?thesis
    proof (cases b)
      case True
      obtain r3 h3 where cs: "copySlots ?h2 this (prototype ?ms2) (prototypeSlots ?ms2) = (r3, h3)"
        by (cases "copySlots ?h2 this (prototype ?ms2) (prototypeSlots ?ms2)")
      have l3: "mockLedger h3 f = Some (calls ms @ [args], instances ms @ [this])"
        using mockLedger_grows[OF copySlots_grows[OF cs] c2] l2 by simp
      from run c2 Inr True cs have
        "(h' = h3) \<or> (\<exists>fn. ap h3 fn this args = Some (r, h'))"
        by (auto simp: mockConstructor_def recordCall_def[symmetric] split: sum.splits if_splits)
      with l3 ap show ?thesis by metis
    next
      case False
      have plain: "instanceOf h this (Ref f) = Inr False"
        using Inr False sameShape_instanceOf[OF sameShape_recordCall, of h f this args this "Ref f"] by simp
      let ?hR = "updateMock ?h2 f (\<lambda>m. m\<lparr>specificReturnValues := tl (specificReturnValues ms)\<rparr>)"
      have lR: "mockLedger ?hR f = Some (calls ms @ [args], instances ms @ [this])"
        using l2 by (simp add: mockLedger_updateMock)
      have lI: "\<And>hh. mockLedger hh f = Some (calls ms @ [args], instances ms @ [this]) \<Longrightarrow>
                 mockLedger (updateMock hh f (\<lambda>m. m\<lparr>specificMockImpls := tl (specificMockImpls ms)\<rparr>)) f
                   = Some (calls ms @ [args], instances ms @ [this])"
        by (simp add: mockLedger_updateMock)
      from run have
        "h' = ?hR
         \<or> h' = updateMock ?hR f (\<lambda>m. m\<lparr>specificMockImpls := tl (specificMockImpls ms)\<rparr>)
         \<or> h' = updateMock ?h2 f (\<lambda>m. m\<lparr>specificMockImpls := tl (specificMockImpls ms)\<rparr>)
         \<or> (\<exists>fn. ap (updateMock ?hR f (\<lambda>m. m\<lparr>specificMockImpls := tl (specificMockImpls ms)\<rparr>)) fn this args
                 = Some (r, h'))
         \<or> (\<exists>fn. ap (updateMock ?h2 f (\<lambda>m. m\<lparr>specificMockImpls := tl (specificMockImpls ms)\<rparr>)) fn this args
                 = Some (r, h'))"
        unfolding mockConstructor_plain[OF ms plain]
        by (auto simp: useImplementation_def Let_def split: if_splits)
      with lR lI[OF lR] lI[OF l2] ap show ?thesis by metis
    qed
  qed
qed

lemma invokeAll_ledger:
  assumes ap: "\<forall>h1 fn t as r h2. ap h1 fn t as = Some (r, h2) \<longrightarrow> mockLedger h2 f = mockLedger h1 f"
  shows "closureOf h f = Some ms \<Longrightarrow> invokeAll ap h f xs = Some h' \<Longrightarrow>
         mockLedger h' f = Some (calls ms @ map snd xs, instances ms @ map fst xs)"
proof (induction xs arbitrary: h ms)
  case Nil
  then show ?case by (simp add: mockLedger_def)
next
  case (Cons x xs)
  obtain this args where x: "x = (this, args)" by (cases x)
  from Cons.prems(2) x obtain r h1 where
    run: "mockConstructor ap h f this args = Some (r, h1)" and rest: "invokeAll ap h1 f xs = Some h'"
    by (auto split: option.splits)
  from mockConstructor_ledger[OF Cons.prems(1) ap run]
  obtain ms1 where c1: "closureOf h1 f = Some ms1" and
    l1: "calls ms1 = calls ms @ [args]" "instances ms1 = instances ms @ [this]"
    by (auto simp: mockLedger_def)
  from Cons.IH[OF c1 rest] l1 x show ?case by simp
qed

section \<open>Calls do not read the ledger\<close>

lemma eraseObj_simps [simp]:
  "cls (eraseObj ob) = cls ob" "proto (eraseObj ob) = proto ob" "props (eraseObj ob) = props ob"
  "closure (eraseObj ob) = map_option eraseLedger (closure ob)"
  by (simp_all add: eraseObj_def)

lemma eraseLedger_idem [simp]: "eraseLedger (eraseLedger ms) = eraseLedger ms"
  by (simp add: eraseLedger_def)

lemma eraseObj_idem [simp]: "eraseObj (eraseObj ob) = eraseObj ob"
  by (cases "closure ob") (simp_all add: eraseObj_def)

lemma sameShape_erase: "sameShape h (map eraseObj h)"
  by (simp add: sameShape_def)

lemma lookupObj_erase: "lookupObj (map eraseObj h) a = map_option eraseObj (lookupObj h a)"
  by (simp add: lookupObj_def)

lemma closureOf_erase: "closureOf (map eraseObj h) a = map_option eraseLedger (closureOf h a)"
  by (simp add: closureOf_def lookupObj_erase split: option.splits)

lemma eraseObj_props_update: "eraseObj (ob\<lparr>props := ps\<rparr>) = (eraseObj ob)\<lparr>props := ps\<rparr>"
  by (cases ob) (simp add: eraseObj_def)

lemma setProp_erase:
  "setProp (map eraseObj h) v slot x = map_sum id (map eraseObj) (setProp h v slot x)"
  using sameShape_writable[OF sameShape_erase, of h v slot]
  by (auto simp: setProp_def lookupObj_def map_update eraseObj_props_update split: val.splits)

lemma makeComponent_erase:
  "makeComponent metadata (map eraseObj h) = apsnd (map eraseObj) (makeComponent metadata h)"
  by (simp add: makeComponent_def alloc_def Let_def eraseObj_def eraseLedger_def)

lemma getProp_erase: "getProp (map eraseObj h) v slot = getProp h v slot"
  by (rule sameShape_getProp[OF sameShape_erase])

lemma lookupProp_erase: "lookupProp (map eraseObj h) v slot = lookupProp h v slot"
  by (rule sameShape_lookupProp[OF sameShape_erase])

lemma instanceOf_erase: "instanceOf (map eraseObj h) v f = instanceOf h v f"
  by (rule sameShape_instanceOf[OF sameShape_erase])

lemma generate_erase:
  "generateMock metadata callbacks refs (map eraseObj h)
     = apsnd (map eraseObj) (generateMock metadata callbacks refs h)"
  "generateSlots mock members callbacks refs (map eraseObj h)
     = apsnd (map eraseObj) (generateSlots mock members callbacks refs h)"
proof (induction metadata callbacks refs h and mock members callbacks refs h rule: generate_induct)
  case (Node metadata callbacks refs h)
  obtain r1 h1 where mk: "makeComponent metadata h = (r1, h1)" by (cases "makeComponent metadata h")
  have mk': "makeComponent metadata (map eraseObj h) = (r1, map eraseObj h1)"
    by (simp add: makeComponent_erase mk)
  show ?case
  proof (cases r1)
    case (Inl e)
    with mk mk' show ?thesis by (simp add: generateMock_unfold)
  next
    case (Inr mock)
    let ?refs1 = "(case md_refID metadata of None \<Rightarrow> refs | Some r \<Rightarrow> refs(r \<mapsto> mock))"
    obtain r2 h2 where sl: "generateSlots mock (md_members metadata) callbacks ?refs1 h1 = (r2, h2)"
      by (cases "generateSlots mock (md_members metadata) callbacks ?refs1 h1")
    have sl': "generateSlots mock (md_members metadata) callbacks ?refs1 (map eraseObj h1)
                 = (r2, map eraseObj h2)"
      using Node[OF mk[unfolded Inr]] sl by simp
    show ?thesis
      unfolding generateMock_unfold[of metadata callbacks refs h]
        generateMock_unfold[of metadata callbacks refs "map eraseObj h"] mk mk' Inr
      by (simp add: sl sl' getProp_erase setProp_erase split: sum.splits prod.splits)
  qed
next
  case (Nil mock callbacks refs h)
  show ?case by simp
next
  case (Cons mock slot slotMetadata rest callbacks refs h)
  show ?case
  proof (cases "md_ref slotMetadata")
    case (Some r)
    with Cons(1)[OF Some] show ?thesis by simp
  next
    case None
    obtain r1 h1 where gm: "generateMock slotMetadata callbacks refs h = (r1, h1)"
      by (cases "generateMock slotMetadata callbacks refs h")
    have gm': "generateMock slotMetadata callbacks refs (map eraseObj h) = (r1, map eraseObj h1)"
      using Cons(2)[OF None] gm by simp
    show ?thesis
    proof (cases r1)
      case (Inl e)
      with None gm gm' show ?thesis by simp
    next
      case (Inr res)
      obtain child callbacks1 refs1 where res: "res = (child, callbacks1, refs1)" by (cases res)
      show ?thesis
      proof (cases "setProp h1 mock slot child")
        case (Inl e)
        with None gm gm' \<open>r1 = Inr res\<close> res show ?thesis by (simp add: setProp_erase)
      next
        case (Inr h2)
        from Cons(3)[OF None gm[unfolded \<open>r1 = Inr res\<close> res] Inr]
        show ?thesis using None gm gm' \<open>r1 = Inr res\<close> res Inr by (simp add: setProp_erase)
      qed
    qed
  qed
qed

lemma runCallbacks_erase:
  "runCallbacks callbacks refs (map eraseObj h) = apsnd (map eraseObj) (runCallbacks callbacks refs h)"
proof (induction callbacks refs h rule: runCallbacks.induct)
  case (1 refs h)
  show ?case by simp
next
  case (2 mock slot r0 rest refs h)
  show ?case
  proof (cases "setProp h mock slot (case refs r0 of None \<Rightarrow> Undefined | Some v \<Rightarrow> v)")
    case (Inl e)
    then show ?thesis by (simp add: setProp_erase)
  next
    case (Inr h1)
    with "2.IH"[OF Inr] show ?thesis by (simp add: setProp_erase)
  qed
qed

lemma generateFromMetadata_erase:
  "generateFromMetadata metadata (map eraseObj h) = apsnd (map eraseObj) (generateFromMetadata metadata h)"
  by (simp add: generateFromMetadata_def generate_erase(1) runCallbacks_erase
        split: prod.splits sum.splits)

lemma copySlots_erase:
  "copySlots (map eraseObj h) this prototypeMd slots = apsnd (map eraseObj) (copySlots h this prototypeMd slots)"
proof (induction h this prototypeMd slots rule: copySlots.induct)
  case (1 h this prototypeMd)
  show ?case by simp
next
  case (2 h this prototypeMd slot rest)
  show ?case
  proof (cases "map_of prototypeMd slot")
    case None
    then show ?thesis by simp
  next
    case (Some slotMetadata)
    show ?thesis
    proof (cases "md_type slotMetadata = Some ''function''")
      case False
      with Some "2.IH"(2)[OF Some False] show ?thesis by simp
    next
      case True
      obtain r1 h1 where gf: "generateFromMetadata slotMetadata h = (r1, h1)"
        by (cases "generateFromMetadata slotMetadata h")
      have gf': "generateFromMetadata slotMetadata (map eraseObj h) = (r1, map eraseObj h1)"
        by (simp add: generateFromMetadata_erase gf)
      show ?thesis
      proof (cases r1)
        case (Inl e)
        with Some True gf gf' show ?thesis by simp
      next
        case (Inr m)
        show ?thesis
        proof (cases "setProp h1 this slot m")
          case (Inl e)
          with Some True gf gf' \<open>r1 = Inr m\<close> show ?thesis by (simp add: setProp_erase)
        next
          case h2: (Inr h2)
          show ?thesis
          proof (cases "setProp h2 (lookupProp h2 this slot) ''_protoImpl'' (lookupProp h this slot)")
            case (Inl e)
            with Some True gf gf' \<open>r1 = Inr m\<close> h2 show ?thesis
              by (simp add: setProp_erase lookupProp_erase)
          next
            case h3: (Inr h3)
            from "2.IH"(1)[OF Some True refl gf[symmetric] \<open>r1 = Inr m\<close> h2 h3]
            show ?thesis using Some True gf gf' \<open>r1 = Inr m\<close> h2 h3
              by (simp add: setProp_erase lookupProp_erase)
          qed
        qed
      qed
    qed
  qed
qed

lemma mockConstructor_noMock:
  "closureOf h f = None \<Longrightarrow> mockConstructor ap h f this args = Some (Inl TypeError, h)"
  by (simp add: mockConstructor_def updateMock_def)

lemma mockConstructor_throws:
  assumes "closureOf h f = Some ms" and "instanceOf h this (Ref f) = Inl e"
  shows "mockConstructor ap h f this args = Some (Inl e, recordCall h f this args)"
proof -
  have "instanceOf (recordCall h f this args) this (Ref f) = Inl e"
    using sameShape_instanceOf[OF sameShape_recordCall] assms(2) by simp
  then show ?thesis
    using assms(1)
    by (simp add: mockConstructor_def recordCall_def[symmetric] closureOf_recordCall)
qed

lemma mockConstructor_construct:
  assumes "closureOf h f = Some ms" and "instanceOf h this (Ref f) = Inr True"
  shows "mockConstructor ap h f this args =
     (case copySlots (recordCall h f this args) this (prototype ms) (prototypeSlots ms) of
        (Inl e, h3) \<Rightarrow> Some (Inl e, h3)
      | (Inr u, h3) \<Rightarrow>
          if truthy (mockImpl ms) then ap h3 (mockImpl ms) this args
          else Some (Inr (mockImpl ms), h3))"
proof -
  have "instanceOf (recordCall h f this args) this (Ref f) = Inr True"
    using sameShape_instanceOf[OF sameShape_recordCall] assms(2) by simp
  then show ?thesis
    using assms(1)
    by (simp add: mockConstructor_def recordCall_def[symmetric] closureOf_recordCall
          split: prod.splits sum.splits)
qed

lemma eraseLedger_eq:
  "eraseLedger ms1 = eraseLedger ms2 \<Longrightarrow>
     isReturnValueLastSet ms1 = isReturnValueLastSet ms2 \<and> defaultReturnValue ms1 = defaultReturnValue ms2
     \<and> mockImpl ms1 = mockImpl ms2 \<and> specificReturnValues ms1 = specificReturnValues ms2
     \<and> specificMockImpls ms1 = specificMockImpls ms2 \<and> prototype ms1 = prototype ms2
     \<and> prototypeSlots ms1 = prototypeSlots ms2"
  by (cases ms1; cases ms2) (simp add: eraseLedger_def)

lemma erase_updateMock:
  assumes "\<And>ms. eraseLedger (g ms) = g' (eraseLedger ms)"
  shows "map eraseObj (updateMock h f g) = updateMock (map eraseObj h) f g'"
proof (cases "closureOf h f")
  case None
  then show ?thesis by (simp add: updateMock_def closureOf_erase)
next
  case (Some ms)
  then have f: "f < length h" by (auto simp: closureOf_def lookupObj_def split: if_splits)
  have c: "closure (h ! f) = Some ms" using Some f by (simp add: closureOf_def lookupObj_def)
  have "eraseObj ((h ! f)\<lparr>closure := Some (g ms)\<rparr>) = (eraseObj (h ! f))\<lparr>closure := Some (g' (eraseLedger ms))\<rparr>"
    by (cases "h ! f") (simp add: eraseObj_def assms)
  then show ?thesis
    using Some f by (simp add: updateMock_def closureOf_erase setClosure_def map_update)
qed

lemma updateMock_ident: "updateMock h f (\<lambda>ms. ms) = h"
  by (auto simp: updateMock_def setClosure_def closureOf_def lookupObj_def list_update_same_conv
      split: option.splits if_splits)

lemma erase_recordCall: "map eraseObj (recordCall h f this args) = map eraseObj h"
proof -
  have "map eraseObj (recordCall h f this args) = updateMock (updateMock (map eraseObj h) f (\<lambda>ms. ms)) f (\<lambda>ms. ms)"
    unfolding recordCall_def
    by (simp add: erase_updateMock[where g' = "\<lambda>ms. ms"] eraseLedger_def)
  then show ?thesis by (simp add: updateMock_ident)
qed

lemma erase_config:
  "map eraseObj (updateMock h f (\<lambda>m. m\<lparr>specificReturnValues := q\<rparr>))
     = updateMock (map eraseObj h) f (\<lambda>m. m\<lparr>specificReturnValues := q\<rparr>)"
  "map eraseObj (updateMock h f (\<lambda>m. m\<lparr>specificMockImpls := q\<rparr>))
     = updateMock (map eraseObj h) f (\<lambda>m. m\<lparr>specificMockImpls := q\<rparr>)"
  by (rule erase_updateMock; simp add: eraseLedger_def)+

lemma sameButLedgers_refl: "sameButLedgers h h"
  by (simp add: sameButLedgers_def)

lemma mockConstructor_sim:
  assumes eq: "sameButLedgers h1 h2"
    and ap: "\<And>ha hb fn t as. sameButLedgers ha hb \<Longrightarrow> sameOutcome (ap ha fn t as) (ap hb fn t as)"
  shows "sameOutcome (mockConstructor ap h1 f this args) (mockConstructor ap h2 f this args)"
proof -
  have E: "map eraseObj h1 = map eraseObj h2" using eq by (simp add: sameButLedgers_def)
  have cl: "map_option eraseLedger (closureOf h1 f) = map_option eraseLedger (closureOf h2 f)"
    using closureOf_erase[of h1 f] closureOf_erase[of h2 f] E by simp
  have io: "instanceOf h1 this (Ref f) = instanceOf h2 this (Ref f)"
    using instanceOf_erase[of h1] instanceOf_erase[of h2] E by simp
  have lp: "\<And>s. lookupProp h1 (Ref f) s = lookupProp h2 (Ref f) s"
    using lookupProp_erase[of h1] lookupProp_erase[of h2] E by simp
  let ?H1 = "recordCall h1 f this args" and ?H2 = "recordCall h2 f this args"
  have EH: "map eraseObj ?H1 = map eraseObj ?H2" using E by (simp add: erase_recordCall)
  show ?thesis
  proof (cases "closureOf h1 f")
    case None
    then have "closureOf h2 f = None" using cl by simp
    with None eq show ?thesis by (simp add: mockConstructor_noMock sameOutcome_def)
  next
    case (Some ms1)
    then obtain ms2 where ms2: "closureOf h2 f = Some ms2" and e12: "eraseLedger ms1 = eraseLedger ms2"
      using cl by (cases "closureOf h2 f") auto
    note cfg = eraseLedger_eq[OF e12]
    show ?thesis
    proof (cases "instanceOf h1 this (Ref f)")
      case (Inl e)
      then show ?thesis
        using Some ms2 io EH
        by (simp add: mockConstructor_throws sameOutcome_def sameButLedgers_def)
    next
      case (Inr b)
      show ?thesis
      proof (cases b)
        case True
        obtain r3 h3 where c1: "copySlots ?H1 this (prototype ms1) (prototypeSlots ms1) = (r3, h3)"
          by (cases "copySlots ?H1 this (prototype ms1) (prototypeSlots ms1)")
        obtain r4 h4 where c2: "copySlots ?H2 this (prototype ms2) (prototypeSlots ms2) = (r4, h4)"
          by (cases "copySlots ?H2 this (prototype ms2) (prototypeSlots ms2)")
        have "apsnd (map eraseObj) (r3, h3) = apsnd (map eraseObj) (r4, h4)"
          using copySlots_erase[of ?H1 this "prototype ms1" "prototypeSlots ms1"]
            copySlots_erase[of ?H2 this "prototype ms2" "prototypeSlots ms2"] c1 c2 EH cfg
          by simp
        then have r: "r3 = r4" and h: "sameButLedgers h3 h4" by (simp_all add: sameButLedgers_def)
        show ?thesis
          using Some ms2 Inr True io c1 c2 r h cfg ap[OF h]
          by (simp add: mockConstructor_construct sameOutcome_def split: sum.splits)
      next
        case False
        have p1: "instanceOf h1 this (Ref f) = Inr False" using Inr False by simp
        have p2: "instanceOf h2 this (Ref f) = Inr False" using p1 io by simp
        let ?R1 = "updateMock ?H1 f (\<lambda>m. m\<lparr>specificReturnValues := tl (specificReturnValues ms1)\<rparr>)"
        let ?R2 = "updateMock ?H2 f (\<lambda>m. m\<lparr>specificReturnValues := tl (specificReturnValues ms2)\<rparr>)"
        have ER: "sameButLedgers ?R1 ?R2"
          using EH cfg by (simp add: sameButLedgers_def erase_config)
        have EI: "\<And>ha hb. sameButLedgers ha hb \<Longrightarrow>
            sameButLedgers (updateMock ha f (\<lambda>m. m\<lparr>specificMockImpls := tl (specificMockImpls ms1)\<rparr>))
                           (updateMock hb f (\<lambda>m. m\<lparr>specificMockImpls := tl (specificMockImpls ms2)\<rparr>))"
          using cfg by (simp add: sameButLedgers_def erase_config)
        have EHs: "sameButLedgers ?H1 ?H2" using EH by (simp add: sameButLedgers_def)
        have lpa: "\<And>ha hb s. sameButLedgers ha hb \<Longrightarrow> lookupProp ha (Ref f) s = lookupProp hb (Ref f) s"
          using lookupProp_erase by (metis sameButLedgers_def)
        have fam: "returnValueFamily ms1 = returnValueFamily ms2"
                  "implementationFamily ms1 = implementationFamily ms2"
          using cfg by (simp_all add: returnValueFamily_def implementationFamily_def split: list.splits)
        have ui: "\<And>ha hb. sameButLedgers ha hb \<Longrightarrow>
            sameOutcome (useImplementation ap ha f ms1 this args) (useImplementation ap hb f ms2 this args)"
        proof -
          fix ha hb assume s: "sameButLedgers ha hb"
          show "sameOutcome (useImplementation ap ha f ms1 this args) (useImplementation ap hb f ms2 this args)"
            using ap[OF EI[OF s]] EI[OF s] lpa[OF s] fam
            by (simp add: useImplementation_def Let_def sameOutcome_def)
        qed
        show ?thesis
          unfolding mockConstructor_plain[OF Some p1] mockConstructor_plain[OF ms2 p2]
          using cfg fam ER ui[OF ER] ui[OF EHs]
          by (simp add: sameOutcome_def)
      qed
    qed
  qed
qed

lemma applyFn_sim:
  "sameButLedgers h1 h2 \<Longrightarrow> sameOutcome (applyFn n fenv h1 fn this args) (applyFn n fenv h2 fn this args)"
proof (induction n arbitrary: h1 h2 fn this args)
  case 0
  show ?case by (simp add: sameOutcome_def)
next
  case (Suc n)
  have E: "map eraseObj h1 = map eraseObj h2" using Suc.prems by (simp add: sameButLedgers_def)
  show ?case
  proof (cases fn)
    case (Ref a)
    have lo: "map_option eraseObj (lookupObj h1 a) = map_option eraseObj (lookupObj h2 a)"
      using lookupObj_erase[of h1 a] lookupObj_erase[of h2 a] E by simp
    show ?thesis
    proof (cases "lookupObj h1 a")
      case None
      then have "lookupObj h2 a = None" using lo by simp
      with None Ref Suc.prems show ?thesis by (simp add: sameOutcome_def)
    next
      case (Some ob1)
      then obtain ob2 where ob2: "lookupObj h2 a = Some ob2" and e: "eraseObj ob1 = eraseObj ob2"
        using lo by (cases "lookupObj h2 a") auto
      have c: "cls ob1 = cls ob2" using e eraseObj_simps(1) by metis
      have cl: "map_option eraseLedger (closure ob1) = map_option eraseLedger (closure ob2)"
        using e eraseObj_simps(4) by metis
      show ?thesis
      proof (cases "closure ob1")
        case None
        then have "closure ob2 = None" using cl by simp
        with None Ref Some ob2 c Suc.prems show ?thesis by (simp add: sameOutcome_def)
      next
        case (Some ms1)
        then obtain ms2 where ms2: "closure ob2 = Some ms2" using cl by (cases "closure ob2") auto
        have "sameOutcome (mockConstructor (applyFn n fenv) h1 a this args)
                          (mockConstructor (applyFn n fenv) h2 a this args)"
          by (rule mockConstructor_sim[OF Suc.prems]) (rule Suc.IH)
        moreover have "applyFn (Suc n) fenv h1 fn this args =
            (if cls ob1 = ''Function'' then mockConstructor (applyFn n fenv) h1 a this args
             else Some (Inl TypeError, h1))"
          using Ref \<open>lookupObj h1 a = Some ob1\<close> Some by simp
        moreover have "applyFn (Suc n) fenv h2 fn this args =
            (if cls ob1 = ''Function'' then mockConstructor (applyFn n fenv) h2 a this args
             else Some (Inl TypeError, h2))"
          using Ref ob2 ms2 c by simp
        ultimately show ?thesis using Suc.prems by (simp add: sameOutcome_def)
      qed
    qed
  qed (simp_all add: sameOutcome_def Suc.prems)
qed

lemma erase_mockClear: "map eraseObj (mockClear h f) = map eraseObj h"
proof -
  have "map eraseObj (mockClear h f) = updateMock (updateMock (map eraseObj h) f (\<lambda>ms. ms)) f (\<lambda>ms. ms)"
    unfolding mockClear_def
    by (simp add: erase_updateMock[where g' = "\<lambda>ms. ms"] eraseLedger_def)
  then show ?thesis by (simp add: updateMock_ident)
qed

text \<open>
  Claim C9. \<^verbatim>\<open>mockClear\<close> empties \<^verbatim>\<open>calls\<close> and \<^verbatim>\<open>instances\<close> of the callable and
  leaves every other field of its mock record, its members (the template implementation
  \<^verbatim>\<open>_protoImpl\<close> among them) and every other object as they were; the next call of any
  function, this callable among them, has the same outcome as without the clearing.
\<close>

theorem mockClear_frame:
  assumes "closureOf h f = Some ms"
  shows "closureOf (mockClear h f) f = Some (ms\<lparr>calls := [], instances := []\<rparr>)
     \<and> sameShape h (mockClear h f)
     \<and> (\<forall>a. a \<noteq> f \<longrightarrow> lookupObj (mockClear h f) a = lookupObj h a)
     \<and> sameOutcome (applyFn n fenv (mockClear h f) fn this args) (applyFn n fenv h fn this args)"
proof -
  have a: "closureOf (mockClear h f) f = Some (ms\<lparr>calls := [], instances := []\<rparr>)"
    using assms by (simp add: mockClear_def closureOf_updateMock)
  have b: "sameShape h (mockClear h f)"
    unfolding mockClear_def by (meson sameShape_trans sameShape_updateMock)
  have c: "\<forall>a. a \<noteq> f \<longrightarrow> lookupObj (mockClear h f) a = lookupObj h a"
    by (auto simp: mockClear_def updateMock_def setClosure_def lookupObj_def split: option.splits)
  have d: "sameOutcome (applyFn n fenv (mockClear h f) fn this args) (applyFn n fenv h fn this args)"
    by (rule applyFn_sim) (simp add: sameButLedgers_def erase_mockClear)
  show ?thesis using a b c d by blast
qed

lemma mockConstructor_returns:
  assumes "\<And>h1 fn t as. ap h1 fn t as \<noteq> None"
  shows "mockConstructor ap h f this args \<noteq> None"
proof (cases "closureOf h f")
  case None
  then show ?thesis by (simp add: mockConstructor_noMock)
next
  case (Some ms)
  show ?thesis
  proof (cases "instanceOf h this (Ref f)")
    case (Inl e)
    with Some show ?thesis by (simp add: mockConstructor_throws)
  next
    case (Inr b)
    show ?thesis
    proof (cases b)
      case True
      with Some Inr assms show ?thesis
        by (simp add: mockConstructor_construct split: prod.splits sum.splits)
    next
      case False
      with Some Inr assms show ?thesis
        by (simp add: mockConstructor_plain useImplementation_def Let_def)
    qed
  qed
qed

text \<open>
  Claim C8. Every call of the callable at \<open>f\<close> that returns or throws, plain or in
  constructor style, leaves \<^verbatim>\<open>calls\<close> with the argument list appended and \<^verbatim>\<open>instances\<close>
  with the receiver appended, provided the functions that the call runs leave the ledger
  of \<open>f\<close> alone (they do not call or clear this mock again); after a sequence of calls the
  ledger holds their argument lists and their receivers in the order of the calls. The
  call returns whenever the functions it runs do.
\<close>

theorem ledger_records_every_call:
  assumes "closureOf h f = Some ms"
    and "\<forall>h1 fn t as r h2. ap h1 fn t as = Some (r, h2) \<longrightarrow> mockLedger h2 f = mockLedger h1 f"
  shows "(\<forall>this args r h'. mockConstructor ap h f this args = Some (r, h') \<longrightarrow>
            mockLedger h' f = Some (calls ms @ [args], instances ms @ [this]))
     \<and> (\<forall>xs h'. invokeAll ap h f xs = Some h' \<longrightarrow>
            mockLedger h' f = Some (calls ms @ map snd xs, instances ms @ map fst xs))
     \<and> ((\<forall>h1 fn t as. ap h1 fn t as \<noteq> None) \<longrightarrow>
            (\<forall>this args. mockConstructor ap h f this args \<noteq> None))"
  using mockConstructor_ledger[OF assms] invokeAll_ledger[OF assms(2) assms(1)]
    mockConstructor_returns[of ap h f]
  by blast

text \<open>The theorem at three calls of the bare mock.\<close>

theorem ledger_records_every_call_witness:
  "closureOf mockHeap 6 = Some (the (closureOf mockHeap 6))
   \<and> invokeAll (callOutside answer) mockHeap 6
        [(Undefined, [Num 1]), (Ref 0, [Num 2, Num 3]), (Undefined, [])] \<noteq> None
   \<and> mockLedger (the (invokeAll (callOutside answer) mockHeap 6
        [(Undefined, [Num 1]), (Ref 0, [Num 2, Num 3]), (Undefined, [])])) 6
      = Some ([[Num 1], [Num 2, Num 3], []], [Undefined, Ref 0, Undefined])"
proof -
  let ?xs = "[(Undefined, [Num 1]), (Ref 0, [Num 2, Num 3]), (Undefined, [])]"
  have c: "closureOf mockHeap 6 = Some (the (closureOf mockHeap 6))" by code_simp
  have a: "\<forall>h1 fn t as r h2. callOutside answer h1 fn t as = Some (r, h2) \<longrightarrow>
             mockLedger h2 6 = mockLedger h1 6"
    by (auto simp: callOutside_def split: val.splits)
  have e: "invokeAll (callOutside answer) mockHeap 6 ?xs
             = Some (the (invokeAll (callOutside answer) mockHeap 6 ?xs))" by code_simp
  have n: "calls (the (closureOf mockHeap 6)) = []" "instances (the (closureOf mockHeap 6)) = []"
    by code_simp+
  from ledger_records_every_call[OF c a] e
  have "mockLedger (the (invokeAll (callOutside answer) mockHeap 6 ?xs)) 6
          = Some (calls (the (closureOf mockHeap 6)) @ map snd ?xs,
                  instances (the (closureOf mockHeap 6)) @ map fst ?xs)"
    by blast
  then have fin: "mockLedger (the (invokeAll (callOutside answer) mockHeap 6 ?xs)) 6
          = Some ([[Num 1], [Num 2, Num 3], []], [Undefined, Ref 0, Undefined])"
    using n by (simp del: invokeAll.simps)
  have ne: "invokeAll (callOutside answer) mockHeap 6 ?xs \<noteq> None"
    using e by (metis option.distinct(1))
  show ?thesis using c ne fin by blast
qed

text \<open>
  The theorem at the bare mock with a persistent return value 1 and one recorded call.
\<close>

theorem mockClear_frame_witness:
  "closureOf (recordCall (mockReturnValue mockHeap 6 (Num 1)) 6 Undefined [Num 7]) 6
     = Some (the (closureOf (recordCall (mockReturnValue mockHeap 6 (Num 1)) 6 Undefined [Num 7]) 6))
   \<and> mockLedger (recordCall (mockReturnValue mockHeap 6 (Num 1)) 6 Undefined [Num 7]) 6
       = Some ([[Num 7]], [Undefined])
   \<and> mockLedger (mockClear (recordCall (mockReturnValue mockHeap 6 (Num 1)) 6 Undefined [Num 7]) 6) 6
       = Some ([], [])
   \<and> map_option fst (applyFn 2 answer
        (mockClear (recordCall (mockReturnValue mockHeap 6 (Num 1)) 6 Undefined [Num 7]) 6)
        (Ref 6) Undefined []) = Some (Inr (Num 1))"
proof -
  let ?h = "recordCall (mockReturnValue mockHeap 6 (Num 1)) 6 Undefined [Num 7]"
  have c: "closureOf ?h 6 = Some (the (closureOf ?h 6))" by code_simp
  have l: "mockLedger ?h 6 = Some ([[Num 7]], [Undefined])" by code_simp
  have r: "map_option fst (applyFn 2 answer ?h (Ref 6) Undefined []) = Some (Inr (Num 1))"
    by code_simp
  note t = mockClear_frame[OF c, of 2 answer "Ref 6" Undefined "[]"]
  from t have l': "mockLedger (mockClear ?h 6) 6 = Some ([], [])"
    by (simp add: mockLedger_def)
  from t have "sameOutcome (applyFn 2 answer (mockClear ?h 6) (Ref 6) Undefined [])
                 (applyFn 2 answer ?h (Ref 6) Undefined [])" by blast
  with r have "map_option fst (applyFn 2 answer (mockClear ?h 6) (Ref 6) Undefined []) = Some (Inr (Num 1))"
    by (auto simp: sameOutcome_def split: option.splits)
  with c l l' show ?thesis by simp
qed

section \<open>Deferred binding restores shared identity\<close>





lemma generateSlots_grows: "generateSlots mock members callbacks refs h = (r, h') \<Longrightarrow> grows h h'"
  using generate_grows(2) by blast







lemma lookupProp_own:
  "a < length h \<Longrightarrow> map_of (props (h ! a)) s = Some p \<Longrightarrow> lookupProp h (Ref a) s = propValue p"
  by (cases "length h") (simp_all add: lookupProp_def lookupObj_def)





section \<open>The identity table of the extractor\<close>

lemma update_absent: "k \<notin> fst ` set al \<Longrightarrow> AList.update k v al = al @ [(k, v)]"
  by (induction al) auto

lemma map_of_append_Some: "map_of xs k = Some v \<Longrightarrow> map_of (xs @ ys) k = Some v"
  by (simp add: map_add_Some_iff)

lemma map_of_None_keys: "map_of xs k = None \<Longrightarrow> k \<notin> fst ` set xs"
  by (simp add: map_of_eq_None_iff)

lemma wfTable_register:
  assumes "wfTable h refs" and "map_of refs c = None" and "registrable h c"
  shows "wfTable h (refs @ [(c, length refs)])"
  using assms by (auto simp: wfTable_def dest: map_of_None_keys)

lemma describes_mono: "describes h refs c md \<Longrightarrow> describes h (refs @ new) c md"
proof (induction h refs c md rule: describes.induct)
  case (1 h refs c rf members mi nm refID ty vl)
  show ?case
  proof (cases rf)
    case (Some r)
    with "1.prems" show ?thesis by (simp add: map_of_append_Some)
  next
    case None
    show ?thesis
    proof (cases refID)
      case (Some r)
      with None "1.prems" "1.IH"[OF None Some] show ?thesis
        by (auto simp: map_of_append_Some)
    next
      case N: None
      with None "1.prems" show ?thesis by simp
    qed
  qed
qed

lemma describes_seen: "describes h refs c md \<Longrightarrow> seen h refs c"
  by (cases md) (auto simp: seen_def registrable_def split: option.splits)

lemma seen_mono: "seen h refs v \<Longrightarrow> seen h (refs @ new) v"
  by (auto simp: seen_def dest: map_of_append_Some)

lemma describes_backReference [simp]: "describes h refs c (backReference r) = (map_of refs c = Some r)"
  by (simp add: backReference_def)

lemma describes_leafNode [simp]:
  "describes h refs c (leafNode ty v) = (v = c \<and> isLeafType ty \<and> getType h c = Some ty)"
  by (simp add: leafNode_def)

lemma describes_fullNode [simp]:
  "describes h refs c (fullNode ty mi nm refID members) =
     (map_of refs c = Some refID
      \<and> (\<forall>sm \<in> set members. describes h refs (lookupProp h c (fst sm)) (snd sm)))"
  by (simp add: fullNode_def)

lemma regIDs_nodes [simp]:
  "regIDs (backReference r) = []" "regIDs (leafNode ty v) = []"
  "regIDs (fullNode ty mi nm refID members) = refID # memberIDs members"
  by (simp_all add: backReference_def leafNode_def fullNode_def memberIDs_def)

lemma md_ref_nodes [simp]:
  "md_ref (backReference r) = Some r" "md_ref (leafNode ty v) = None"
  "md_ref (fullNode ty mi nm refID members) = None"
  "md_members (backReference r) = []" "md_members (leafNode ty v) = []"
  "md_members (fullNode ty mi nm refID members) = members"
  by (simp_all add: backReference_def leafNode_def fullNode_def)

lemma memberIDs_simps [simp]:
  "memberIDs [] = []"
  "memberIDs (ms @ [(s, m)]) = memberIDs ms @ (if md_ref m = None then regIDs m else [])"
  by (simp_all add: memberIDs_def)

lemma prototypesEnumerated_append [simp]:
  "prototypesEnumerated fenv h (a @ b) = (prototypesEnumerated fenv h a \<and> prototypesEnumerated fenv h b)"
  by (auto simp: prototypesEnumerated_def)

lemma prototypesEnumerated_Cons [simp]:
  "prototypesEnumerated fenv h (e # es) =
     ((getType h (fst e) = Some ''function'' \<longrightarrow> prototypeEnumerated fenv h (fst e))
      \<and> prototypesEnumerated fenv h es)"
  by (auto simp: prototypesEnumerated_def)

lemma upt_join: "a \<le> b \<Longrightarrow> b \<le> c \<Longrightarrow> [a..<b] @ [b..<c] = [a..<c]"
  by (metis le_Suc_ex upt_add_eq_append)

lemma seen_extract:
  assumes "seen h refs v" and "extractNode n fenv h v refs = Some (Inr r, refs')"
  shows "refs' = refs \<and> (case r of None \<Rightarrow> True | Some p \<Rightarrow> md_members p = [])"
proof (cases n)
  case 0
  with assms(2) show ?thesis by simp
next
  case (Suc k)
  show ?thesis
  proof (cases "map_of refs v")
    case (Some i)
    with assms(2) Suc show ?thesis by auto
  next
    case None
    with assms(1) have nr: "\<not> registrable h v" by (simp add: seen_def)
    show ?thesis
    proof (cases "getType h v")
      case N: None
      with None assms(2) Suc show ?thesis by auto
    next
      case (Some ty)
      with nr have "isLeafType ty" by (simp add: registrable_def)
      with None Some assms(2) Suc show ?thesis by auto
    qed
  qed
qed

lemma extract_Suc_full:
  assumes "map_of refs c = None" and "getType h c = Some ty" and "\<not> isLeafType ty"
    and "implTest fenv h c ty = Inr mi"
  shows "extractNode (Suc n) fenv h c refs =
     (if ty = ''array'' then
        Some (Inr (Some (fullNode ty mi (if ty = ''function'' then lookupProp h c ''name'' else Undefined)
                           (length refs) [])),
              AList.update c (length refs) refs)
      else
        (case extractSlots n fenv h c ty (getSlots h c) [] (AList.update c (length refs) refs) of
           None \<Rightarrow> None
         | Some (Inl e, refs2) \<Rightarrow> Some (Inl e, refs2)
         | Some (Inr members, refs2) \<Rightarrow>
             (if ty = ''function'' \<and> truthy (lookupProp h c ''prototype'') then
                (case extractNode n fenv h (lookupProp h c ''prototype'') refs2 of
                   None \<Rightarrow> None
                 | Some (Inl e, refs3) \<Rightarrow> Some (Inl e, refs3)
                 | Some (Inr pm, refs3) \<Rightarrow>
                     Some (Inr (Some (fullNode ty mi
                                  (if ty = ''function'' then lookupProp h c ''name'' else Undefined)
                                  (length refs) (addPrototype members pm))), refs3))
              else Some (Inr (Some (fullNode ty mi
                                  (if ty = ''function'' then lookupProp h c ''name'' else Undefined)
                                  (length refs) members)), refs2))))"
  using assms by (simp add: Let_def)

lemma extract_SucE:
  assumes "extractNode (Suc n) fenv h c refs = Some (Inr r, refs')"
  obtains
    (Back) i where "map_of refs c = Some i" "r = Some (backReference i)" "refs' = refs"
  | (Null) "map_of refs c = None" "getType h c = None" "r = None" "refs' = refs"
  | (Leaf) ty where "map_of refs c = None" "getType h c = Some ty" "isLeafType ty"
      "r = Some (leafNode ty c)" "refs' = refs"
  | (Array) mi nm where "map_of refs c = None" "getType h c = Some ''array''"
      "r = Some (fullNode ''array'' mi nm (length refs) [])"
      "refs' = AList.update c (length refs) refs"
  | (NoProto) ty mi nm members where "map_of refs c = None" "getType h c = Some ty" "\<not> isLeafType ty"
      "extractSlots n fenv h c ty (getSlots h c) [] (AList.update c (length refs) refs)
         = Some (Inr members, refs')"
      "r = Some (fullNode ty mi nm (length refs) members)"
      "\<not> (ty = ''function'' \<and> truthy (lookupProp h c ''prototype''))"
  | (Proto) mi nm members refs2 pm where "map_of refs c = None" "getType h c = Some ''function''"
      "extractSlots n fenv h c ''function'' (getSlots h c) [] (AList.update c (length refs) refs)
         = Some (Inr members, refs2)"
      "truthy (lookupProp h c ''prototype'')"
      "extractNode n fenv h (lookupProp h c ''prototype'') refs2 = Some (Inr pm, refs')"
      "r = Some (fullNode ''function'' mi nm (length refs) (addPrototype members pm))"
proof (cases "map_of refs c")
  case (Some i)
  from assms Some have "r = Some (backReference i)" "refs' = refs" by simp_all
  with Some show ?thesis by (rule Back)
next
  case None
  show ?thesis
  proof (cases "getType h c")
    case N: None
    from assms None N have "r = None" "refs' = refs" by simp_all
    with None N show ?thesis by (rule Null)
  next
    case (Some ty)
    show ?thesis
    proof (cases "isLeafType ty")
      case True
      from assms None Some True have "r = Some (leafNode ty c)" "refs' = refs" by simp_all
      with None Some True show ?thesis by (rule Leaf)
    next
      case False
      from None Some False assms obtain mi where mi: "implTest fenv h c ty = Inr mi"
        by (cases "implTest fenv h c ty") simp_all
      let ?nm = "(if ty = ''function'' then lookupProp h c ''name'' else Undefined)"
      let ?refs1 = "AList.update c (length refs) refs"
      note eq = assms[unfolded extract_Suc_full[OF None Some False mi]]
      show ?thesis
      proof (cases "ty = ''array''")
        case True
        with eq have "r = Some (fullNode ''array'' mi ?nm (length refs) [])" "refs' = ?refs1"
          by simp_all
        with None Some[unfolded True] show ?thesis by (rule Array)
      next
        case na: False
        obtain x where x: "extractSlots n fenv h c ty (getSlots h c) [] ?refs1 = x" by simp
        from eq na x obtain members refs2 where sl: "x = Some (Inr members, refs2)"
          by (cases x; simp split: prod.splits sum.splits)
        show ?thesis
        proof (cases "ty = ''function'' \<and> truthy (lookupProp h c ''prototype'')")
          case True
          obtain y where y: "extractNode n fenv h (lookupProp h c ''prototype'') refs2 = y" by simp
          from True have tf: "ty = ''function''" and tp: "truthy (lookupProp h c ''prototype'')"
            by simp_all
          from eq na x sl True y obtain pm where
            yy: "y = Some (Inr pm, refs')"
            and rr: "r = Some (fullNode ''function'' mi ?nm (length refs) (addPrototype members pm))"
            by (cases y; simp split: prod.splits sum.splits)
          show ?thesis
            by (rule Proto[OF None Some[unfolded tf] x[unfolded sl tf] tp y[unfolded yy] rr])
        next
          case np: False
          from eq na x sl np have
            r2: "refs' = refs2" and rr: "r = Some (fullNode ty mi ?nm (length refs) members)"
            by auto
          show ?thesis
            by (rule NoProto[OF None Some False x[unfolded sl r2[symmetric]] rr np])
        qed
      qed
    qed
  qed
qed

lemma extractSlots_ConsE:
  assumes "extractSlots n fenv h c ty (slot # rest) members refs = Some (Inr members', refs')"
  obtains
    (Skip) "slotSkipped h c ty slot \<or> slotTest fenv h c ty slot = Inr False"
      "extractSlots n fenv h c ty rest members refs = Some (Inr members', refs')"
  | (Visit) sm refs1 where "\<not> slotSkipped h c ty slot" "slotTest fenv h c ty slot = Inr True"
      "extractNode n fenv h (lookupProp h c slot) refs = Some (Inr sm, refs1)"
      "extractSlots n fenv h c ty rest
         (case sm of None \<Rightarrow> members | Some m \<Rightarrow> AList.update slot m members) refs1
         = Some (Inr members', refs')"
proof (cases "slotSkipped h c ty slot")
  case True
  with assms have "extractSlots n fenv h c ty rest members refs = Some (Inr members', refs')"
    by simp
  with True show ?thesis by (intro Skip) simp_all
next
  case ns: False
  show ?thesis
  proof (cases "slotTest fenv h c ty slot")
    case (Inl e)
    with ns assms show ?thesis by simp
  next
    case (Inr included)
    show ?thesis
    proof (cases included)
      case False
      with ns Inr assms have "extractSlots n fenv h c ty rest members refs = Some (Inr members', refs')"
        by simp
      with Inr False show ?thesis by (intro Skip) simp_all
    next
      case True
      with Inr have inc: "slotTest fenv h c ty slot = Inr True" by simp
      obtain y where y: "extractNode n fenv h (lookupProp h c slot) refs = y" by simp
      from ns inc assms y obtain sm refs1 where
        yy: "y = Some (Inr sm, refs1)"
        and rest: "extractSlots n fenv h c ty rest
             (case sm of None \<Rightarrow> members | Some m \<Rightarrow> AList.update slot m members) refs1
             = Some (Inr members', refs')"
        by (cases y; simp split: prod.splits sum.splits)
      show ?thesis by (rule Visit[OF ns inc y[unfolded yy] rest])
    qed
  qed
qed

lemma distinct_objectKeys: "distinct names \<Longrightarrow> distinct (objectKeys names)"
  by (auto simp: objectKeys_def)

lemma set_objectKeys [simp]: "set (objectKeys names) = set names"
  by (auto simp: objectKeys_def)

lemma distinct_addOwnSlots: "distinct slots \<Longrightarrow> distinct (addOwnSlots h object ps slots)"
  by (induction h object ps slots rule: addOwnSlots.induct) auto

lemma distinct_getSlotsLoop: "distinct slots \<Longrightarrow> distinct (getSlotsLoop n h object slots)"
  by (induction n h object slots rule: getSlotsLoop.induct) (auto simp: Let_def distinct_addOwnSlots)

lemma distinct_getSlots: "distinct (getSlots h object)"
  by (simp add: getSlots_def distinct_getSlotsLoop distinct_objectKeys)

lemma set_update_subset: "set (AList.update k v al) \<subseteq> insert (k, v) (set al)"
  by (induction al) auto

lemma slots_inv:
  assumes IH: "\<And>c refs r refs'. extractNode n fenv h c refs = Some (Inr r, refs') \<Longrightarrow> wfTable h refs \<Longrightarrow>
                 extractPost fenv h c refs r refs'"
  shows "extractSlots n fenv h c ty slots members refs = Some (Inr members', refs') \<Longrightarrow>
         wfTable h refs \<Longrightarrow> distinct slots \<Longrightarrow> fst ` set members \<inter> set slots = {} \<Longrightarrow>
         (\<forall>sm \<in> set members. describes h refs (lookupProp h c (fst sm)) (snd sm)) \<Longrightarrow>
         slotsPost fenv h c ty slots members refs members' refs'"
proof (induction slots arbitrary: members refs)
  case Nil
  then show ?case by (simp add: slotsPost_def)
next
  case (Cons slot rest)
  from Cons.prems(3) have dr: "distinct rest" and nr: "slot \<notin> set rest" by simp_all
  from Cons.prems(4) have k0: "slot \<notin> fst ` set members" and kr: "fst ` set members \<inter> set rest = {}"
    by auto
  from Cons.prems(1) show ?case
  proof (cases rule: extractSlots_ConsE)
    case Skip
    from Cons.IH[OF Skip(2) Cons.prems(2) dr kr Cons.prems(5)]
    have "slotsPost fenv h c ty rest members refs members' refs'" .
    with Skip(1) show ?thesis by (auto simp: slotsPost_def)
  next
    case (Visit sm refs1)
    let ?v = "lookupProp h c slot"
    let ?members1 = "(case sm of None \<Rightarrow> members | Some m \<Rightarrow> AList.update slot m members)"
    from IH[OF Visit(3) Cons.prems(2)] have P: "extractPost fenv h ?v refs sm refs1" .
    then obtain new1 where n1: "refs1 = refs @ new1" and w1: "wfTable h refs1"
      by (auto simp: extractPost_def)
    have m1: "?members1 = (case sm of None \<Rightarrow> members | Some m \<Rightarrow> members @ [(slot, m)])"
      using k0 by (simp add: update_absent split: option.splits)
    have k1: "fst ` set ?members1 \<inter> set rest = {}"
      unfolding m1 using kr nr by (auto split: option.splits)
    have d1: "\<forall>sm \<in> set ?members1. describes h refs1 (lookupProp h c (fst sm)) (snd sm)"
      unfolding m1 using Cons.prems(5) P n1
      by (auto simp: extractPost_def describes_mono split: option.splits)
    from Cons.IH[OF Visit(4) w1 dr k1 d1]
    have Q: "slotsPost fenv h c ty rest ?members1 refs1 members' refs'" .
    then obtain new2 where n2: "refs' = refs1 @ new2" and w2: "wfTable h refs'"
      by (auto simp: slotsPost_def)
    have ext: "\<exists>new. refs' = refs @ new" using n1 n2 by simp
    have desc: "\<forall>sm \<in> set members'. describes h refs' (lookupProp h c (fst sm)) (snd sm)"
      using Q by (simp add: slotsPost_def)
    have ids: "prototypesEnumerated fenv h (drop (length refs) refs') \<longrightarrow>
            memberIDs members' = memberIDs members @ [length refs..<length refs']"
    proof
      assume "prototypesEnumerated fenv h (drop (length refs) refs')"
      then have h1: "prototypesEnumerated fenv h new1" and h2: "prototypesEnumerated fenv h new2"
        using n1 n2 by simp_all
      have dr2: "drop (length refs1) refs' = new2" using n2 by simp
      from Q have "prototypesEnumerated fenv h (drop (length refs1) refs') \<longrightarrow>
            memberIDs members' = memberIDs ?members1 @ [length refs1..<length refs']"
        unfolding slotsPost_def by blast
      with h2 dr2 have a: "memberIDs members' = memberIDs ?members1 @ [length refs1..<length refs']"
        by simp
      have b: "memberIDs ?members1 = memberIDs members @ [length refs..<length refs1]"
      proof (cases sm)
        case None
        with P have "refs1 = refs" by (simp add: extractPost_def)
        with None show ?thesis by simp
      next
        case (Some m)
        from P Some have A: "(md_ref m \<noteq> None \<longrightarrow> regIDs m = [])
            \<and> (prototypesEnumerated fenv h (drop (length refs) refs1) \<longrightarrow>
                  regIDs m = [length refs..<length refs1])"
          by (simp add: extractPost_def)
        from A have r0: "md_ref m \<noteq> None \<longrightarrow> regIDs m = []" by blast
        have dr1: "drop (length refs) refs1 = new1" using n1 by simp
        from A h1 dr1 have r1: "regIDs m = [length refs..<length refs1]" by simp
        have "(if md_ref m = None then regIDs m else []) = regIDs m" using r0 by simp
        with Some r1 show ?thesis unfolding m1 by simp
      qed
      have "length refs \<le> length refs1" "length refs1 \<le> length refs'" using n1 n2 by simp_all
      then have "[length refs..<length refs1] @ [length refs1..<length refs'] = [length refs..<length refs']"
        by (rule upt_join)
      with a b show "memberIDs members' = memberIDs members @ [length refs..<length refs']"
        by (simp only: append_assoc)
    qed
    have sn: "\<forall>s \<in> set (slot # rest). \<not> slotSkipped h c ty s \<longrightarrow> slotTest fenv h c ty s = Inr True \<longrightarrow>
            seen h refs' (lookupProp h c s)"
    proof -
      have "seen h refs1 ?v"
      proof (cases sm)
        case None
        with P show ?thesis by (simp add: extractPost_def seen_def registrable_def)
      next
        case (Some m)
        with P have "describes h refs1 ?v m" by (simp add: extractPost_def)
        then show ?thesis by (rule describes_seen)
      qed
      then have "seen h refs' ?v" using n2 by (simp add: seen_mono)
      with Q show ?thesis by (simp add: slotsPost_def)
    qed
    show ?thesis
      unfolding slotsPost_def using ext w2 desc ids sn by blast
  qed
qed

lemma isLeafType_array [simp]: "\<not> isLeafType ''array''" "\<not> isLeafType ''function''"
  by (simp_all add: isLeafType_def)

lemma extract_inv:
  "extractNode n fenv h c refs = Some (Inr r, refs') \<Longrightarrow> wfTable h refs \<Longrightarrow> extractPost fenv h c refs r refs'"
proof (induction n arbitrary: c refs r refs')
  case 0
  then show ?case by simp
next
  case (Suc n)
  let ?k = "length refs"
  let ?refs1 = "refs @ [(c, ?k)]"
  from Suc.prems(1) show ?case
  proof (cases rule: extract_SucE)
    case (Back i)
    with Suc.prems(2) show ?thesis by (simp add: extractPost_def)
  next
    case Null
    with Suc.prems(2) show ?thesis by (simp add: extractPost_def)
  next
    case (Leaf ty)
    with Suc.prems(2) show ?thesis by (simp add: extractPost_def)
  next
    case (Array mi nm)
    have u: "AList.update c ?k refs = ?refs1"
      using Array(1) by (simp add: update_absent map_of_None_keys)
    have w: "wfTable h ?refs1"
      using Suc.prems(2) Array(1,2) by (intro wfTable_register) (simp_all add: registrable_def)
    have m: "map_of ?refs1 c = Some ?k" using Array(1) by (simp add: map_add_Some_iff)
    show ?thesis using Array(3,4) u w m by (simp add: extractPost_def)
  next
    case (NoProto ty mi nm members)
    have u: "AList.update c ?k refs = ?refs1"
      using NoProto(1) by (simp add: update_absent map_of_None_keys)
    have w: "wfTable h ?refs1"
      using Suc.prems(2) NoProto(1,2,3) by (intro wfTable_register) (simp_all add: registrable_def)
    have m: "map_of ?refs1 c = Some ?k" using NoProto(1) by (simp add: map_add_Some_iff)
    from slots_inv[OF Suc.IH NoProto(4)[unfolded u] w distinct_getSlots]
    have Q: "slotsPost fenv h c ty (getSlots h c) [] ?refs1 members refs'" by simp
    then obtain new2 where n2: "refs' = ?refs1 @ new2" and w2: "wfTable h refs'"
      by (auto simp: slotsPost_def)
    have m': "map_of refs' c = Some ?k" unfolding n2 using m by (rule map_of_append_Some)
    have ids: "prototypesEnumerated fenv h (drop ?k refs') \<longrightarrow> ?k # memberIDs members = [?k..<length refs']"
    proof
      assume "prototypesEnumerated fenv h (drop ?k refs')"
      then have h2: "prototypesEnumerated fenv h new2" using n2 by simp
      have dr2: "drop (length ?refs1) refs' = new2" using n2 by simp
      from Q have "prototypesEnumerated fenv h (drop (length ?refs1) refs') \<longrightarrow>
            memberIDs members = memberIDs [] @ [length ?refs1..<length refs']"
        unfolding slotsPost_def by blast
      with h2 dr2 have "memberIDs members = [Suc ?k..<length refs']" by simp
      moreover have "?k < length refs'" using n2 by simp
      ultimately show "?k # memberIDs members = [?k..<length refs']"
        by (simp only: upt_conv_Cons)
    qed
    show ?thesis
      unfolding extractPost_def using NoProto(5) n2 w2 m' Q ids by (simp add: slotsPost_def)
  next
    case (Proto mi nm members refs2 pm)
    let ?pv = "lookupProp h c ''prototype''"
    have u: "AList.update c ?k refs = ?refs1"
      using Proto(1) by (simp add: update_absent map_of_None_keys)
    have w: "wfTable h ?refs1"
      using Suc.prems(2) Proto(1,2) by (intro wfTable_register) (simp_all add: registrable_def)
    have m: "map_of ?refs1 c = Some ?k" using Proto(1) by (simp add: map_add_Some_iff)
    from slots_inv[OF Suc.IH Proto(3)[unfolded u] w distinct_getSlots]
    have Q: "slotsPost fenv h c ''function'' (getSlots h c) [] ?refs1 members refs2" by simp
    then obtain new2 where n2: "refs2 = ?refs1 @ new2" and w2: "wfTable h refs2"
      by (auto simp: slotsPost_def)
    from Suc.IH[OF Proto(5) w2] have P: "extractPost fenv h ?pv refs2 pm refs'" .
    then obtain new3 where n3: "refs' = refs2 @ new3" and w3: "wfTable h refs'"
      by (auto simp: extractPost_def)
    have m': "map_of refs' c = Some ?k"
      unfolding n3 n2 using m by (simp add: map_add_Some_iff)
    have desc: "\<forall>sm \<in> set (addPrototype members pm).
                  describes h refs' (lookupProp h c (fst sm)) (snd sm)"
    proof
      fix sm assume sm: "sm \<in> set (addPrototype members pm)"
      have old: "\<forall>sm \<in> set members. describes h refs' (lookupProp h c (fst sm)) (snd sm)"
        using Q n3 by (simp add: slotsPost_def describes_mono)
      show "describes h refs' (lookupProp h c (fst sm)) (snd sm)"
      proof (cases "sm \<in> set members")
        case True
        with old show ?thesis by blast
      next
        case False
        with sm obtain p where pm: "pm = Some p" and e: "sm = (''prototype'', p)"
          using set_update_subset[of "''prototype''" _ members]
          by (auto simp: addPrototype_def split: option.splits if_splits)
        with P show ?thesis by (simp add: extractPost_def)
      qed
    qed
    have ids: "prototypesEnumerated fenv h (drop ?k refs') \<longrightarrow>
                 ?k # memberIDs (addPrototype members pm) = [?k..<length refs']"
    proof
      assume hp: "prototypesEnumerated fenv h (drop ?k refs')"
      then have hc: "prototypeEnumerated fenv h c" and h2: "prototypesEnumerated fenv h new2"
        using n2 n3 Proto(2) by (simp_all add: prototypesEnumerated_def)
      from hc Proto(4) have "''prototype'' \<in> set (getSlots h c)"
        "\<not> slotSkipped h c ''function'' ''prototype''" "slotTest fenv h c ''function'' ''prototype'' = Inr True"
        by (simp_all add: prototypeEnumerated_def)
      with Q have "seen h refs2 ?pv" by (simp add: slotsPost_def)
      from seen_extract[OF this Proto(5)]
      have e: "refs' = refs2" and mm: "(case pm of None \<Rightarrow> True | Some p \<Rightarrow> md_members p = [])"
        by simp_all
      from mm have ap: "addPrototype members pm = members"
        by (simp add: addPrototype_def split: option.splits)
      have dr2: "drop (length ?refs1) refs2 = new2" using n2 by simp
      from Q have "prototypesEnumerated fenv h (drop (length ?refs1) refs2) \<longrightarrow>
            memberIDs members = memberIDs [] @ [length ?refs1..<length refs2]"
        unfolding slotsPost_def by blast
      with h2 dr2 have "memberIDs members = [Suc ?k..<length refs2]" by simp
      moreover have "?k < length refs2" using n2 by simp
      ultimately have "?k # memberIDs members = [?k..<length refs2]"
        by (simp only: upt_conv_Cons)
      then show "?k # memberIDs (addPrototype members pm) = [?k..<length refs']"
        using e ap by simp
    qed
    show ?thesis
      unfolding extractPost_def using Proto(6) n2 n3 w3 m' desc ids by simp
  qed
qed

lemma registrable_Ref: "registrable h c \<Longrightarrow> \<exists>a. c = Ref a \<and> a < length h"
  by (cases c)
     (auto simp: registrable_def getType_def isA_def classOf_def lookupObj_def isLeafType_def
        split: if_splits option.splits)

lemma unvisited_mono: "unvisited h (refs @ new) \<le> unvisited h refs"
  unfolding unvisited_def by (rule card_mono) auto

lemma unvisited_register:
  assumes "a < length h" and "Ref a \<notin> fst ` set refs"
  shows "unvisited h (refs @ [(Ref a, k)]) < unvisited h refs"
  unfolding unvisited_def
proof (rule psubset_card_mono)
  show "finite {b. b < length h \<and> Ref b \<notin> fst ` set refs}" by simp
  show "{b. b < length h \<and> Ref b \<notin> fst ` set (refs @ [(Ref a, k)])}
          \<subset> {b. b < length h \<and> Ref b \<notin> fst ` set refs}"
    using assms by auto
qed

lemma slots_return:
  assumes IH: "\<And>c refs. wfTable h refs \<Longrightarrow> unvisited h refs \<le> m \<Longrightarrow> extractNode n fenv h c refs \<noteq> None"
  shows "wfTable h refs \<Longrightarrow> unvisited h refs \<le> m \<Longrightarrow>
         extractSlots n fenv h c ty slots members refs \<noteq> None"
proof (induction slots arbitrary: members refs)
  case Nil
  show ?case by simp
next
  case (Cons slot rest)
  show ?case
  proof (cases "slotSkipped h c ty slot \<or> slotTest fenv h c ty slot \<noteq> Inr True")
    case True
    with Cons.IH[OF Cons.prems] show ?thesis
      by (cases "slotTest fenv h c ty slot") auto
  next
    case False
    from IH[OF Cons.prems] obtain x refs1 where
      g: "extractNode n fenv h (lookupProp h c slot) refs = Some (x, refs1)" by fastforce
    show ?thesis
    proof (cases x)
      case (Inl e)
      with False g show ?thesis by simp
    next
      case (Inr sm)
      from extract_inv[OF g[unfolded Inr] Cons.prems(1)]
      obtain new where n: "refs1 = refs @ new" and w: "wfTable h refs1"
        by (auto simp: extractPost_def)
      have "unvisited h refs1 \<le> m"
        using unvisited_mono[of h refs new] n Cons.prems(2) by simp
      from Cons.IH[OF w this] False g Inr show ?thesis by simp
    qed
  qed
qed

lemma extract_returns_gen:
  "wfTable h refs \<Longrightarrow> unvisited h refs < n \<Longrightarrow> extractNode n fenv h c refs \<noteq> None"
proof (induction n arbitrary: c refs)
  case 0
  then show ?case by simp
next
  case (Suc n)
  show ?case
  proof (cases "map_of refs c")
    case (Some i)
    then show ?thesis by simp
  next
    case None
    show ?thesis
    proof (cases "getType h c")
      case N: None
      with None show ?thesis by simp
    next
      case (Some ty)
      show ?thesis
      proof (cases "isLeafType ty")
        case True
        with None Some show ?thesis by simp
      next
        case False
        show ?thesis
        proof (cases "implTest fenv h c ty")
          case (Inl e)
          with None Some False show ?thesis by simp
        next
          case (Inr mi)
          let ?k = "length refs"
          let ?refs1 = "refs @ [(c, ?k)]"
          have reg: "registrable h c" using Some False by (simp add: registrable_def)
          then obtain a where a: "c = Ref a" "a < length h" using registrable_Ref by blast
          have nk: "c \<notin> fst ` set refs" using None by (rule map_of_None_keys)
          have u: "AList.update c ?k refs = ?refs1" using nk by (simp add: update_absent)
          have w: "wfTable h ?refs1" using Suc.prems(1) None reg by (rule wfTable_register)
          have lt: "unvisited h ?refs1 < unvisited h refs"
            using unvisited_register[OF a(2)] nk a(1) by simp
          then have le: "unvisited h ?refs1 \<le> n - 1" and pos: "0 < n" using Suc.prems(2) by simp_all
          have IH: "\<And>c refs. wfTable h refs \<Longrightarrow> unvisited h refs \<le> n - 1 \<Longrightarrow> extractNode n fenv h c refs \<noteq> None"
            using Suc.IH pos by simp
          have sl: "extractSlots n fenv h c ty (getSlots h c) [] ?refs1 \<noteq> None"
            by (rule slots_return[OF IH w le])
          then obtain x refs2 where
            x: "extractSlots n fenv h c ty (getSlots h c) [] ?refs1 = Some (x, refs2)" by fastforce
          show ?thesis
          proof (cases x)
            case I: (Inl e)
            show ?thesis
              unfolding extract_Suc_full[OF None Some False Inr] u x I by simp
          next
            case R: (Inr members)
            have "slotsPost fenv h c ty (getSlots h c) [] ?refs1 members refs2"
              by (rule slots_inv[OF extract_inv x[unfolded R] w distinct_getSlots]) simp_all
            then obtain new2 where n2: "refs2 = ?refs1 @ new2" and w2: "wfTable h refs2"
              by (auto simp: slotsPost_def)
            have "unvisited h refs2 \<le> n - 1"
              using unvisited_mono[of h ?refs1 new2] n2 le by simp
            from IH[OF w2 this] obtain y where
              y: "extractNode n fenv h (lookupProp h c ''prototype'') refs2 = Some y" by fastforce
            show ?thesis
              unfolding extract_Suc_full[OF None Some False Inr] u x R
              by (simp add: y split: prod.splits sum.splits)
          qed
        qed
      qed
    qed
  qed
qed

lemma wfTable_empty: "wfTable h []"
  by (simp add: wfTable_def)

lemma extract_returns: "extractNode (Suc (length h)) fenv h c [] \<noteq> None"
  by (rule extract_returns_gen[OF wfTable_empty]) (simp add: unvisited_def)

lemma describes_recognized: "wfTable h refs \<Longrightarrow> describes h refs v m \<Longrightarrow> getType h v \<noteq> None"
proof (cases m)
  case (Metadata rf members mi nm refID ty vl)
  assume w: "wfTable h refs" and d: "describes h refs v m"
  have k: "\<And>r. map_of refs v = Some r \<Longrightarrow> getType h v \<noteq> None"
  proof -
    fix r assume "map_of refs v = Some r"
    then have "(v, r) \<in> set refs" by (rule map_of_SomeD)
    with w have "registrable h v" by (auto simp: wfTable_def)
    then show "getType h v \<noteq> None" by (auto simp: registrable_def split: option.splits)
  qed
  from d Metadata k show ?thesis by (auto split: option.splits)
qed

lemma extract_members_described:
  assumes "extractNode n fenv h c refs = Some (Inr (Some md), refs')" and "wfTable h refs"
  shows "\<forall>sm \<in> set (md_members md). describes h refs' (lookupProp h c (fst sm)) (snd sm)"
proof (cases n)
  case 0
  with assms(1) show ?thesis by simp
next
  case (Suc k)
  from extract_inv[OF assms] have d: "describes h refs' c md" by (simp add: extractPost_def)
  from assms(1)[unfolded Suc] show ?thesis
    by (cases rule: extract_SucE) (use d in auto)
qed

lemma wfTable_recognized: "wfTable h refs \<Longrightarrow> getType h c = None \<Longrightarrow> map_of refs c = None"
proof (rule ccontr)
  assume w: "wfTable h refs" and t: "getType h c = None" and "map_of refs c \<noteq> None"
  then obtain r where "map_of refs c = Some r" by auto
  then have "(c, r) \<in> set refs" by (rule map_of_SomeD)
  with w have "registrable h c" by (auto simp: wfTable_def)
  with t show False by (simp add: registrable_def)
qed


text \<open>On a heap with plain tests the extractor is its pure form and leaves the heap alone.\<close>

lemma plainTests_nth:
  "plainTests h \<Longrightarrow> a < length h \<Longrightarrow> lookupProp h (Ref a) ''hasOwnProperty'' = Ref b \<Longrightarrow>
     Ref b = objectHasOwnProperty \<or> closureOf h b = None"
proof -
  assume p: "plainTests h" and a: "a < length h"
    and l: "lookupProp h (Ref a) ''hasOwnProperty'' = Ref b"
  from p a have "case lookupProp h (Ref a) ''hasOwnProperty'' of
                   Ref b \<Rightarrow> Ref b = objectHasOwnProperty \<or> closureOf h b = None
                 | _ \<Rightarrow> True"
    by (simp add: plainTests_def list_all_iff)
  with l show ?thesis by simp
qed

lemma lookupProp_outside:
  "(\<forall>a. component = Ref a \<longrightarrow> \<not> a < length h) \<Longrightarrow> lookupProp h component slot = Undefined"
  by (cases component; cases "length h") (auto simp: lookupProp_def lookupObj_def)

lemma callHasOwnProperty_plain:
  assumes "plainTests h"
  shows "callHasOwnProperty n fenv h component slot = Some (ownTest fenv h component slot, h)"
proof (cases "\<exists>a. component = Ref a \<and> a < length h")
  case False
  then have "lookupProp h component ''hasOwnProperty'' = Undefined"
    by (intro lookupProp_outside) auto
  then show ?thesis
    by (simp add: callHasOwnProperty_def ownTest_def objectHasOwnProperty_def)
next
  case True
  then obtain a where a: "component = Ref a" "a < length h" by blast
  show ?thesis
  proof (cases "lookupProp h component ''hasOwnProperty'' = objectHasOwnProperty")
    case True
    then show ?thesis by (simp add: callHasOwnProperty_def ownTest_def)
  next
    case nb: False
    show ?thesis
    proof (cases "lookupProp h component ''hasOwnProperty''")
      case (Ref b)
      with plainTests_nth[OF assms a(2), of b] a(1) nb have "closureOf h b = None" by auto
      with Ref nb show ?thesis
        by (auto simp: callHasOwnProperty_def ownTest_def closureOf_def split: option.splits)
    qed (use nb in \<open>simp_all add: callHasOwnProperty_def ownTest_def\<close>)
  qed
qed

lemma plainTests_member:
  assumes p: "plainTests h" and a: "a < length h"
    and m: "mockImplementationMember (length h) h (Ref a) = Some (Inr (Ref b))"
  shows "closureOf h b = None"
proof -
  from p a have "case mockImplementationMember (length h) h (Ref a) of
                   Some (Inr (Ref b)) \<Rightarrow> closureOf h b = None
                 | _ \<Rightarrow> True"
    by (simp add: plainTests_def list_all_iff)
  with m show ?thesis by simp
qed

lemma mockImplementationMember_outside:
  "(\<forall>a. component = Ref a \<longrightarrow> \<not> a < length h) \<Longrightarrow> mockImplementationMember n h component = None"
  by (cases component; cases n) (auto simp: lookupObj_def)

lemma capturedImpl_plain:
  assumes "plainTests h"
  shows "capturedImpl n fenv h component ty = Some (implTest fenv h component ty, h)"
proof (cases "ty = ''function'' \<and> truthy (lookupProp h component ''_isMockFunction'')")
  case False
  then show ?thesis by (auto simp: capturedImpl_def implTest_def)
next
  case t: True
  show ?thesis
  proof (cases "mockImplementationMember (length h) h component")
    case None
    with t show ?thesis by (simp add: capturedImpl_def implTest_def callGetMockImplementation_def)
  next
    case (Some w)
    show ?thesis
    proof (cases w)
      case (Inl a)
      with t Some show ?thesis by (simp add: capturedImpl_def implTest_def callGetMockImplementation_def)
    next
      case (Inr fn)
      have v: "\<exists>a. component = Ref a \<and> a < length h"
      proof (rule ccontr)
        assume "\<not> (\<exists>a. component = Ref a \<and> a < length h)"
        then have "mockImplementationMember (length h) h component = None"
          by (intro mockImplementationMember_outside) auto
        with Some show False by simp
      qed
      then obtain a where a: "component = Ref a" "a < length h" by blast
      show ?thesis
      proof (cases fn)
        case (Ref b)
        from plainTests_member[OF assms a(2), of b] Some Inr Ref a(1)
        have "closureOf h b = None" by simp
        with t Some Inr Ref show ?thesis
          by (auto simp: capturedImpl_def implTest_def callGetMockImplementation_def closureOf_def
                split: option.splits)
      qed (use t Some Inr in \<open>simp_all add: capturedImpl_def implTest_def callGetMockImplementation_def\<close>)
    qed
  qed
qed

lemma slotIncluded_plain:
  "plainTests h \<Longrightarrow> slotIncluded n fenv h component ty slot = Some (slotTest fenv h component ty slot, h)"
  by (cases "ownTest fenv h component slot")
     (simp_all add: slotIncluded_def slotTest_def callHasOwnProperty_plain)

lemma getMetadata_plain:
  assumes "plainTests h"
  shows "getMetadata n fenv h c refs
           = map_option (\<lambda>(r, refs'). (r, refs', h)) (extractNode n fenv h c refs)"
    and "getMetadataSlots n fenv h c ty slots members refs
           = map_option (\<lambda>(r, refs'). (r, refs', h)) (extractSlots n fenv h c ty slots members refs)"
proof -
  have slots: "\<And>n c ty slots members refs.
      (\<And>c refs. getMetadata n fenv h c refs
           = map_option (\<lambda>(r, refs'). (r, refs', h)) (extractNode n fenv h c refs)) \<Longrightarrow>
      getMetadataSlots n fenv h c ty slots members refs
           = map_option (\<lambda>(r, refs'). (r, refs', h)) (extractSlots n fenv h c ty slots members refs)"
  proof -
    fix n c ty slots members refs
    assume IH: "\<And>c refs. getMetadata n fenv h c refs
           = map_option (\<lambda>(r, refs'). (r, refs', h)) (extractNode n fenv h c refs)"
    show "getMetadataSlots n fenv h c ty slots members refs
           = map_option (\<lambda>(r, refs'). (r, refs', h)) (extractSlots n fenv h c ty slots members refs)"
    proof (induction slots arbitrary: members refs)
      case Nil
      show ?case by simp
    next
      case (Cons slot rest)
      show ?case
      proof (cases "slotSkipped h c ty slot")
        case True
        with Cons show ?thesis by simp
      next
        case False
        show ?thesis
        proof (cases "slotTest fenv h c ty slot")
          case (Inl e)
          with False show ?thesis by (simp add: slotIncluded_plain[OF assms])
        next
          case (Inr included)
          show ?thesis
          proof (cases included)
            case f: False
            with False Inr Cons show ?thesis by (simp add: slotIncluded_plain[OF assms])
          next
            case True
            obtain y where y: "extractNode n fenv h (lookupProp h c slot) refs = y" by simp
            show ?thesis
            proof (cases y)
              case None
              with False Inr True y show ?thesis
                by (simp add: slotIncluded_plain[OF assms] IH)
            next
              case (Some p)
              obtain r refs1 where p: "p = (r, refs1)" by (cases p)
              show ?thesis
              proof (cases r)
                case I: (Inl e)
                with False Inr True y Some p show ?thesis
                  by (simp add: slotIncluded_plain[OF assms] IH)
              next
                case R: (Inr sm)
                with False Inr True y Some p Cons show ?thesis
                  by (simp add: slotIncluded_plain[OF assms] IH)
              qed
            qed
          qed
        qed
      qed
    qed
  qed
  have node: "\<And>c refs. getMetadata n fenv h c refs
           = map_option (\<lambda>(r, refs'). (r, refs', h)) (extractNode n fenv h c refs)"
  proof (induction n)
    case 0
    show ?case by simp
  next
    case (Suc n)
    note S = slots[OF Suc]
    show ?case
    proof (cases "map_of refs c")
      case (Some r)
      then show ?thesis by simp
    next
      case None
      show ?thesis
      proof (cases "getType h c")
        case N: None
        with None show ?thesis by simp
      next
        case (Some ty)
        show ?thesis
        proof (cases "isLeafType ty")
          case True
          with None Some show ?thesis by simp
        next
          case False
          show ?thesis
          proof (cases "implTest fenv h c ty")
            case (Inl e)
            with None Some False show ?thesis by (simp add: capturedImpl_plain[OF assms])
          next
            case (Inr mi)
            show ?thesis
            proof (cases "ty = ''array''")
              case True
              with None Some False Inr show ?thesis by (simp add: Let_def capturedImpl_plain[OF assms])
            next
              case na: False
              let ?refs1 = "AList.update c (length refs) refs"
              obtain y where y: "extractSlots n fenv h c ty (getSlots h c) [] ?refs1 = y" by simp
              show ?thesis
              proof (cases y)
                case N2: None
                with None Some False Inr na y show ?thesis by (simp add: Let_def S capturedImpl_plain[OF assms])
              next
                case S2: (Some p)
                obtain r refs2 where p: "p = (r, refs2)" by (cases p)
                show ?thesis
                proof (cases r)
                  case I: (Inl e)
                  with None Some False Inr na y S2 p show ?thesis by (simp add: Let_def S capturedImpl_plain[OF assms])
                next
                  case R: (Inr members)
                  show ?thesis
                  proof (cases "ty = ''function'' \<and> truthy (lookupProp h c ''prototype'')")
                    case f: False
                    with None Some False Inr na y S2 p R show ?thesis by (simp add: Let_def S capturedImpl_plain[OF assms])
                  next
                    case t: True
                    obtain z where z: "extractNode n fenv h (lookupProp h c ''prototype'') refs2 = z"
                      by simp
                    from None Some False Inr na y S2 p R t z show ?thesis
                      by (cases z) (auto simp: Let_def S Suc capturedImpl_plain[OF assms] split: prod.splits sum.splits)
                  qed
                qed
              qed
            qed
          qed
        qed
      qed
    qed
  qed
  show "getMetadata n fenv h c refs
           = map_option (\<lambda>(r, refs'). (r, refs', h)) (extractNode n fenv h c refs)" by (rule node)
  show "getMetadataSlots n fenv h c ty slots members refs
           = map_option (\<lambda>(r, refs'). (r, refs', h)) (extractSlots n fenv h c ty slots members refs)"
    by (rule slots[OF node])
qed


lemma getMetadata_null:
  "getMetadata k fenv h c refs = Some (Inr None, refs', h') \<Longrightarrow>
     getType h c = None \<and> refs' = refs \<and> h' = h"
proof (cases k)
  case 0
  assume "getMetadata k fenv h c refs = Some (Inr None, refs', h')"
  with 0 show ?thesis by simp
next
  case (Suc n)
  assume g: "getMetadata k fenv h c refs = Some (Inr None, refs', h')"
  show ?thesis
  proof (cases "map_of refs c")
    case (Some r)
    with g Suc show ?thesis by simp
  next
    case None
    show ?thesis
    proof (cases "getType h c")
      case N: None
      with g Suc None show ?thesis by simp
    next
      case (Some ty)
      show ?thesis
      proof (cases "isLeafType ty")
        case True
        with g Suc None Some show ?thesis by simp
      next
        case False
        show ?thesis
        proof (cases "capturedImpl n fenv h c ty")
          case N2: None
          with g Suc None Some False show ?thesis by simp
        next
          case S2: (Some p)
          obtain r hc where p: "p = (r, hc)" by (cases p)
          show ?thesis
          proof (cases r)
            case (Inl e)
            with g Suc None Some False S2 p show ?thesis by simp
          next
            case (Inr mi)
            let ?refs1 = "AList.update c (length refs) refs"
            obtain y where y: "getMetadataSlots n fenv hc c ty (getSlots hc c) [] ?refs1 = y" by simp
            show ?thesis
            proof (cases "ty = ''array''")
              case True
              with g Suc None Some False S2 p Inr show ?thesis by (simp add: Let_def)
            next
              case na: False
              from g Suc None Some False S2 p Inr na y obtain members refs2 h2 where
                yy: "y = Some (Inr members, refs2, h2)"
                by (cases y) (auto simp: Let_def split: prod.splits sum.splits)
              obtain z where z: "getMetadata n fenv h2 (lookupProp h2 c ''prototype'') refs2 = z" by simp
              from g Suc None Some False S2 p Inr na y yy z show ?thesis
                by (cases z) (auto simp: Let_def split: prod.splits sum.splits if_splits)
            qed
          qed
        qed
      qed
    qed
  qed
qed

section \<open>Unrecognized values are skipped\<close>

text \<open>
  Claim C7. Let the identity table be one that \<^verbatim>\<open>getMetadata\<close> builds. For a value whose
  classification is unrecognized (\<^verbatim>\<open>getType\<close> yields \<^verbatim>\<open>null\<close>) \<^verbatim>\<open>getMetadata\<close> returns
  \<^verbatim>\<open>null\<close>, throws nothing and leaves the table and the heap as they were; and it returns
  \<^verbatim>\<open>null\<close> for such values only. In the \<^verbatim>\<open>forEach\<close> over the slots of a component, when
  the loop visits a slot (the slot is not skipped and its visit condition returns true)
  and the extraction of the member returns \<^verbatim>\<open>null\<close>, the loop goes on to the other
  slots with the same members, from the table and the heap that this extraction left:
  the member is left out and nothing is thrown for it. So, on a heap where no
  \<^verbatim>\<open>hasOwnProperty\<close> and no \<^verbatim>\<open>getMockImplementation\<close> member is a mock, no node that
  \<^verbatim>\<open>getMetadata\<close> returns has a member for a slot whose value is unrecognized, and the
  extractor, started with a fresh table, returns (a node, \<^verbatim>\<open>null\<close> or an error) once its
  depth bound exceeds the number of objects of the heap.
\<close>

theorem unrecognized_values_skipped:
  assumes "wfTable h refs"
  shows "(getType h c = None \<longrightarrow> getMetadata (Suc n) fenv h c refs = Some (Inr None, refs, h))
       \<and> (getMetadata k fenv h c refs = Some (Inr None, refs', h') \<longrightarrow>
            getType h c = None \<and> refs' = refs \<and> h' = h)
       \<and> (\<not> slotSkipped h c ty slot \<longrightarrow>
            slotIncluded n fenv h c ty slot = Some (Inr True, ht) \<longrightarrow>
            getMetadata n fenv ht (lookupProp ht c slot) refs = Some (Inr None, refse, he) \<longrightarrow>
            getMetadataSlots n fenv h c ty (slot # rest) members refs
              = getMetadataSlots n fenv he c ty rest members refse)
       \<and> (plainTests h \<longrightarrow> getMetadata k fenv h c refs = Some (Inr (Some md), refs', h') \<longrightarrow>
            getType h (lookupProp h c slot) = None \<longrightarrow> slot \<notin> fst ` set (md_members md))
       \<and> (plainTests h \<longrightarrow> getMetadata (Suc (length h)) fenv h c [] \<noteq> None)"
proof (intro conjI impI)
  assume t: "getType h c = None"
  from wfTable_recognized[OF assms t] t
  show "getMetadata (Suc n) fenv h c refs = Some (Inr None, refs, h)" by simp
next
  assume "getMetadata k fenv h c refs = Some (Inr None, refs', h')"
  then have "getType h c = None \<and> refs' = refs \<and> h' = h" by (rule getMetadata_null)
  then show "getType h c = None" "refs' = refs" "h' = h" by simp_all
next
  assume "\<not> slotSkipped h c ty slot"
    and "slotIncluded n fenv h c ty slot = Some (Inr True, ht)"
    and "getMetadata n fenv ht (lookupProp ht c slot) refs = Some (Inr None, refse, he)"
  then show "getMetadataSlots n fenv h c ty (slot # rest) members refs
               = getMetadataSlots n fenv he c ty rest members refse"
    by (simp del: getMetadata.simps)
next
  assume p: "plainTests h"
     and g: "getMetadata k fenv h c refs = Some (Inr (Some md), refs', h')"
     and t: "getType h (lookupProp h c slot) = None"
  from g have e: "extractNode k fenv h c refs = Some (Inr (Some md), refs')"
    unfolding getMetadata_plain(1)[OF p] by auto
  from extract_inv[OF e assms] have w: "wfTable h refs'" by (simp add: extractPost_def)
  show "slot \<notin> fst ` set (md_members md)"
  proof
    assume "slot \<in> fst ` set (md_members md)"
    then obtain sm where sm: "sm \<in> set (md_members md)" "fst sm = slot" by auto
    with extract_members_described[OF e assms]
    have "describes h refs' (lookupProp h c slot) (snd sm)" by auto
    from describes_recognized[OF w this] t show False by simp
  qed
next
  assume p: "plainTests h"
  show "getMetadata (Suc (length h)) fenv h c [] \<noteq> None"
    unfolding getMetadata_plain(1)[OF p] using extract_returns[of h fenv c] by simp
qed

text \<open>The extraction of the example component, and its \<^verbatim>\<open>Date\<close> member.\<close>

lemma component_plain: "plainTests componentHeap"
  by code_simp

lemma component_extracted:
  "getMetadata 4 answer componentHeap (Ref 6) []
     = Some (Inr (Some componentMetadata), componentTable, componentHeap)"
  by code_simp

lemma component_date: "getType componentHeap (lookupProp componentHeap (Ref 6) ''d'') = None"
  by code_simp

lemma component_date_visited:
  "\<not> slotSkipped componentHeap (Ref 6) ''object'' ''d''"
  "slotIncluded 4 answer componentHeap (Ref 6) ''object'' ''d'' = Some (Inr True, componentHeap)"
  "getMetadata 4 answer componentHeap (lookupProp componentHeap (Ref 6) ''d'') []
     = Some (Inr None, [], componentHeap)"
  by code_simp+

text \<open>The theorem at the example component, whose member \<^verbatim>\<open>d\<close> is a \<^verbatim>\<open>Date\<close>.\<close>

theorem unrecognized_values_skipped_witness:
  "lookupProp componentHeap (Ref 6) ''d'' = Ref 8
   \<and> getMetadata (Suc 0) answer componentHeap (Ref 8) [] = Some (Inr None, [], componentHeap)
   \<and> getMetadataSlots 4 answer componentHeap (Ref 6) ''object'' [''d'', ''k''] [] []
       = getMetadataSlots 4 answer componentHeap (Ref 6) ''object'' [''k''] [] []
   \<and> getMetadata 4 answer componentHeap (Ref 6) []
       = Some (Inr (Some componentMetadata), componentTable, componentHeap)
   \<and> ''d'' \<notin> fst ` set (md_members componentMetadata)
   \<and> getMetadata (Suc (length componentHeap)) answer componentHeap (Ref 6) [] \<noteq> None"
proof -
  have l: "lookupProp componentHeap (Ref 6) ''d'' = Ref 8" by code_simp
  have t: "getType componentHeap (Ref 8) = None" by code_simp
  from unrecognized_values_skipped[where h = componentHeap and refs = "[]" and c = "Ref 8" and n = 0
         and fenv = answer, OF wfTable_empty] t
  have a: "getMetadata (Suc 0) answer componentHeap (Ref 8) [] = Some (Inr None, [], componentHeap)"
    by blast
  note T = unrecognized_values_skipped[where h = componentHeap and refs = "[]" and c = "Ref 6"
             and fenv = answer and slot = "''d''" and n = 4 and ty = "''object''" and rest = "[''k'']"
             and members = "[]" and ht = componentHeap and he = componentHeap and refse = "[]"
             and k = 4 and md = componentMetadata and refs' = componentTable and h' = componentHeap,
             OF wfTable_empty]
  from T component_date_visited
  have b: "getMetadataSlots 4 answer componentHeap (Ref 6) ''object'' [''d'', ''k''] [] []
             = getMetadataSlots 4 answer componentHeap (Ref 6) ''object'' [''k''] [] []" by blast
  from T component_plain component_extracted component_date
  have c: "''d'' \<notin> fst ` set (md_members componentMetadata)" by blast
  from T component_plain
  have d: "getMetadata (Suc (length componentHeap)) answer componentHeap (Ref 6) [] \<noteq> None"
    by blast
  from l a b component_extracted c d show ?thesis by blast
qed

section \<open>One full node for every registered identity\<close>





section \<open>Constructor-style calls\<close>

text \<open>
  What one generation leaves of the heap it starts from: the writes of
  \<^verbatim>\<open>makeComponent\<close> and \<^verbatim>\<open>generateMock\<close> go to the objects they allocate, but for
  \<^verbatim>\<open>constructor\<close>.
\<close>

lemma atOrAbove_simps [simp]:
  "atOrAbove b Undefined" "atOrAbove b Null" "atOrAbove b (Bool x)" "atOrAbove b (Num i)" "atOrAbove b (Str s)"
  "atOrAbove b (Ref a) = (b \<le> a)"
  by (simp_all add: atOrAbove_def)

lemma keeps_refl: "b \<le> length h \<Longrightarrow> keeps b h h"
  by (simp add: keeps_def)

lemma keeps_trans: "keeps b h1 h2 \<Longrightarrow> keeps b h2 h3 \<Longrightarrow> keeps b h1 h3"
  by (auto simp: keeps_def)

lemma keeps_append: "b \<le> length h \<Longrightarrow> keeps b h (h @ new)"
  by (simp add: keeps_def nth_append)

lemma setProp_keeps:
  assumes sp: "setProp h target slot x = Inr h'" and b: "b \<le> length h"
    and t: "atOrAbove b target \<or> slot = ''constructor''"
  shows "keeps b h h'"
proof -
  from setProp_Inr[OF sp] obtain a where a: "target = Ref a" "a < length h"
    and h': "h' = h[a := (h ! a)\<lparr>props := AList.update slot (Data x) (props (h ! a))\<rparr>]"
    by blast
  have "\<And>c. c < b \<Longrightarrow> cls (h' ! c) = cls (h ! c) \<and> proto (h' ! c) = proto (h ! c)
          \<and> closure (h' ! c) = closure (h ! c)
          \<and> (\<forall>s. s \<noteq> ''constructor'' \<longrightarrow> map_of (props (h' ! c)) s = map_of (props (h ! c)) s)"
  proof -
    fix c assume c: "c < b"
    show "cls (h' ! c) = cls (h ! c) \<and> proto (h' ! c) = proto (h ! c)
          \<and> closure (h' ! c) = closure (h ! c)
          \<and> (\<forall>s. s \<noteq> ''constructor'' \<longrightarrow> map_of (props (h' ! c)) s = map_of (props (h ! c)) s)"
    proof (cases "c = a")
      case False
      then show ?thesis by (simp add: h')
    next
      case True
      with c t a(1) have "slot = ''constructor''" by auto
      with True a(2) show ?thesis by (simp add: h' AList.update_conv')
    qed
  qed
  with b show ?thesis by (simp add: keeps_def h')
qed

lemma makeComponent_error: "makeComponent metadata h = (Inl e, h1) \<Longrightarrow> h1 = h"
  by (auto simp: makeComponent_def alloc_def Let_def split: if_splits)

lemma makeComponent_cases:
  "makeComponent metadata h = (Inr mock, h1) \<Longrightarrow>
     ((case md_type metadata of None \<Rightarrow> False | Some t \<Rightarrow> isLeafType t)
        \<and> mock = md_value metadata \<and> h1 = h)
   \<or> (mock = Ref (length h) \<and> h1 = h @ [\<lparr>cls = ''Object'', proto = objectPrototype, props = [], closure = None\<rparr>])
   \<or> (mock = Ref (length h) \<and> h1 = h @ [\<lparr>cls = ''Array'', proto = arrayPrototype, props = [], closure = None\<rparr>])
   \<or> (mock = Ref (length h) \<and> h1 = h @ [\<lparr>cls = ''RegExp'', proto = regExpPrototype, props = [], closure = None\<rparr>])
   \<or> (md_type metadata = Some ''function'' \<and> mock = Ref (length h)
        \<and> h1 = h @ mockObjects (length h) (newMock metadata))"
  by (auto simp: makeComponent_def alloc_def Let_def newMock_def mockObjects_def isLeafType_def
        split: if_splits)

lemma makeComponent_keeps:
  assumes mk: "makeComponent metadata h = (Inr mock, h1)" and b: "b \<le> length h"
    and pt: "plainTemplate metadata"
  shows "keeps b h h1 \<and> (atOrAbove b mock \<or> md_members metadata = [])"
proof -
  from makeComponent_cases[OF mk] consider
      (leaf) "case md_type metadata of None \<Rightarrow> False | Some t \<Rightarrow> isLeafType t"
             "mock = md_value metadata" "h1 = h"
    | (fresh) new where "mock = Ref (length h)" "h1 = h @ new"
    by (elim disjE conjE) blast+
  then show ?thesis
  proof cases
    case leaf
    from leaf(1) pt have "atOrAbove b (md_value metadata) \<or> md_members metadata = []"
      by (cases metadata; cases "md_value metadata") (auto split: option.splits)
    with leaf b show ?thesis by (simp add: keeps_refl)
  next
    case fresh
    with b show ?thesis by (simp add: keeps_append)
  qed
qed

lemma plainTemplate_members:
  "plainTemplate metadata \<Longrightarrow>
     \<forall>sm \<in> set (md_members metadata). md_ref (snd sm) = None \<longrightarrow> plainTemplate (snd sm)"
  by (cases metadata) simp

lemma generate_keeps:
  shows "\<forall>r h'. generateMock metadata callbacks refs h = (r, h') \<longrightarrow> b \<le> length h \<longrightarrow>
           plainTemplate metadata \<longrightarrow> (\<forall>cb \<in> set callbacks. atOrAbove b (fst cb)) \<longrightarrow>
           keeps b h h' \<and>
           (\<forall>mock callbacks' refs'. r = Inr (mock, callbacks', refs') \<longrightarrow>
              (\<forall>cb \<in> set callbacks'. atOrAbove b (fst cb)))"
    and "\<forall>r h'. generateSlots mock members callbacks refs h = (r, h') \<longrightarrow> b \<le> length h \<longrightarrow>
           (atOrAbove b mock \<or> members = []) \<longrightarrow>
           (\<forall>sm \<in> set members. md_ref (snd sm) = None \<longrightarrow> plainTemplate (snd sm)) \<longrightarrow>
           (\<forall>cb \<in> set callbacks. atOrAbove b (fst cb)) \<longrightarrow>
           keeps b h h' \<and>
           (\<forall>callbacks' refs'. r = Inr (callbacks', refs') \<longrightarrow> (\<forall>cb \<in> set callbacks'. atOrAbove b (fst cb)))"
proof (induction metadata callbacks refs h and mock members callbacks refs h rule: generate_induct)
  case (Node metadata callbacks refs h)
  show ?case
  proof (intro allI impI)
    fix r h'
    assume g: "generateMock metadata callbacks refs h = (r, h')" and b: "b \<le> length h"
      and pt: "plainTemplate metadata" and sf: "\<forall>cb \<in> set callbacks. atOrAbove b (fst cb)"
    obtain r1 h1 where mk: "makeComponent metadata h = (r1, h1)" by (cases "makeComponent metadata h")
    show "keeps b h h' \<and>
           (\<forall>mock callbacks' refs'. r = Inr (mock, callbacks', refs') \<longrightarrow>
              (\<forall>cb \<in> set callbacks'. atOrAbove b (fst cb)))"
    proof (cases r1)
      case (Inl e)
      with makeComponent_error[of metadata h e h1] mk have "h1 = h" by simp
      with g mk Inl b show ?thesis by (auto simp: generateMock_unfold keeps_refl)
    next
      case (Inr mock)
      from makeComponent_keeps[OF mk[unfolded Inr] b pt]
      have k1: "keeps b h h1" and am: "atOrAbove b mock \<or> md_members metadata = []" by blast+
      then have b1: "b \<le> length h1" by (simp add: keeps_def)
      let ?refs1 = "(case md_refID metadata of None \<Rightarrow> refs | Some r \<Rightarrow> refs(r \<mapsto> mock))"
      obtain r2 h2 where sl: "generateSlots mock (md_members metadata) callbacks ?refs1 h1 = (r2, h2)"
        by (cases "generateSlots mock (md_members metadata) callbacks ?refs1 h1")
      from Node[OF mk[unfolded Inr]] sl b1 am plainTemplate_members[OF pt] sf
      have k2: "keeps b h1 h2"
        and sf2: "\<forall>callbacks' refs'. r2 = Inr (callbacks', refs') \<longrightarrow>
                    (\<forall>cb \<in> set callbacks'. atOrAbove b (fst cb))"
        by blast+
      from k2 have b2: "b \<le> length h2" by (simp add: keeps_def)
      show ?thesis
      proof (cases r2)
        case I2: (Inl e)
        with g mk Inr sl k1 k2 show ?thesis by (auto simp: generateMock_unfold intro: keeps_trans)
      next
        case R2: (Inr res)
        obtain callbacks2 refs2 where res: "res = (callbacks2, refs2)" by (cases res)
        from sf2 R2 res have sfr: "\<forall>cb \<in> set callbacks2. atOrAbove b (fst cb)" by simp
        have hh: "h' = h2 \<or> (\<exists>p. setProp h2 p ''constructor'' mock = Inr h')"
          using g mk Inr sl R2 res
          by (auto simp: generateMock_unfold split: sum.splits if_splits)
        have rr: "\<forall>m c t. r = Inr (m, c, t) \<longrightarrow> c = callbacks2"
          using g mk Inr sl R2 res
          by (auto simp: generateMock_unfold split: sum.splits if_splits)
        from hh have "keeps b h2 h'"
        proof
          assume "h' = h2" with b2 show ?thesis by (simp add: keeps_refl)
        next
          assume "\<exists>p. setProp h2 p ''constructor'' mock = Inr h'"
          then obtain p where "setProp h2 p ''constructor'' mock = Inr h'" by blast
          then show ?thesis using b2 by (rule setProp_keeps) simp
        qed
        with k1 k2 have "keeps b h h'" by (meson keeps_trans)
        with rr sfr show ?thesis by blast
      qed
    qed
  qed
next
  case (Nil mock callbacks refs h)
  then show ?case by (simp add: keeps_refl)
next
  case (Cons mock slot slotMetadata rest callbacks refs h)
  show ?case
  proof (intro allI impI)
    fix r' h'
    assume g: "generateSlots mock ((slot, slotMetadata) # rest) callbacks refs h = (r', h')"
      and b: "b \<le> length h" and am0: "atOrAbove b mock \<or> (slot, slotMetadata) # rest = []"
      and pt: "\<forall>sm \<in> set ((slot, slotMetadata) # rest). md_ref (snd sm) = None \<longrightarrow> plainTemplate (snd sm)"
      and sf: "\<forall>cb \<in> set callbacks. atOrAbove b (fst cb)"
    from am0 have am: "atOrAbove b mock" by simp
    from pt have ptr: "\<forall>sm \<in> set rest. md_ref (snd sm) = None \<longrightarrow> plainTemplate (snd sm)" by simp
    show "keeps b h h' \<and> (\<forall>callbacks' refs'. r' = Inr (callbacks', refs') \<longrightarrow>
            (\<forall>cb \<in> set callbacks'. atOrAbove b (fst cb)))"
    proof (cases "md_ref slotMetadata")
      case (Some r)
      have "\<forall>cb \<in> set (callbacks @ [(mock, slot, r)]). atOrAbove b (fst cb)" using sf am by simp
      moreover from g Some have "generateSlots mock rest (callbacks @ [(mock, slot, r)]) refs h = (r', h')"
        by simp
      ultimately show ?thesis using Cons(1)[OF Some] b am ptr by blast
    next
      case None
      with pt have pts: "plainTemplate slotMetadata" by simp
      obtain r1 h1 where gm: "generateMock slotMetadata callbacks refs h = (r1, h1)"
        by (cases "generateMock slotMetadata callbacks refs h")
      from Cons(2)[OF None] gm b pts sf
      have k1: "keeps b h h1"
        and ch: "\<forall>child callbacks' refs'. r1 = Inr (child, callbacks', refs') \<longrightarrow>
                   (\<forall>cb \<in> set callbacks'. atOrAbove b (fst cb))" by blast+
      from k1 have b1: "b \<le> length h1" by (simp add: keeps_def)
      show ?thesis
      proof (cases r1)
        case (Inl e)
        with g None gm k1 show ?thesis by auto
      next
        case (Inr res)
        obtain child callbacks1 refs1 where res: "res = (child, callbacks1, refs1)" by (cases res)
        from ch Inr res have sf1: "\<forall>cb \<in> set callbacks1. atOrAbove b (fst cb)" by simp
        show ?thesis
        proof (cases "setProp h1 mock slot child")
          case I: (Inl e)
          with g None gm Inr res k1 show ?thesis by auto
        next
          case R: (Inr h2)
          have k2: "keeps b h1 h2" using R b1 by (rule setProp_keeps) (simp add: am)
          then have b2: "b \<le> length h2" by (simp add: keeps_def)
          have "generateSlots mock rest callbacks1 refs1 h2 = (r', h')"
            using g None gm Inr res R by simp
          with Cons(3)[OF None gm[unfolded Inr res] R] b2 am ptr sf1
          have "keeps b h2 h' \<and> (\<forall>callbacks' refs'. r' = Inr (callbacks', refs') \<longrightarrow>
                  (\<forall>cb \<in> set callbacks'. atOrAbove b (fst cb)))" by blast
          with k1 k2 show ?thesis by (meson keeps_trans)
        qed
      qed
    qed
  qed
qed

lemma runCallbacks_keeps:
  "runCallbacks callbacks refs h = (r, h') \<Longrightarrow> b \<le> length h \<Longrightarrow>
     (\<forall>cb \<in> set callbacks. atOrAbove b (fst cb)) \<Longrightarrow> keeps b h h'"
proof (induction callbacks refs h arbitrary: r h' rule: runCallbacks.induct)
  case (1 refs h)
  then show ?case by (simp add: keeps_refl)
next
  case (2 mock slot r0 rest refs h)
  let ?v = "(case refs r0 of None \<Rightarrow> Undefined | Some v \<Rightarrow> v)"
  from "2.prems"(3) have am: "atOrAbove b mock" and sr: "\<forall>cb \<in> set rest. atOrAbove b (fst cb)"
    by simp_all
  show ?case
  proof (cases "setProp h mock slot ?v")
    case (Inl e)
    with "2.prems" show ?thesis by (simp add: keeps_refl)
  next
    case (Inr h1)
    have k1: "keeps b h h1" using Inr "2.prems"(2) by (rule setProp_keeps) (simp add: am)
    then have b1: "b \<le> length h1" by (simp add: keeps_def)
    from "2.prems"(1) Inr have "runCallbacks rest refs h1 = (r, h')" by simp
    from "2.IH"[OF Inr this b1 sr] k1 show ?thesis by (meson keeps_trans)
  qed
qed

lemma generateFromMetadata_keeps:
  assumes pt: "plainTemplate metadata" and g: "generateFromMetadata metadata h = (r, h')"
  shows "keeps (length h) h h'"
proof -
  obtain r1 h1 where gm: "generateMock metadata [] Map.empty h = (r1, h1)"
    by (cases "generateMock metadata [] Map.empty h")
  from generate_keeps(1)[of metadata "[]" Map.empty h "length h"] gm pt
  have k1: "keeps (length h) h h1"
    and s1: "\<forall>mock callbacks' refs'. r1 = Inr (mock, callbacks', refs') \<longrightarrow>
               (\<forall>cb \<in> set callbacks'. atOrAbove (length h) (fst cb))"
    by simp_all
  show ?thesis
  proof (cases r1)
    case (Inl e)
    with g gm k1 show ?thesis by (simp add: generateFromMetadata_def)
  next
    case (Inr res)
    obtain mock callbacks refs where res: "res = (mock, callbacks, refs)" by (cases res)
    obtain r2 h2 where rc: "runCallbacks callbacks refs h1 = (r2, h2)"
      by (cases "runCallbacks callbacks refs h1")
    have "h' = h2" using g gm Inr res rc by (auto simp: generateFromMetadata_def split: sum.splits)
    moreover from s1 Inr res have "\<forall>cb \<in> set callbacks. atOrAbove (length h) (fst cb)" by simp
    moreover from k1 have "length h \<le> length h1" by (simp add: keeps_def)
    ultimately show ?thesis using runCallbacks_keeps[OF rc] k1 by (meson keeps_trans)
  qed
qed

text \<open>Reading a member through a chain of prototypes that ends, in a heap that grew.\<close>

lemma lookupFrom_nonRef [simp]:
  "lookupFrom n h Undefined s = Undefined" "lookupFrom n h Null s = Undefined"
  by (cases n; simp)+


lemma lookupFrom_agree:
  "chainEnds n h v \<Longrightarrow> agreeOn s h h' \<Longrightarrow> lookupFrom (n + j) h' v s = lookupFrom n h v s"
proof (induction n arbitrary: v)
  case 0
  then show ?case by (cases v; cases j) simp_all
next
  case (Suc n)
  show ?case
  proof (cases v)
    case (Ref a)
    with Suc.prems(1) have a: "a < length h" and ce: "chainEnds n h (proto (h ! a))"
      by (auto simp: lookupObj_def split: if_splits)
    from Suc.prems(2) a have a': "a < length h'" and pr: "proto (h' ! a) = proto (h ! a)"
      and mp: "map_of (props (h' ! a)) s = map_of (props (h ! a)) s"
      by (auto simp: agreeOn_def)
    from Suc.IH[OF ce Suc.prems(2)] a a' pr mp show ?thesis
      by (simp add: Ref lookupObj_def split: option.splits)
  qed simp_all
qed


lemma agreeOn_refl: "agreeOn s h h"
  by (simp add: agreeOn_def)


lemma lookupProp_agree:
  assumes ce: "chainEnds (length h) h v" and ag: "agreeOn s h h'"
  shows "lookupProp h' v s = lookupProp h v s"
proof -
  from ag have "length h \<le> length h'" by (simp add: agreeOn_def)
  then obtain j where j: "length h' = length h + j" using le_Suc_ex by blast
  from lookupFrom_agree[OF ce ag, of j] lookupFrom_agree[OF ce agreeOn_refl, of 0 s]
  show ?thesis by (simp add: lookupProp_def j)
qed


lemma makeComponent_function:
  "md_type metadata = Some ''function'' \<Longrightarrow>
     makeComponent metadata h = (Inr (Ref (length h)), h @ mockObjects (length h) (newMock metadata))"
  by (simp add: makeComponent_def Let_def newMock_def mockObjects_def)


lemma generateMock_result:
  assumes "generateMock metadata callbacks refs h = (Inr (mock, c, t), h1)"
  shows "\<exists>hm. makeComponent metadata h = (Inr mock, hm) \<and> grows hm h1"
proof -
  obtain r0 hm where mk: "makeComponent metadata h = (r0, hm)" by (cases "makeComponent metadata h")
  with assms obtain m0 where r0: "r0 = Inr m0"
    by (cases r0) (auto simp: generateMock_unfold)
  let ?refs1 = "(case md_refID metadata of None \<Rightarrow> refs | Some r \<Rightarrow> refs(r \<mapsto> m0))"
  obtain r2 h2 where sl: "generateSlots m0 (md_members metadata) callbacks ?refs1 hm = (r2, h2)"
    by (cases "generateSlots m0 (md_members metadata) callbacks ?refs1 hm")
  have g2: "grows hm h2" using generateSlots_grows[OF sl] .
  have "m0 = mock \<and> (h1 = h2 \<or> (\<exists>p. setProp h2 p ''constructor'' m0 = Inr h1))"
    using assms mk r0 sl
    by (auto simp: generateMock_unfold split: sum.splits if_splits prod.splits)
  then show ?thesis using mk r0 g2 setProp_grows grows_trans by blast
qed


lemma generated_function:
  assumes ty: "md_type metadata = Some ''function''"
    and g: "generateFromMetadata metadata h = (Inr m, h')"
  shows "m = Ref (length h) \<and> Suc (length h) < length h'
       \<and> closure (h' ! length h) = Some (newMock metadata)"
proof -
  obtain r1 h1 where gm: "generateMock metadata [] Map.empty h = (r1, h1)"
    by (cases "generateMock metadata [] Map.empty h")
  with g obtain res where r1: "r1 = Inr res" by (cases r1) (auto simp: generateFromMetadata_def)
  obtain mock callbacks refs where res: "res = (mock, callbacks, refs)" by (cases res)
  obtain r2 h2 where rc: "runCallbacks callbacks refs h1 = (r2, h2)"
    by (cases "runCallbacks callbacks refs h1")
  have mm: "m = mock \<and> h' = h2"
    using g gm r1 res rc by (auto simp: generateFromMetadata_def split: sum.splits)
  from generateMock_result[OF gm[unfolded r1 res]] makeComponent_function[OF ty, of h]
  have mk: "mock = Ref (length h)" and g1: "grows (h @ mockObjects (length h) (newMock metadata)) h1"
    by auto
  from g1 runCallbacks_grows[OF rc] mm
  have gr: "grows (h @ mockObjects (length h) (newMock metadata)) h'" by (meson grows_trans)
  then have "length h + 2 \<le> length h'"
    and "closure (h' ! length h) = closure ((h @ mockObjects (length h) (newMock metadata)) ! length h)"
    by (simp_all add: grows_def mockObjects_def)
  with mk mm show ?thesis by (simp add: mockObjects_def)
qed


lemma chainEnds_proto:
  "chainEnds n h v \<Longrightarrow> length h \<le> length h' \<Longrightarrow> (\<forall>a < length h. proto (h' ! a) = proto (h ! a)) \<Longrightarrow>
     chainEnds (n + j) h' v"
proof (induction n arbitrary: v)
  case 0
  then show ?case by (cases v; cases j) simp_all
next
  case (Suc n)
  show ?case
  proof (cases v)
    case (Ref a)
    with Suc.prems(1) have a: "a < length h" and ce: "chainEnds n h (proto (h ! a))"
      by (auto simp: lookupObj_def split: if_splits)
    from Suc.prems(2,3) a have a': "a < length h'" and pr: "proto (h' ! a) = proto (h ! a)"
      by auto
    from Suc.IH[OF ce Suc.prems(2,3)] a a' pr show ?thesis
      by (simp add: Ref lookupObj_def)
  qed simp_all
qed



text \<open>
  One turn of the \<^verbatim>\<open>forEach\<close> of a constructor-style call on a function-typed slot, and
  the whole loop.
\<close>

lemma copySlots_function_step:
  assumes t: "t < length h"
    and md: "map_of P slot = Some md" "md_type md = Some ''function''" "plainTemplate md"
    and run: "copySlots h (Ref t) P (slot # rest) = (Inr u, h')"
  shows "\<exists>h3. copySlots h3 (Ref t) P rest = (Inr u, h')
          \<and> length h + 2 \<le> length h3
          \<and> (\<forall>a < length h. proto (h3 ! a) = proto (h ! a) \<and> closure (h3 ! a) = closure (h ! a)
                \<and> (\<forall>s. s \<noteq> ''constructor'' \<longrightarrow> \<not> (a = t \<and> s = slot) \<longrightarrow>
                      map_of (props (h3 ! a)) s = map_of (props (h ! a)) s))
          \<and> map_of (props (h3 ! t)) slot = Some (Data (Ref (length h)))
          \<and> closure (h3 ! length h) = Some (newMock md)
          \<and> map_of (props (h3 ! length h)) ''_protoImpl'' = Some (Data (lookupProp h (Ref t) slot))"
proof -
  obtain rg h1 where gen: "generateFromMetadata md h = (rg, h1)"
    by (cases "generateFromMetadata md h")
  from run md gen obtain m where rg: "rg = Inr m" by (cases rg) (auto simp: Let_def)
  from generated_function[OF md(2) gen[unfolded rg]]
  have m: "m = Ref (length h)" and l1: "Suc (length h) < length h1"
    and c1: "closure (h1 ! length h) = Some (newMock md)" by blast+
  from generateFromMetadata_keeps[OF md(3) gen] have k1: "keeps (length h) h h1" .
  let ?pi = "lookupProp h (Ref t) slot"
  obtain r2 where r2: "setProp h1 (Ref t) slot m = r2" by simp
  from run md gen rg r2 obtain h2 where sp1: "setProp h1 (Ref t) slot m = Inr h2"
    by (cases r2) (auto simp: Let_def)
  from setProp_Inr[OF sp1]
  have h2: "h2 = h1[t := (h1 ! t)\<lparr>props := AList.update slot (Data m) (props (h1 ! t))\<rparr>]" by auto
  have t1: "t < length h1" using t l1 by simp
  have h2t: "h2 ! t = (h1 ! t)\<lparr>props := AList.update slot (Data m) (props (h1 ! t))\<rparr>"
    using t1 by (simp add: h2)
  have lk: "lookupProp h2 (Ref t) slot = m"
  proof -
    have "t < length h2" using t1 by (simp add: h2)
    moreover have "map_of (props (h2 ! t)) slot = Some (Data m)"
      by (simp add: h2t AList.update_conv')
    ultimately show ?thesis using lookupProp_own[of t h2 slot "Data m"] by (simp add: propValue_def)
  qed
  obtain r3 where r3: "setProp h2 m ''_protoImpl'' ?pi = r3" by simp
  from run md gen rg sp1 lk r3 obtain h3 where sp2: "setProp h2 m ''_protoImpl'' ?pi = Inr h3"
    by (cases r3) (auto simp: Let_def)
  from setProp_Inr[OF sp2] m
  have h3: "h3 = h2[length h := (h2 ! length h)\<lparr>props :=
                      AList.update ''_protoImpl'' (Data ?pi) (props (h2 ! length h))\<rparr>]" by auto
  have step: "copySlots h3 (Ref t) P rest = (Inr u, h')"
    using run md gen rg sp1 lk sp2 by (simp add: Let_def)
  have l2: "length h < length h2" using l1 by (simp add: h2)
  have len: "length h + 2 \<le> length h3" using l1 by (simp add: h3 h2)
  have nt: "length h \<noteq> t" using t by simp
  have old: "\<forall>a < length h. proto (h3 ! a) = proto (h ! a) \<and> closure (h3 ! a) = closure (h ! a)
                \<and> (\<forall>s. s \<noteq> ''constructor'' \<longrightarrow> \<not> (a = t \<and> s = slot) \<longrightarrow>
                      map_of (props (h3 ! a)) s = map_of (props (h ! a)) s)"
  proof (intro allI impI)
    fix a assume a: "a < length h"
    from k1 a have ka: "proto (h1 ! a) = proto (h ! a)" "closure (h1 ! a) = closure (h ! a)"
      "\<forall>s. s \<noteq> ''constructor'' \<longrightarrow> map_of (props (h1 ! a)) s = map_of (props (h ! a)) s"
      by (simp_all add: keeps_def)
    have a3: "h3 ! a = h2 ! a" using a by (simp add: h3)
    show "proto (h3 ! a) = proto (h ! a) \<and> closure (h3 ! a) = closure (h ! a)
                \<and> (\<forall>s. s \<noteq> ''constructor'' \<longrightarrow> \<not> (a = t \<and> s = slot) \<longrightarrow>
                      map_of (props (h3 ! a)) s = map_of (props (h ! a)) s)"
    proof (cases "a = t")
      case True
      with ka h2t a3 show ?thesis by (simp add: AList.update_conv')
    next
      case False
      then have "h2 ! a = h1 ! a" by (simp add: h2)
      with ka a3 show ?thesis by simp
    qed
  qed
  have own: "map_of (props (h3 ! t)) slot = Some (Data (Ref (length h)))"
    using nt h2t by (simp add: h3 m AList.update_conv')
  have h2m: "h2 ! length h = h1 ! length h" using nt by (simp add: h2)
  have h3m: "h3 ! length h = (h1 ! length h)\<lparr>props :=
                AList.update ''_protoImpl'' (Data ?pi) (props (h1 ! length h))\<rparr>"
    using l2 h2m by (simp add: h3)
  have cl: "closure (h3 ! length h) = Some (newMock md)" using c1 by (simp add: h3m)
  have pim: "map_of (props (h3 ! length h)) ''_protoImpl'' = Some (Data ?pi)"
    by (simp add: h3m AList.update_conv')
  from step len old own cl pim show ?thesis by blast
qed

lemma copySlots_installed:
  assumes tv: "\<forall>s md. map_of P s = Some md \<longrightarrow> md_type md = Some ''function'' \<longrightarrow> plainTemplate md"
  shows "copySlots h (Ref t) P slots = (Inr u, h') \<Longrightarrow> t < length h \<Longrightarrow>
         chainEnds (length h) h (Ref t) \<Longrightarrow> distinct slots \<Longrightarrow> installed h t P slots h'"
proof (induction slots arbitrary: h)
  case Nil
  then show ?case by (simp add: installed_def)
next
  case (Cons slot rest)
  from Cons.prems(4) have dr: "distinct rest" and nr: "slot \<notin> set rest" by simp_all
  show ?case
  proof (cases "map_of P slot")
    case None
    with Cons.prems(1) show ?thesis by simp
  next
    case (Some md)
    show ?thesis
    proof (cases "md_type md = Some ''function''")
      case False
      with Cons.prems(1) Some have "copySlots h (Ref t) P rest = (Inr u, h')" by simp
      from Cons.IH[OF this Cons.prems(2,3) dr] have I: "installed h t P rest h'" .
      have nf: "\<not> isFunctionSlot P slot" using Some False by (simp add: isFunctionSlot_def)
      from I nf Some False show ?thesis
        unfolding installed_def by (intro conjI; auto)
    next
      case True
      from tv Some True have nv: "plainTemplate md" by blast
      from copySlots_function_step[OF Cons.prems(2) Some True nv Cons.prems(1)]
      obtain h3 where step: "copySlots h3 (Ref t) P rest = (Inr u, h')"
        and len: "length h + 2 \<le> length h3"
        and old: "\<forall>a < length h. proto (h3 ! a) = proto (h ! a) \<and> closure (h3 ! a) = closure (h ! a)
                \<and> (\<forall>s. s \<noteq> ''constructor'' \<longrightarrow> \<not> (a = t \<and> s = slot) \<longrightarrow>
                      map_of (props (h3 ! a)) s = map_of (props (h ! a)) s)"
        and own3: "map_of (props (h3 ! t)) slot = Some (Data (Ref (length h)))"
        and cl: "closure (h3 ! length h) = Some (newMock md)"
        and pim: "map_of (props (h3 ! length h)) ''_protoImpl'' = Some (Data (lookupProp h (Ref t) slot))"
        by blast
      have fs: "isFunctionSlot P slot" using Some True by (simp add: isFunctionSlot_def)
      have t3: "t < length h3" using Cons.prems(2) len by simp
      have pr3: "\<forall>a < length h. proto (h3 ! a) = proto (h ! a)" using old by simp
      obtain j where j: "length h3 = length h + j" using len
        by (metis add_leD1 le_Suc_ex)
      have ce3: "chainEnds (length h3) h3 (Ref t)"
        unfolding j by (rule chainEnds_proto[OF Cons.prems(3)]) (use len pr3 in simp_all)
      from Cons.IH[OF step t3 ce3 dr] have I: "installed h3 t P rest h'" .
      have stable: "\<And>s. s \<noteq> slot \<Longrightarrow> s \<noteq> ''constructor'' \<Longrightarrow>
                      lookupProp h3 (Ref t) s = lookupProp h (Ref t) s"
      proof -
        fix s :: string assume ne: "s \<noteq> slot" and nc: "s \<noteq> ''constructor''"
        have "agreeOn s h h3"
          unfolding agreeOn_def
        proof (intro conjI allI impI)
          show "length h \<le> length h3" using len by simp
        next
          fix a assume a: "a < length h"
          show "proto (h3 ! a) = proto (h ! a)" using pr3 a by simp
          show "map_of (props (h3 ! a)) s = map_of (props (h ! a)) s"
            using old a ne nc by simp
        qed
        with Cons.prems(3) show "lookupProp h3 (Ref t) s = lookupProp h (Ref t) s"
          by (rule lookupProp_agree)
      qed
      from I have I1: "length h3 \<le> length h'"
        and I2: "\<forall>a < length h3. proto (h' ! a) = proto (h3 ! a) \<and> closure (h' ! a) = closure (h3 ! a)
            \<and> (\<forall>s. s \<noteq> ''constructor'' \<longrightarrow> \<not> (a = t \<and> s \<in> set rest \<and> isFunctionSlot P s) \<longrightarrow>
                  map_of (props (h' ! a)) s = map_of (props (h3 ! a)) s)"
        and I5: "\<forall>s \<in> set rest. \<forall>md. s \<noteq> ''constructor'' \<longrightarrow> map_of P s = Some md \<longrightarrow>
            md_type md = Some ''function'' \<longrightarrow>
            (\<exists>m. map_of (props (h' ! t)) s = Some (Data (Ref m)) \<and> length h3 \<le> m \<and> m < length h'
                 \<and> closure (h' ! m) = Some (newMock md)
                 \<and> map_of (props (h' ! m)) ''_protoImpl'' = Some (Data (lookupProp h3 (Ref t) s)))"
        and I6: "\<forall>s1 \<in> set rest. \<forall>s2 \<in> set rest. isFunctionSlot P s1 \<longrightarrow> isFunctionSlot P s2 \<longrightarrow>
            s1 \<noteq> ''constructor'' \<longrightarrow> s2 \<noteq> ''constructor'' \<longrightarrow> s1 \<noteq> s2 \<longrightarrow>
            map_of (props (h' ! t)) s1 \<noteq> map_of (props (h' ! t)) s2"
        unfolding installed_def by blast+
      have own: "slot \<noteq> ''constructor'' \<Longrightarrow> map_of (props (h' ! t)) slot = Some (Data (Ref (length h)))"
        using I2 t3 nr own3 by simp
      have lh3: "length h < length h3" using len by simp
      have nt: "length h \<noteq> t" using Cons.prems(2) by simp
      have mcl: "closure (h' ! length h) = Some (newMock md)" using I2 lh3 cl by simp
      have mpi: "map_of (props (h' ! length h)) ''_protoImpl'' = Some (Data (lookupProp h (Ref t) slot))"
        using I2 lh3 nt pim by simp
      have C1: "length h \<le> length h'" using len I1 by simp
      have C2: "\<forall>a < length h. proto (h' ! a) = proto (h ! a) \<and> closure (h' ! a) = closure (h ! a)
            \<and> (\<forall>s. s \<noteq> ''constructor'' \<longrightarrow> \<not> (a = t \<and> s \<in> set (slot # rest) \<and> isFunctionSlot P s) \<longrightarrow>
                  map_of (props (h' ! a)) s = map_of (props (h ! a)) s)"
      proof (intro allI impI)
        fix a assume a: "a < length h"
        then have a3: "a < length h3" using len by simp
        from I2 a3 have i: "proto (h' ! a) = proto (h3 ! a)" "closure (h' ! a) = closure (h3 ! a)"
          "\<forall>s. s \<noteq> ''constructor'' \<longrightarrow> \<not> (a = t \<and> s \<in> set rest \<and> isFunctionSlot P s) \<longrightarrow>
                  map_of (props (h' ! a)) s = map_of (props (h3 ! a)) s" by simp_all
        from old a have o: "proto (h3 ! a) = proto (h ! a)" "closure (h3 ! a) = closure (h ! a)"
          "\<forall>s. s \<noteq> ''constructor'' \<longrightarrow> \<not> (a = t \<and> s = slot) \<longrightarrow>
                      map_of (props (h3 ! a)) s = map_of (props (h ! a)) s" by simp_all
        have "\<forall>s. s \<noteq> ''constructor'' \<longrightarrow> \<not> (a = t \<and> s \<in> set (slot # rest) \<and> isFunctionSlot P s) \<longrightarrow>
                  map_of (props (h' ! a)) s = map_of (props (h ! a)) s"
        proof (intro allI impI)
          fix s assume nc: "s \<noteq> ''constructor''"
            and n: "\<not> (a = t \<and> s \<in> set (slot # rest) \<and> isFunctionSlot P s)"
          from n fs have n1: "\<not> (a = t \<and> s = slot)" and n2: "\<not> (a = t \<and> s \<in> set rest \<and> isFunctionSlot P s)"
            by auto
          from i(3) nc n2 have "map_of (props (h' ! a)) s = map_of (props (h3 ! a)) s" by blast
          moreover from o(3) nc n1 have "map_of (props (h3 ! a)) s = map_of (props (h ! a)) s" by blast
          ultimately show "map_of (props (h' ! a)) s = map_of (props (h ! a)) s" by simp
        qed
        with i o show "proto (h' ! a) = proto (h ! a) \<and> closure (h' ! a) = closure (h ! a)
            \<and> (\<forall>s. s \<noteq> ''constructor'' \<longrightarrow> \<not> (a = t \<and> s \<in> set (slot # rest) \<and> isFunctionSlot P s) \<longrightarrow>
                  map_of (props (h' ! a)) s = map_of (props (h ! a)) s)" by simp
      qed
      have C5: "\<forall>s \<in> set (slot # rest). \<forall>md. s \<noteq> ''constructor'' \<longrightarrow> map_of P s = Some md \<longrightarrow>
            md_type md = Some ''function'' \<longrightarrow>
            (\<exists>m. map_of (props (h' ! t)) s = Some (Data (Ref m)) \<and> length h \<le> m \<and> m < length h'
                 \<and> closure (h' ! m) = Some (newMock md)
                 \<and> map_of (props (h' ! m)) ''_protoImpl'' = Some (Data (lookupProp h (Ref t) s)))"
      proof (intro ballI allI impI)
        fix s md'
        assume s: "s \<in> set (slot # rest)" and nc: "s \<noteq> ''constructor''"
          and m1: "map_of P s = Some md'" and m2: "md_type md' = Some ''function''"
        show "\<exists>m. map_of (props (h' ! t)) s = Some (Data (Ref m)) \<and> length h \<le> m \<and> m < length h'
                 \<and> closure (h' ! m) = Some (newMock md')
                 \<and> map_of (props (h' ! m)) ''_protoImpl'' = Some (Data (lookupProp h (Ref t) s))"
        proof (cases "s = slot")
          case True
          with m1 Some have "md' = md" by simp
          with True own nc mcl mpi len I1 show ?thesis
            by (intro exI[of _ "length h"]) simp
        next
          case False
          with s have sr: "s \<in> set rest" by simp
          from I5 sr nc m1 m2 obtain m where
            "map_of (props (h' ! t)) s = Some (Data (Ref m))" "length h3 \<le> m" "m < length h'"
            "closure (h' ! m) = Some (newMock md')"
            "map_of (props (h' ! m)) ''_protoImpl'' = Some (Data (lookupProp h3 (Ref t) s))"
            by blast
          with stable[OF False nc] len show ?thesis
            by (intro exI[of _ m]) simp
        qed
      qed
      have C6: "\<forall>s1 \<in> set (slot # rest). \<forall>s2 \<in> set (slot # rest). isFunctionSlot P s1 \<longrightarrow>
            isFunctionSlot P s2 \<longrightarrow> s1 \<noteq> ''constructor'' \<longrightarrow> s2 \<noteq> ''constructor'' \<longrightarrow> s1 \<noteq> s2 \<longrightarrow>
            map_of (props (h' ! t)) s1 \<noteq> map_of (props (h' ! t)) s2"
      proof (intro ballI impI)
        fix s1 s2
        assume s1: "s1 \<in> set (slot # rest)" and s2: "s2 \<in> set (slot # rest)"
          and f1: "isFunctionSlot P s1" and f2: "isFunctionSlot P s2"
          and c1: "s1 \<noteq> ''constructor''" and c2: "s2 \<noteq> ''constructor''" and ne: "s1 \<noteq> s2"
        have later: "\<And>s. s \<in> set rest \<Longrightarrow> isFunctionSlot P s \<Longrightarrow> s \<noteq> ''constructor'' \<Longrightarrow>
                       map_of (props (h' ! t)) s \<noteq> Some (Data (Ref (length h)))"
        proof -
          fix s assume sr: "s \<in> set rest" and f: "isFunctionSlot P s" and nc: "s \<noteq> ''constructor''"
          from f obtain md' where "map_of P s = Some md'" "md_type md' = Some ''function''"
            by (auto simp: isFunctionSlot_def split: option.splits)
          with I5 sr nc obtain m where "map_of (props (h' ! t)) s = Some (Data (Ref m))" "length h3 \<le> m"
            by blast
          with len show "map_of (props (h' ! t)) s \<noteq> Some (Data (Ref (length h)))" by simp
        qed
        show "map_of (props (h' ! t)) s1 \<noteq> map_of (props (h' ! t)) s2"
        proof (cases "s1 = slot")
          case True
          with ne s2 have "s2 \<in> set rest" by auto
          from later[OF this f2 c2] own True c1 show ?thesis by simp
        next
          case F1: False
          with s1 have r1: "s1 \<in> set rest" by simp
          show ?thesis
          proof (cases "s2 = slot")
            case True
            from later[OF r1 f1 c1] own True c2 show ?thesis by simp
          next
            case False
            with s2 have "s2 \<in> set rest" by simp
            with I6 r1 f1 f2 c1 c2 ne show ?thesis by blast
          qed
        qed
      qed
      from C1 C2 C5 C6 show ?thesis unfolding installed_def by blast
    qed
  qed
qed

lemma lookupProp_inherited:
  assumes ce: "chainEnds (length h) h this" and no: "\<not> hasOwnProperty h this slot"
  shows "lookupProp h this slot = lookupProp h (getPrototypeOf h this) slot"
proof (cases this)
  case (Ref t)
  show ?thesis
  proof (cases "length h")
    case 0
    with ce Ref show ?thesis by simp
  next
    case (Suc k)
    from ce Ref Suc have t: "t < length h" and ce': "chainEnds k h (proto (h ! t))"
      by (auto simp: lookupObj_def split: if_splits)
    from no Ref t have own: "map_of (props (h ! t)) slot = None"
      by (simp add: hasOwnProperty_def ownProperties_def lookupObj_def)
    have "lookupProp h this slot = lookupFrom k h (proto (h ! t)) slot"
      using Ref Suc t own by (simp add: lookupProp_def lookupObj_def)
    moreover have "lookupFrom (k + 1) h (proto (h ! t)) slot = lookupFrom k h (proto (h ! t)) slot"
      by (rule lookupFrom_agree[OF ce' agreeOn_refl])
    moreover have "getPrototypeOf h this = proto (h ! t)"
      using Ref t by (simp add: getPrototypeOf_def lookupObj_def)
    ultimately show ?thesis using Suc by (simp add: lookupProp_def)
  qed
qed (simp_all add: lookupProp_def getPrototypeOf_def, (cases "length h"; simp)+)


text \<open>
  Claim C3, as amended. Let the callable at \<open>f\<close>, with the mock record \<open>ms\<close>, be invoked
  in constructor style, that is, with a receiver that is an instance of \<open>f\<close> and whose
  chain of prototypes ends. Let the behaviour template of \<open>ms\<close> have its member names
  as \<^verbatim>\<open>prototypeSlots\<close>, each once, let its function-typed members be plain templates, and
  let the loop over the members return without throwing. Then for each function-typed
  member of the template other than \<^verbatim>\<open>constructor\<close> the receiver holds a callable that
  was not in the heap before the call, with the mock record of a new mock made from the
  metadata of the member, whose \<^verbatim>\<open>_protoImpl\<close> is what the receiver had in that slot, as
  its own member or an inherited one, when the call began. That is the implementation
  of the template, the member of \<^verbatim>\<open>f.prototype\<close>, when the receiver has no own member of
  that name and \<^verbatim>\<open>f.prototype\<close> is its prototype, as for the receiver that \<^verbatim>\<open>new\<close> creates.
  Different members get different callables, and every member of the receiver that is
  no function-typed member of the template reads as before, but for \<^verbatim>\<open>constructor\<close>
  (the generation of a member may assign \<^verbatim>\<open>constructor\<close> on the \<^verbatim>\<open>prototype\<close> of a
  captured value, which may be any object). The mock record of \<open>f\<close> after the loop is
  \<open>ms\<close> with the receiver and the arguments recorded, so the one-shot queues are as
  they were; and the call is the persistent implementation \<^verbatim>\<open>mockImpl\<close> applied to the
  receiver and the arguments in the heap that the loop left, or returns \<^verbatim>\<open>mockImpl\<close>
  itself when it is falsy: \<^verbatim>\<open>undefined\<close> when none is configured.
\<close>

theorem constructor_style_call:
  assumes cl: "closureOf h f = Some ms"
    and inst: "instanceOf h this (Ref f) = Inr True"
    and slots: "prototypeSlots ms = getSlotsMembers (prototype ms)" "distinct (prototypeSlots ms)"
    and pt: "\<forall>sm \<in> set (prototype ms). md_type (snd sm) = Some ''function'' \<longrightarrow> plainTemplate (snd sm)"
    and ce: "chainEnds (length h) h this"
    and run: "copySlots (recordCall h f this args) this (prototype ms) (prototypeSlots ms) = (Inr u, h3)"
  shows "(\<forall>slot md. (slot, md) \<in> set (prototype ms) \<longrightarrow> md_type md = Some ''function'' \<longrightarrow>
            slot \<noteq> ''constructor'' \<longrightarrow>
            (\<exists>m. lookupProp h3 this slot = Ref m \<and> length h \<le> m
                 \<and> closureOf h3 m = Some (newMock md)
                 \<and> lookupProp h3 (Ref m) ''_protoImpl'' = lookupProp h this slot))
       \<and> (\<forall>slot. \<not> hasOwnProperty h this slot \<longrightarrow>
            getPrototypeOf h this = lookupProp h (Ref f) ''prototype'' \<longrightarrow>
            lookupProp h this slot = lookupProp h (lookupProp h (Ref f) ''prototype'') slot)
       \<and> (\<forall>s1 md1 s2 md2. (s1, md1) \<in> set (prototype ms) \<longrightarrow> md_type md1 = Some ''function'' \<longrightarrow>
            (s2, md2) \<in> set (prototype ms) \<longrightarrow> md_type md2 = Some ''function'' \<longrightarrow>
            s1 \<noteq> ''constructor'' \<longrightarrow> s2 \<noteq> ''constructor'' \<longrightarrow> s1 \<noteq> s2 \<longrightarrow>
            lookupProp h3 this s1 \<noteq> lookupProp h3 this s2)
       \<and> (\<forall>slot. slot \<noteq> ''constructor'' \<longrightarrow>
            (\<forall>md. (slot, md) \<in> set (prototype ms) \<longrightarrow> md_type md \<noteq> Some ''function'') \<longrightarrow>
            lookupProp h3 this slot = lookupProp h this slot)
       \<and> closureOf h3 f = Some (ms\<lparr>instances := instances ms @ [this], calls := calls ms @ [args]\<rparr>)
       \<and> mockConstructor ap h f this args =
            (if truthy (mockImpl ms) then ap h3 (mockImpl ms) this args else Some (Inr (mockImpl ms), h3))
       \<and> (mockImpl ms = Undefined \<longrightarrow> mockConstructor ap h f this args = Some (Inr Undefined, h3))"
proof -
  let ?h2 = "recordCall h f this args"
  let ?P = "prototype ms"
  have ss: "sameShape h ?h2" by (rule sameShape_recordCall)
  then have len2: "length ?h2 = length h" by (simp add: sameShape_def)
  from inst obtain t where t: "this = Ref t" "t < length h"
    by (auto simp: instanceOf_def lookupObj_def split: val.splits if_splits)
  have dk: "distinct (map fst ?P)" using slots by (simp add: getSlotsMembers_def)
  have pt': "\<forall>s md. map_of ?P s = Some md \<longrightarrow> md_type md = Some ''function'' \<longrightarrow> plainTemplate md"
  proof (intro allI impI)
    fix s md assume "map_of ?P s = Some md" and f: "md_type md = Some ''function''"
    then have "(s, md) \<in> set ?P" by (simp add: map_of_SomeD)
    with pt f show "plainTemplate md" by force
  qed
  have ce2: "chainEnds (length ?h2) ?h2 (Ref t)"
  proof -
    have "chainEnds (length h + 0) ?h2 (Ref t)"
      by (rule chainEnds_proto[OF ce[unfolded t(1)]]) (use ss in \<open>simp_all add: sameShape_def\<close>)
    then show ?thesis by (simp add: len2)
  qed
  have run': "copySlots ?h2 (Ref t) ?P (prototypeSlots ms) = (Inr u, h3)" using run t(1) by simp
  have I: "installed ?h2 t ?P (prototypeSlots ms) h3"
    by (rule copySlots_installed[OF pt' run' _ ce2 slots(2)]) (simp add: len2 t(2))
  from I have I1: "length h \<le> length h3"
    and I2: "\<forall>a < length h. proto (h3 ! a) = proto (?h2 ! a) \<and> closure (h3 ! a) = closure (?h2 ! a)
            \<and> (\<forall>s. s \<noteq> ''constructor'' \<longrightarrow>
                  \<not> (a = t \<and> s \<in> set (prototypeSlots ms) \<and> isFunctionSlot ?P s) \<longrightarrow>
                  map_of (props (h3 ! a)) s = map_of (props (?h2 ! a)) s)"
    and I5: "\<forall>s \<in> set (prototypeSlots ms). \<forall>md. s \<noteq> ''constructor'' \<longrightarrow> map_of ?P s = Some md \<longrightarrow>
            md_type md = Some ''function'' \<longrightarrow>
            (\<exists>m. map_of (props (h3 ! t)) s = Some (Data (Ref m)) \<and> length h \<le> m \<and> m < length h3
                 \<and> closure (h3 ! m) = Some (newMock md)
                 \<and> map_of (props (h3 ! m)) ''_protoImpl'' = Some (Data (lookupProp ?h2 (Ref t) s)))"
    and I6: "\<forall>s1 \<in> set (prototypeSlots ms). \<forall>s2 \<in> set (prototypeSlots ms). isFunctionSlot ?P s1 \<longrightarrow>
            isFunctionSlot ?P s2 \<longrightarrow> s1 \<noteq> ''constructor'' \<longrightarrow> s2 \<noteq> ''constructor'' \<longrightarrow> s1 \<noteq> s2 \<longrightarrow>
            map_of (props (h3 ! t)) s1 \<noteq> map_of (props (h3 ! t)) s2"
    unfolding installed_def len2 by blast+
  have t3: "t < length h3" using t(2) I1 by simp
  have member: "\<And>slot md. (slot, md) \<in> set ?P \<Longrightarrow>
                  slot \<in> set (prototypeSlots ms) \<and> map_of ?P slot = Some md"
  proof -
    fix slot md assume m: "(slot, md) \<in> set ?P"
    then have "slot \<in> fst ` set ?P" by force
    with slots(1) have "slot \<in> set (prototypeSlots ms)" by (simp add: getSlotsMembers_def)
    moreover from dk m have "map_of ?P slot = Some md" by simp
    ultimately show "slot \<in> set (prototypeSlots ms) \<and> map_of ?P slot = Some md" by simp
  qed
  have own: "\<And>s p. map_of (props (h3 ! t)) s = Some p \<Longrightarrow> lookupProp h3 this s = propValue p"
    unfolding t(1) using t3 by (rule lookupProp_own)
  have A: "\<forall>slot md. (slot, md) \<in> set ?P \<longrightarrow> md_type md = Some ''function'' \<longrightarrow>
            slot \<noteq> ''constructor'' \<longrightarrow>
            (\<exists>m. lookupProp h3 this slot = Ref m \<and> length h \<le> m
                 \<and> closureOf h3 m = Some (newMock md)
                 \<and> lookupProp h3 (Ref m) ''_protoImpl'' = lookupProp h this slot)"
  proof (intro allI impI)
    fix slot md assume m: "(slot, md) \<in> set ?P" and f: "md_type md = Some ''function''"
      and nc: "slot \<noteq> ''constructor''"
    from member[OF m] I5 f nc obtain a where
      a: "map_of (props (h3 ! t)) slot = Some (Data (Ref a))" "length h \<le> a" "a < length h3"
         "closure (h3 ! a) = Some (newMock md)"
         "map_of (props (h3 ! a)) ''_protoImpl'' = Some (Data (lookupProp ?h2 (Ref t) slot))"
      by blast
    have "lookupProp h3 this slot = Ref a" using own[OF a(1)] by (simp add: propValue_def)
    moreover have "closureOf h3 a = Some (newMock md)"
      using a(3,4) by (simp add: closureOf_def lookupObj_def)
    moreover have "lookupProp h3 (Ref a) ''_protoImpl'' = lookupProp h this slot"
      using lookupProp_own[OF a(3) a(5)] sameShape_lookupProp[OF ss, of "Ref t" slot]
      by (simp add: propValue_def t(1))
    ultimately show "\<exists>m. lookupProp h3 this slot = Ref m \<and> length h \<le> m
                 \<and> closureOf h3 m = Some (newMock md)
                 \<and> lookupProp h3 (Ref m) ''_protoImpl'' = lookupProp h this slot"
      using a(2) by blast
  qed
  have A2: "\<forall>slot. \<not> hasOwnProperty h this slot \<longrightarrow>
            getPrototypeOf h this = lookupProp h (Ref f) ''prototype'' \<longrightarrow>
            lookupProp h this slot = lookupProp h (lookupProp h (Ref f) ''prototype'') slot"
    using lookupProp_inherited[OF ce] by simp
  have B: "\<forall>s1 md1 s2 md2. (s1, md1) \<in> set ?P \<longrightarrow> md_type md1 = Some ''function'' \<longrightarrow>
            (s2, md2) \<in> set ?P \<longrightarrow> md_type md2 = Some ''function'' \<longrightarrow>
            s1 \<noteq> ''constructor'' \<longrightarrow> s2 \<noteq> ''constructor'' \<longrightarrow> s1 \<noteq> s2 \<longrightarrow>
            lookupProp h3 this s1 \<noteq> lookupProp h3 this s2"
  proof (intro allI impI)
    fix s1 md1 s2 md2
    assume m1: "(s1, md1) \<in> set ?P" and f1: "md_type md1 = Some ''function''"
      and m2: "(s2, md2) \<in> set ?P" and f2: "md_type md2 = Some ''function''"
      and c1: "s1 \<noteq> ''constructor''" and c2: "s2 \<noteq> ''constructor''" and ne: "s1 \<noteq> s2"
    from member[OF m1] f1 have k1: "s1 \<in> set (prototypeSlots ms)" "isFunctionSlot ?P s1"
      by (simp_all add: isFunctionSlot_def)
    from member[OF m2] f2 have k2: "s2 \<in> set (prototypeSlots ms)" "isFunctionSlot ?P s2"
      by (simp_all add: isFunctionSlot_def)
    from I6 k1 k2 c1 c2 ne have d: "map_of (props (h3 ! t)) s1 \<noteq> map_of (props (h3 ! t)) s2" by blast
    from member[OF m1] I5 f1 c1 obtain a1 where a1: "map_of (props (h3 ! t)) s1 = Some (Data (Ref a1))"
      by blast
    from member[OF m2] I5 f2 c2 obtain a2 where a2: "map_of (props (h3 ! t)) s2 = Some (Data (Ref a2))"
      by blast
    from d a1 a2 own[OF a1] own[OF a2]
    show "lookupProp h3 this s1 \<noteq> lookupProp h3 this s2" by (simp add: propValue_def)
  qed
  have C: "\<forall>slot. slot \<noteq> ''constructor'' \<longrightarrow>
            (\<forall>md. (slot, md) \<in> set ?P \<longrightarrow> md_type md \<noteq> Some ''function'') \<longrightarrow>
            lookupProp h3 this slot = lookupProp h this slot"
  proof (intro allI impI)
    fix slot assume nc: "slot \<noteq> ''constructor''"
      and nf: "\<forall>md. (slot, md) \<in> set ?P \<longrightarrow> md_type md \<noteq> Some ''function''"
    have nfs: "\<not> isFunctionSlot ?P slot"
    proof
      assume "isFunctionSlot ?P slot"
      then obtain md where "map_of ?P slot = Some md" "md_type md = Some ''function''"
        by (auto simp: isFunctionSlot_def split: option.splits)
      with nf map_of_SomeD show False by fastforce
    qed
    have "agreeOn slot ?h2 h3"
      unfolding agreeOn_def len2
    proof (intro conjI allI impI)
      show "length h \<le> length h3" by (rule I1)
    next
      fix a assume a: "a < length h"
      show "proto (h3 ! a) = proto (?h2 ! a)" using I2 a by simp
      show "map_of (props (h3 ! a)) slot = map_of (props (?h2 ! a)) slot"
        using I2 nfs nc a by simp
    qed
    from lookupProp_agree[OF ce2 this] sameShape_lookupProp[OF ss, of "Ref t" slot]
    show "lookupProp h3 this slot = lookupProp h this slot" by (simp add: t(1))
  qed
  have D: "closureOf h3 f = Some (ms\<lparr>instances := instances ms @ [this], calls := calls ms @ [args]\<rparr>)"
  proof -
    have "closureOf ?h2 f = Some (ms\<lparr>instances := instances ms @ [this], calls := calls ms @ [args]\<rparr>)"
      using cl by (simp add: closureOf_recordCall)
    with copySlots_grows[OF run] show ?thesis by (rule grows_closureOf)
  qed
  have E: "mockConstructor ap h f this args =
            (if truthy (mockImpl ms) then ap h3 (mockImpl ms) this args else Some (Inr (mockImpl ms), h3))"
    using mockConstructor_construct[OF cl inst, of ap args] run by simp
  have F: "mockImpl ms = Undefined \<longrightarrow> mockConstructor ap h f this args = Some (Inr Undefined, h3)"
    using E by (simp add: truthy_def)
  from A A2 B C D E F show ?thesis by blast
qed

text \<open>The example class: its mock, an instance, and the member loop on the instance.\<close>

lemma classHeap_mock: "closureOf classHeap 7 = Some (newMock classMetadata)"
  by code_simp

lemma classHeap_instance: "instanceOf classHeap (Ref 13) (Ref 7) = Inr True"
  by code_simp

lemma classHeap_run:
  "copySlots (recordCall classHeap 7 (Ref 13) []) (Ref 13)
     (prototype (newMock classMetadata)) (prototypeSlots (newMock classMetadata)) = (Inr (), constructedHeap)"
  by code_simp

lemma classHeap_hyps:
  "prototypeSlots (newMock classMetadata) = getSlotsMembers (prototype (newMock classMetadata))"
  "distinct (prototypeSlots (newMock classMetadata))"
  "\<forall>sm \<in> set (prototype (newMock classMetadata)). md_type (snd sm) = Some ''function'' \<longrightarrow> plainTemplate (snd sm)"
  "chainEnds (length classHeap) classHeap (Ref 13)"
  by code_simp+

lemma classHeap_facts:
  "length classHeap = 14"
  "lookupProp classHeap (Ref 13) ''greet'' = Ref 10"
  "lookupProp classHeap (Ref 13) ''k'' = Num 3"
  "(''greet'', greetMetadata) \<in> set (prototype (newMock classMetadata))"
  "md_type greetMetadata = Some ''function''"
  "mockImpl (newMock classMetadata) = Undefined"
  "\<not> hasOwnProperty classHeap (Ref 13) ''greet''"
  "getPrototypeOf classHeap (Ref 13) = lookupProp classHeap (Ref 7) ''prototype''"
  "lookupProp classHeap (lookupProp classHeap (Ref 7) ''prototype'') ''greet'' = Ref 10"
  by code_simp+

lemma classHeap_constant:
  "\<forall>md. (''k'', md) \<in> set (prototype (newMock classMetadata)) \<longrightarrow> md_type md \<noteq> Some ''function''"
  by (auto simp: newMock_def classMetadata_def greetMetadata_def fullNode_def leafNode_def
        backReference_def Let_def)


text \<open>
  The theorem at the instance of the example class, whose template has the function
  \<^verbatim>\<open>greet\<close>: the instance gets the callable at address 14, which remembers the
  implementation of the template at address 10.
\<close>

theorem constructor_style_call_witness:
  "(\<exists>m. lookupProp constructedHeap (Ref 13) ''greet'' = Ref m \<and> 14 \<le> m
       \<and> closureOf constructedHeap m = Some (newMock greetMetadata)
       \<and> lookupProp constructedHeap (Ref m) ''_protoImpl'' = Ref 10)
   \<and> lookupProp classHeap (Ref 13) ''greet''
       = lookupProp classHeap (lookupProp classHeap (Ref 7) ''prototype'') ''greet''
   \<and> lookupProp constructedHeap (Ref 13) ''k'' = Num 3
   \<and> mockConstructor (applyFn 1 answer) classHeap 7 (Ref 13) [] = Some (Inr Undefined, constructedHeap)"
proof -
  note T = constructor_style_call[OF classHeap_mock classHeap_instance classHeap_hyps classHeap_run,
             of "applyFn 1 answer"]
  note A = T[THEN conjunct1, rule_format, OF classHeap_facts(4,5)]
  note B = T[THEN conjunct2, THEN conjunct1, rule_format, OF classHeap_facts(7,8)]
  note C = T[THEN conjunct2, THEN conjunct2, THEN conjunct2, THEN conjunct1, THEN spec, of "''k''"]
  note F = T[THEN conjunct2, THEN conjunct2, THEN conjunct2, THEN conjunct2, THEN conjunct2,
             THEN conjunct2, THEN mp, OF classHeap_facts(6)]
  have "\<exists>m. lookupProp constructedHeap (Ref 13) ''greet'' = Ref m \<and> length classHeap \<le> m
       \<and> closureOf constructedHeap m = Some (newMock greetMetadata)
       \<and> lookupProp constructedHeap (Ref m) ''_protoImpl'' = lookupProp classHeap (Ref 13) ''greet''"
    by (rule A) simp
  then have a: "\<exists>m. lookupProp constructedHeap (Ref 13) ''greet'' = Ref m \<and> 14 \<le> m
       \<and> closureOf constructedHeap m = Some (newMock greetMetadata)
       \<and> lookupProp constructedHeap (Ref m) ''_protoImpl'' = Ref 10"
    by (simp only: classHeap_facts(1,2))
  have "lookupProp constructedHeap (Ref 13) ''k'' = lookupProp classHeap (Ref 13) ''k''"
    by (rule C[THEN mp, THEN mp]) (simp, rule classHeap_constant)
  then have c: "lookupProp constructedHeap (Ref 13) ''k'' = Num 3" by (simp only: classHeap_facts(3))
  from a B c F show ?thesis by (intro conjI)
qed

text \<open>
  A second constructor-style call on the same instance. The instance is still an
  instance of the mock at address 7 and \<^verbatim>\<open>greet\<close> is a function-typed member of the
  template, whose implementation is the callable at address 10. The call installs the
  callable at address 17, and what this one remembers as \<^verbatim>\<open>_protoImpl\<close> is the callable
  at address 14 that the first call installed on the instance, not the implementation
  of the template.
\<close>

theorem constructor_style_call_counterexample:
  "closureOf constructedHeap 7
     = Some ((newMock classMetadata)\<lparr>instances := [Ref 13], calls := [[]]\<rparr>)
   \<and> instanceOf constructedHeap (Ref 13) (Ref 7) = Inr True
   \<and> map_of (prototype (newMock classMetadata)) ''greet'' = Some greetMetadata
   \<and> md_type greetMetadata = Some ''function''
   \<and> mockConstructor (applyFn 1 answer) constructedHeap 7 (Ref 13) []
       = Some (Inr Undefined, reconstructedHeap)
   \<and> lookupProp reconstructedHeap (Ref 7) ''prototype'' = Ref 9
   \<and> lookupProp reconstructedHeap (Ref 9) ''greet'' = Ref 10
   \<and> lookupProp constructedHeap (Ref 13) ''greet'' = Ref 14
   \<and> lookupProp reconstructedHeap (Ref 13) ''greet'' = Ref 17
   \<and> lookupProp reconstructedHeap (Ref 17) ''_protoImpl'' = Ref 14
   \<and> lookupProp reconstructedHeap (Ref 17) ''_protoImpl''
       \<noteq> lookupProp reconstructedHeap (lookupProp reconstructedHeap (Ref 7) ''prototype'') ''greet''"
  by code_simp


end
